(* ===== verification/Prelude.thy ===== *)
theory Prelude
  imports Main "HOL-Library.Word"
begin

text \<open>
  What every component shares: the machine types of the Go program, the errors its functions
  return, the result type of a function that can fail with the two ways the code sequences such
  calls (an early return, a loop with an early return), and generic facts on lists, options and
  sums that the component theories use through the collections declared here.

  A Go \<open>[32]byte\<close> or \<open>[20]byte\<close> is a list of bytes; its length is a well-formedness predicate of
  the component that owns the type. A Go string is a \<open>string\<close>, one \<open>char\<close> per byte. An unsigned
  integer is a word of its width, and a signed one is an \<open>int\<close> whose range is written out where
  the code converts between widths.
\<close>

named_theorems res_simps \<open>equations that evaluate sequenced calls\<close>
named_theorems codec_simps \<open>round trips and widths of the encodings\<close>
named_theorems store_defs \<open>definitions of the statements of the store\<close>

subsection \<open>Machine types\<close>

type_synonym byte = "8 word"
type_synonym bytes = "byte list"
type_synonym u32 = "32 word"
type_synonym u64 = "64 word"

abbreviation max_int64 :: int where
  "max_int64 \<equiv> 9223372036854775807"

abbreviation max_int32 :: int where
  "max_int32 \<equiv> 2147483647"

text \<open>Go's \<open>int32(x)\<close> of a 64-bit \<open>int\<close>: the low 32 bits, read as two's complement.\<close>

definition int32_of :: "int \<Rightarrow> int" where
  "int32_of x = signed_take_bit 31 x"

text \<open>Go's \<open>int32(h)\<close> of a \<open>uint32\<close>, and the \<open>uint32(h)\<close> that reads it back.\<close>

definition int32_of_u32 :: "u32 \<Rightarrow> int" where
  "int32_of_u32 w = sint w"

definition u32_of_int32 :: "int \<Rightarrow> u32" where
  "u32_of_int32 i = word_of_int i"

lemma u32_of_int32_of_u32 [simp]: "u32_of_int32 (int32_of_u32 w) = w"
  by (simp add: u32_of_int32_def int32_of_u32_def)

lemma int32_of_u32_inject [simp]: "int32_of_u32 a = int32_of_u32 b \<longleftrightarrow> a = b"
  by (metis u32_of_int32_of_u32)

lemma int32_of_u32_small:
  assumes "unat w < 2 ^ 31"
  shows "int32_of_u32 w = int (unat w)"
proof -
  from assms have "int (unat w) < int (2 ^ 31)" by (simp only: of_nat_less_iff)
  then have "uint w < 2 ^ 31" by simp
  then have "signed_take_bit 31 (uint w) = uint w"
    by (intro signed_take_bit_int_eq_self) (auto intro: order_trans [OF _ uint_ge_0])
  then show ?thesis by (simp add: int32_of_u32_def sint_uint)
qed

subsection \<open>Errors and results\<close>

text \<open>One constructor per kind of error the modelled functions return.\<close>

datatype error =
    ErrHexByte               \<comment> \<open>\<open>hex.InvalidByteError\<close>\<close>
  | ErrHexLength             \<comment> \<open>\<open>hex.ErrLength\<close>: odd length\<close>
  | ErrSyntax                \<comment> \<open>\<open>strconv.ErrSyntax\<close>\<close>
  | ErrRange                 \<comment> \<open>\<open>strconv.ErrRange\<close>\<close>
  | ErrJsonType              \<comment> \<open>a JSON value of the wrong type\<close>
  | ErrJsonSyntax            \<comment> \<open>text that is not JSON\<close>
  | ErrJsonEnd               \<comment> \<open>unexpected end of JSON input\<close>
  | ErrEmpty                 \<comment> \<open>an empty byte string\<close>
  | ErrLength nat            \<comment> \<open>a byte string of the wrong length\<close>
  | ErrBase58                \<comment> \<open>an address that is not base58\<close>
  | ErrUnknownKind byte      \<comment> \<open>an outpoint of an unknown kind\<close>
  | ErrNoVout                \<comment> \<open>a mainchain outpoint with no vout\<close>
  | ErrNoVariant             \<comment> \<open>a tagged value that names no known variant\<close>
  | ErrVariantCount nat      \<comment> \<open>a tagged value that names other than one variant\<close>
  | ErrNoCoinbaseSource      \<comment> \<open>a coinbase outpoint with neither txid nor merkle root\<close>
  | ErrPairLength nat        \<comment> \<open>a pair with other than two elements\<close>
  | ErrTxIndex               \<comment> \<open>a transaction index outside the body\<close>
  | ErrAuthorizations nat    \<comment> \<open>too few authorizations for a transaction\<close>
  | ErrOverflow              \<comment> \<open>a withdrawal whose value plus fee overflows\<close>
  | ErrNotInt64              \<comment> \<open>a value that does not fit an int64\<close>
  | ErrNoAmount              \<comment> \<open>truthcoin market funds without an amount\<close>
  | ErrUnknownNetwork string
  | ErrUnknownChain string
  | ErrNoDecoder string
  | ErrTxCount nat nat       \<comment> \<open>a block index that names another number of transactions\<close>
  | ErrNotDeposit byte       \<comment> \<open>a deposit with an outpoint of another kind\<close>
  | ErrDatabase              \<comment> \<open>a statement failed: lost connection or cancelled context\<close>
  | ErrUnique                \<comment> \<open>a unique or primary key constraint\<close>
  | ErrNumericRange          \<comment> \<open>a sum that does not fit a bigint\<close>
  | ErrNoRows                \<comment> \<open>\<open>pgx.ErrNoRows\<close> where the code expects a row\<close>
  | ErrNotFound              \<comment> \<open>\<open>store.ErrNotFound\<close>\<close>
  | ErrColumn string         \<comment> \<open>a query keyed on an unknown column\<close>
  | ErrOtherChain            \<comment> \<open>the database holds another chain\<close>
  | ErrUnavailable           \<comment> \<open>\<open>service.ErrUnavailable\<close>\<close>
  | ErrEmptyChain            \<comment> \<open>\<open>chain.ErrEmptyChain\<close>\<close>
  | ErrNode                  \<comment> \<open>the node answered with an error\<close>
  | ErrNoHeader              \<comment> \<open>a hash at a height but no header for it\<close>
  | ErrTimeSource            \<comment> \<open>the mainchain time source failed\<close>
  | ErrCancelled             \<comment> \<open>the context ended\<close>
  | ErrBody                  \<comment> \<open>a request body that cannot be read\<close>
  | ErrBodyEmpty             \<comment> \<open>a request body that is empty\<close>
  | ErrBodyJson              \<comment> \<open>a request body that is not JSON\<close>
  | ErrNotNumber             \<comment> \<open>a path value that is not a whole number\<close>
  | ErrHttp                  \<comment> \<open>a request that got no answer\<close>
  | ErrHttpStatus nat        \<comment> \<open>an answer with another status than 200\<close>
  | ErrRemote int            \<comment> \<open>an error the other side reported, with its code\<close>
  | ErrPanic                 \<comment> \<open>a panic: a build-time mistake\<close>

type_synonym 'a res = "error + 'a"

text \<open>\<open>if err != nil { return err }\<close>.\<close>

definition bindE :: "'e + 'a \<Rightarrow> ('a \<Rightarrow> 'e + 'b) \<Rightarrow> 'e + 'b" where
  "bindE m f = (case m of Inl e \<Rightarrow> Inl e | Inr x \<Rightarrow> f x)"

lemma bindE_Inl [simp, res_simps]: "bindE (Inl e) f = Inl e"
  by (simp add: bindE_def)

lemma bindE_Inr [simp, res_simps]: "bindE (Inr x) f = f x"
  by (simp add: bindE_def)

lemma bindE_eq_Inr: "bindE m f = Inr y \<longleftrightarrow> (\<exists>x. m = Inr x \<and> f x = Inr y)"
  by (cases m) auto

lemma bindE_eq_InrE:
  assumes "bindE m f = Inr y"
  obtains x where "m = Inr x" "f x = Inr y"
  using assms by (auto simp: bindE_eq_Inr)

lemma bindE_assoc: "bindE (bindE m f) g = bindE m (\<lambda>x. bindE (f x) g)"
  by (cases m) auto

lemma bindE_cong [fundef_cong]:
  "m = m' \<Longrightarrow> (\<And>x. m' = Inr x \<Longrightarrow> f x = f' x) \<Longrightarrow> bindE m f = bindE m' f'"
  by (cases m') auto

text \<open>A loop over a list that returns at the first error.\<close>

fun mapE :: "('a \<Rightarrow> 'e + 'b) \<Rightarrow> 'a list \<Rightarrow> 'e + 'b list" where
  "mapE f [] = Inr []"
| "mapE f (x # xs) = bindE (f x) (\<lambda>y. bindE (mapE f xs) (\<lambda>ys. Inr (y # ys)))"

lemma mapE_eq_Inr: "mapE f xs = Inr ys \<longleftrightarrow> list_all2 (\<lambda>x y. f x = Inr y) xs ys"
  by (induction xs arbitrary: ys) (auto simp: bindE_eq_Inr list_all2_Cons1)

lemma mapE_length: "mapE f xs = Inr ys \<Longrightarrow> length ys = length xs"
  by (auto simp: mapE_eq_Inr dest: list_all2_lengthD)

lemma mapE_pure: "(\<And>x. x \<in> set xs \<Longrightarrow> f x = Inr (g x)) \<Longrightarrow> mapE f xs = Inr (map g xs)"
  by (induction xs) auto

lemma mapE_setD:
  assumes "mapE f xs = Inr ys" and "y \<in> set ys"
  shows "\<exists>x \<in> set xs. f x = Inr y"
  using assms by (induction xs arbitrary: ys) (auto simp: bindE_eq_Inr)

lemma mapE_setI:
  assumes "mapE f xs = Inr ys" and "x \<in> set xs"
  obtains y where "y \<in> set ys" and "f x = Inr y"
proof -
  have "\<exists>y \<in> set ys. f x = Inr y" using assms by (induction xs arbitrary: ys) (auto simp: bindE_eq_Inr)
  then show ?thesis using that by blast
qed

lemma mapE_map_eq:
  assumes "mapE f xs = Inr ys" and "\<And>x y. x \<in> set xs \<Longrightarrow> f x = Inr y \<Longrightarrow> g y = h x"
  shows "map g ys = map h xs"
  using assms by (induction xs arbitrary: ys) (auto simp: bindE_eq_Inr)

text \<open>\<open>for i, x := range xs\<close>: the elements with their positions.\<close>

definition indexed :: "'a list \<Rightarrow> (nat \<times> 'a) list" where
  "indexed xs = enumerate 0 xs"

lemma length_indexed [simp]: "length (indexed xs) = length xs"
  by (simp add: indexed_def)

lemma map_snd_indexed [simp]: "map snd (indexed xs) = xs"
  by (simp add: indexed_def)

lemma map_fst_indexed [simp]: "map fst (indexed xs) = [0..<length xs]"
  by (simp add: indexed_def)

lemma nth_indexed [simp]: "i < length xs \<Longrightarrow> indexed xs ! i = (i, xs ! i)"
  by (simp add: indexed_def nth_enumerate_eq)

lemma in_set_indexed: "(i, x) \<in> set (indexed xs) \<longleftrightarrow> i < length xs \<and> xs ! i = x"
  by (auto simp: in_set_conv_nth)

text \<open>A loop over a list that threads a state and returns at the first error.\<close>

fun foldE :: "('a \<Rightarrow> 's \<Rightarrow> 'e + 's) \<Rightarrow> 'a list \<Rightarrow> 's \<Rightarrow> 'e + 's" where
  "foldE f [] s = Inr s"
| "foldE f (x # xs) s = bindE (f x s) (foldE f xs)"

lemma foldE_append: "foldE f (xs @ ys) s = bindE (foldE f xs s) (foldE f ys)"
  by (induction xs arbitrary: s) (auto simp: bindE_assoc intro: bindE_cong)

lemma foldE_inv:
  assumes "foldE f xs s = Inr t" and "P s"
    and "\<And>x s t. x \<in> set xs \<Longrightarrow> P s \<Longrightarrow> f x s = Inr t \<Longrightarrow> P t"
  shows "P t"
  using assms by (induction xs arbitrary: s) (auto simp: bindE_eq_Inr)

subsection \<open>Lists\<close>

text \<open>Go's \<open>copy(dst[:], src)\<close> into a zeroed array of \<open>n\<close> bytes.\<close>

definition copy_into :: "nat \<Rightarrow> bytes \<Rightarrow> bytes" where
  "copy_into n src = take n src @ replicate (n - length src) 0"

lemma length_copy_into [simp, codec_simps]: "length (copy_into n src) = n"
  by (simp add: copy_into_def)

lemma copy_into_id [simp, codec_simps]: "length src = n \<Longrightarrow> copy_into n src = src"
  by (simp add: copy_into_def)

lemma find_map_unique:
  assumes "distinct (map k xs)" and "x \<in> set xs" and "k x = a"
  shows "find (\<lambda>y. k y = a) xs = Some x"
  using assms by (induction xs) (auto simp: rev_image_eqI)

lemma find_eq_None_iff: "find P xs = None \<longleftrightarrow> (\<forall>x\<in>set xs. \<not> P x)"
  by (induction xs) auto

lemma find_SomeD: "find P xs = Some x \<Longrightarrow> x \<in> set xs \<and> P x"
  by (induction xs) (auto split: if_splits)

lemma sum_list_filter_split:
  fixes f :: "'a \<Rightarrow> 'b::comm_monoid_add"
  shows "sum_list (map f xs) = sum_list (map f (filter P xs)) + sum_list (map f (filter (\<lambda>x. \<not> P x) xs))"
  by (induction xs) (auto simp: ac_simps)

lemma filter_id: "(\<And>x. x \<in> set xs \<Longrightarrow> P x) \<Longrightarrow> filter P xs = xs"
  by (induction xs) auto

lemma filter_none: "(\<And>x. x \<in> set xs \<Longrightarrow> \<not> P x) \<Longrightarrow> filter P xs = []"
  by (induction xs) auto

lemma map_id_on: "(\<And>x. x \<in> set xs \<Longrightarrow> f x = x) \<Longrightarrow> map f xs = xs"
  by (induction xs) auto

end
