(* ===== verification/Encoding.thy ===== *)
theory Encoding
  imports Prelude
begin

unbundle bit_operations_syntax

text \<open>
  The encodings of the Go standard library that the program uses: \<open>encoding/hex\<close>,
  \<open>strconv.ParseUint\<close> and \<open>strconv.FormatUint\<close> in base ten, \<open>strconv.Atoi\<close>,
  \<open>binary.LittleEndian\<close> on 32 bits, \<open>strings.Cut\<close> and \<open>strings.TrimPrefix\<close>.
  The locales \<open>codec\<close> and \<open>fixed_codec\<close> say what the rest of the development relies on: an encoding
  can be read back, so it is injective, and one of a fixed width can be split off a longer string.
\<close>

subsection \<open>The contract of an encoding\<close>

locale codec =
  fixes enc :: "'a \<Rightarrow> 'b" and dec :: "'b \<Rightarrow> 'a res" and wf :: "'a \<Rightarrow> bool"
  assumes dec_enc: "wf a \<Longrightarrow> dec (enc a) = Inr a"
begin

lemma enc_inject: "wf a \<Longrightarrow> wf b \<Longrightarrow> enc a = enc b \<longleftrightarrow> a = b"
  by (metis dec_enc sum.inject(2))

lemma enc_inj_on: "inj_on enc {a. wf a}"
  by (auto simp: inj_on_def enc_inject)

lemma distinct_map_enc:
  assumes "\<forall>a\<in>set xs. wf a"
  shows "distinct (map enc xs) \<longleftrightarrow> distinct xs"
proof -
  have "inj_on enc (set xs)" using assms by (auto simp: inj_on_def enc_inject)
  then show ?thesis by (simp add: distinct_map)
qed

lemma mapE_dec_enc:
  assumes "\<forall>a\<in>set xs. wf a"
  shows "mapE dec (map enc xs) = Inr xs"
  using assms by (induction xs) (auto simp: dec_enc)

end

locale fixed_codec = codec enc dec wf
  for enc :: "'a \<Rightarrow> 'c list" and dec and wf +
  fixes width :: nat
  assumes length_enc: "wf a \<Longrightarrow> length (enc a) = width"
begin

lemma enc_append_inject:
  "wf a \<Longrightarrow> wf b \<Longrightarrow> enc a @ xs = enc b @ ys \<longleftrightarrow> a = b \<and> xs = ys"
  by (auto simp: enc_inject length_enc)

lemma dec_take: "wf a \<Longrightarrow> dec (take width (enc a @ xs)) = Inr a"
  by (simp add: length_enc dec_enc)

end

subsection \<open>Hexadecimal\<close>

definition hex_digit :: "nat \<Rightarrow> char" where
  "hex_digit n = ''0123456789abcdef'' ! n"

definition hex_val :: "char \<Rightarrow> nat option" where
  "hex_val c = (let n = (of_char c :: nat) in
     if 48 \<le> n \<and> n \<le> 57 then Some (n - 48)
     else if 97 \<le> n \<and> n \<le> 102 then Some (n - 87)
     else if 65 \<le> n \<and> n \<le> 70 then Some (n - 55)
     else None)"

fun hex_encode :: "bytes \<Rightarrow> string" where
  "hex_encode [] = []"
| "hex_encode (b # bs) = hex_digit (unat b div 16) # hex_digit (unat b mod 16) # hex_encode bs"

fun hex_decode :: "string \<Rightarrow> bytes res" where
  "hex_decode [] = Inr []"
| "hex_decode [c] = (case hex_val c of None \<Rightarrow> Inl ErrHexByte | Some _ \<Rightarrow> Inl ErrHexLength)"
| "hex_decode (c # d # cs) =
     (case hex_val c of None \<Rightarrow> Inl ErrHexByte | Some hi \<Rightarrow>
     (case hex_val d of None \<Rightarrow> Inl ErrHexByte | Some lo \<Rightarrow>
       bindE (hex_decode cs) (\<lambda>bs. Inr (word_of_nat (16 * hi + lo) # bs))))"

lemma hex_vals: "map hex_val ''0123456789abcdef'' = map Some [0..<16]"
  by (simp add: hex_val_def upt_rec)

lemma hex_val_digit: "n < 16 \<Longrightarrow> hex_val (hex_digit n) = Some n"
  using arg_cong [OF hex_vals, of "\<lambda>xs. xs ! n"] by (simp add: hex_digit_def del: list.map)

lemma hex_val_bound: "hex_val c = Some n \<Longrightarrow> n < 16"
  by (auto simp: hex_val_def Let_def split: if_splits)

lemma length_hex_encode [simp, codec_simps]: "length (hex_encode bs) = 2 * length bs"
  by (induction bs) auto

lemma byte_nibbles: "word_of_nat (16 * (unat b div 16) + unat b mod 16) = (b :: byte)"
  by (simp add: mult.commute)

lemma unat_byte_div: "unat (b :: byte) div 16 < 16"
proof -
  have "unat b < 2 ^ LENGTH(8)" by (rule unsigned_less)
  then show ?thesis by simp
qed

lemma hex_decode_encode [simp, codec_simps]: "hex_decode (hex_encode bs) = Inr bs"
  by (induction bs) (simp_all add: hex_val_digit unat_byte_div byte_nibbles)

lemma hex_decode_length: "hex_decode s = Inr bs \<Longrightarrow> length s = 2 * length bs"
  by (induction s arbitrary: bs rule: hex_decode.induct)
     (auto simp: bindE_eq_Inr split: option.splits)

interpretation hexc: codec hex_encode hex_decode "\<lambda>_. True"
  by unfold_locales simp

text \<open>Reading accepts upper case digits too; printing what was read gives the lower case form.\<close>

definition lower_hex :: "char \<Rightarrow> char" where
  "lower_hex c = (case hex_val c of None \<Rightarrow> c | Some n \<Rightarrow> hex_digit n)"

lemma hex_encode_decode: "hex_decode s = Inr bs \<Longrightarrow> hex_encode bs = map lower_hex s"
proof (induction s arbitrary: bs rule: hex_decode.induct)
  case (3 c d cs)
  from 3(2) obtain hi lo bs' where hl: "hex_val c = Some hi" "hex_val d = Some lo"
    and bs': "hex_decode cs = Inr bs'" and bs: "bs = word_of_nat (16 * hi + lo) # bs'"
    by (auto simp: bindE_eq_Inr split: option.splits)
  from hl have "hi < 16" "lo < 16" by (auto dest: hex_val_bound)
  then have "unat (word_of_nat (16 * hi + lo) :: byte) = 16 * hi + lo"
    by (simp only: unat_of_nat) simp
  with hl bs 3(1) [OF hl bs'] \<open>lo < 16\<close> show ?case by (simp add: lower_hex_def)
qed (auto split: option.splits)

subsection \<open>Decimal numbers\<close>

definition digit_val :: "char \<Rightarrow> nat option" where
  "digit_val c = (let n = (of_char c :: nat) in if 48 \<le> n \<and> n \<le> 57 then Some (n - 48) else None)"

text \<open>The loop of \<open>ParseUint\<close>: a bad digit and a value past the maximum both return at once.\<close>

fun parse_digits :: "nat \<Rightarrow> nat \<Rightarrow> string \<Rightarrow> nat res" where
  "parse_digits m n [] = Inr n"
| "parse_digits m n (c # cs) =
     (case digit_val c of None \<Rightarrow> Inl ErrSyntax | Some d \<Rightarrow>
        if m < 10 * n + d then Inl ErrRange else parse_digits m (10 * n + d) cs)"

text \<open>\<open>strconv.ParseUint(s, 10, bits)\<close>.\<close>

definition parse_uint :: "nat \<Rightarrow> string \<Rightarrow> nat res" where
  "parse_uint bits s = (if s = [] then Inl ErrSyntax else parse_digits (2 ^ bits - 1) 0 s)"

text \<open>\<open>strconv.FormatUint(n, 10)\<close>, which \<open>%d\<close> prints too.\<close>

fun format_uint :: "nat \<Rightarrow> string" where
  "format_uint n =
     (if n < 10 then [hex_digit n] else format_uint (n div 10) @ [hex_digit (n mod 10)])"

declare format_uint.simps [simp del]

text \<open>\<open>strconv.Atoi\<close> on a 64-bit platform: an optional sign, then digits.\<close>

definition parse_int :: "string \<Rightarrow> int res" where
  "parse_int s =
     (case s of [] \<Rightarrow> Inl ErrSyntax
      | c # cs \<Rightarrow>
        (let neg = (c = CHR ''-''); ds = (if c = CHR ''-'' \<or> c = CHR ''+'' then cs else s) in
         bindE (parse_uint 64 ds) (\<lambda>n.
           if neg then (if 2 ^ 63 < n then Inl ErrRange else Inr (- int n))
           else if 2 ^ 63 \<le> n then Inl ErrRange else Inr (int n))))"

lemma digit_vals: "map digit_val ''0123456789'' = map Some [0..<10]"
  by (simp add: digit_val_def upt_rec)

lemma hex_digit_decimal: "n < 10 \<Longrightarrow> hex_digit n = ''0123456789'' ! n"
  using nth_append [of "''0123456789''" "''abcdef''" n] by (simp add: hex_digit_def)

lemma digit_val_hex_digit: "n < 10 \<Longrightarrow> digit_val (hex_digit n) = Some n"
  using arg_cong [OF digit_vals, of "\<lambda>xs. xs ! n"]
  by (simp add: hex_digit_decimal del: list.map)

lemma parse_digits_append:
  "parse_digits m n (xs @ ys) = bindE (parse_digits m n xs) (\<lambda>k. parse_digits m k ys)"
  by (induction xs arbitrary: n) (auto split: option.splits)

lemma parse_digits_format: "n \<le> m \<Longrightarrow> parse_digits m 0 (format_uint n) = Inr n"
proof (induction n rule: format_uint.induct)
  case (1 n)
  show ?case
  proof (cases "n < 10")
    case True
    with 1(2) show ?thesis by (simp add: format_uint.simps [of n] digit_val_hex_digit)
  next
    case False
    have "parse_digits m 0 (format_uint (n div 10)) = Inr (n div 10)"
      using 1(1) [OF False] 1(2) by simp
    moreover have "10 * (n div 10) + n mod 10 = n" by simp
    ultimately show ?thesis using False 1(2)
      by (simp add: format_uint.simps [of n] parse_digits_append digit_val_hex_digit)
  qed
qed

lemma format_uint_not_Nil [simp]: "format_uint n \<noteq> []"
  by (subst format_uint.simps) simp

lemma parse_uint_format [codec_simps]: "n < 2 ^ bits \<Longrightarrow> parse_uint bits (format_uint n) = Inr n"
  by (simp add: parse_uint_def parse_digits_format)

lemma parse_digits_bound: "parse_digits m n s = Inr k \<Longrightarrow> n \<le> m \<Longrightarrow> k \<le> m"
  by (induction m n s rule: parse_digits.induct) (auto split: option.splits if_splits)

lemma parse_uint_bound:
  assumes "parse_uint bits s = Inr n"
  shows "n < 2 ^ bits"
proof -
  have "n \<le> 2 ^ bits - 1"
    using assms by (auto simp: parse_uint_def dest: parse_digits_bound split: if_splits)
  also have "\<dots> < 2 ^ bits" by simp
  finally show ?thesis .
qed

lemma format_uint_digits: "c \<in> set (format_uint n) \<Longrightarrow> digit_val c \<noteq> None"
proof (induction n rule: format_uint.induct)
  case (1 n)
  then show ?case
    by (cases "n < 10") (auto simp: format_uint.simps [of n] digit_val_hex_digit)
qed

interpretation decc: codec format_uint "parse_uint bits" "\<lambda>n. n < 2 ^ bits" for bits
  by unfold_locales (rule parse_uint_format)

subsection \<open>Little-endian 32-bit numbers\<close>

text \<open>\<open>binary.LittleEndian.PutUint32\<close> and \<open>binary.LittleEndian.Uint32\<close>.\<close>

definition put_u32 :: "u32 \<Rightarrow> bytes" where
  "put_u32 w = [ucast w, ucast (drop_bit 8 w), ucast (drop_bit 16 w), ucast (drop_bit 24 w)]"

definition get_u32 :: "bytes \<Rightarrow> u32" where
  "get_u32 bs = ucast (bs ! 0) OR push_bit 8 (ucast (bs ! 1)) OR push_bit 16 (ucast (bs ! 2))
     OR push_bit 24 (ucast (bs ! 3))"

lemma length_put_u32 [simp, codec_simps]: "length (put_u32 w) = 4"
  by (simp add: put_u32_def)

lemma get_put_u32 [simp, codec_simps]: "get_u32 (put_u32 w) = w"
proof (rule bit_word_eqI)
  fix n assume "n < LENGTH(32)"
  then show "bit (get_u32 (put_u32 w)) n \<longleftrightarrow> bit w n"
    by (cases "n < 24"; cases "n < 16") (auto simp: get_u32_def put_u32_def bit_simps)
qed

interpretation le32: fixed_codec put_u32 "\<lambda>bs. Inr (get_u32 bs)" "\<lambda>_. True" 4
  by unfold_locales simp_all

subsection \<open>Strings\<close>

text \<open>\<open>strings.Cut\<close> at a one-byte separator, and \<open>strings.TrimPrefix\<close>.\<close>

fun str_cut :: "char \<Rightarrow> string \<Rightarrow> string \<times> string \<times> bool" where
  "str_cut sep [] = ([], [], False)"
| "str_cut sep (c # cs) =
     (if c = sep then ([], cs, True)
      else (case str_cut sep cs of (a, b, found) \<Rightarrow> (c # a, if found then b else [], found)))"

definition trim_prefix :: "string \<Rightarrow> string \<Rightarrow> string" where
  "trim_prefix p s = (if take (length p) s = p then drop (length p) s else s)"

lemma str_cut_append: "sep \<notin> set a \<Longrightarrow> str_cut sep (a @ sep # b) = (a, b, True)"
  by (induction a) auto

lemma str_cut_not_found: "sep \<notin> set a \<Longrightarrow> snd (snd (str_cut sep a)) = False"
  by (induction a) (auto split: prod.splits)

lemma hex_encode_chars: "c \<in> set (hex_encode bs) \<Longrightarrow> \<exists>n < 16. c = hex_digit n"
  by (induction bs) (auto intro: unat_byte_div, metis mod_less_divisor zero_less_numeral)

end
