(* ===== verification/Json.thy ===== *)
theory Json
  imports Encoding "HOL-Library.AList"
begin

text \<open>
  The part of \<open>encoding/json\<close> the program uses, on parsed values. A number keeps its literal text,
  because an unsigned field is read with \<open>strconv.ParseUint\<close> on that text. A \<open>json.RawMessage\<close> is a
  \<open>json option\<close>: \<open>None\<close> is the nil message of a field the sender left out.

  A struct is decoded by walking the object's members in order. Each member finds its field by exact
  name, or else by the case-insensitive name, and unknown members are skipped, so a repeated member
  overwrites or merges exactly as the decoder of the library does. A \<open>null\<close> leaves a plain field
  alone and clears a pointer.
\<close>

datatype json =
    JNull
  | JBool bool
  | JNum string
  | JStr string
  | JArr "json list"
  | JObj "(string \<times> json) list"

type_synonym raw_message = "json option"

subsection \<open>Field names\<close>

definition ascii_upper :: "char \<Rightarrow> char" where
  "ascii_upper c = (let n = (of_char c :: nat) in
     if 97 \<le> n \<and> n \<le> 122 then char_of (n - 32) else c)"

text \<open>
  \<open>foldName\<close>: letters fold to upper case, and the two characters outside ASCII that fold to an ASCII
  letter (the Kelvin sign and the long s, in UTF-8) fold to it.
\<close>

fun fold_name :: "string \<Rightarrow> string" where
  "fold_name (a # b # c # cs) =
     (if a = CHR 0xE2 \<and> b = CHR 0x84 \<and> c = CHR 0xAA then CHR ''K'' # fold_name cs
      else if a = CHR 0xC5 \<and> b = CHR 0xBF then CHR ''S'' # fold_name (c # cs)
      else ascii_upper a # fold_name (b # c # cs))"
| "fold_name [a, b] =
     (if a = CHR 0xC5 \<and> b = CHR 0xBF then ''S'' else [ascii_upper a, ascii_upper b])"
| "fold_name [a] = [ascii_upper a]"
| "fold_name [] = []"

text \<open>A decoder of one struct type: its fields by name, each with what storing a value does.\<close>

type_synonym 's fields = "(string \<times> (json \<Rightarrow> 's \<Rightarrow> 's res)) list"

definition find_field :: "'s fields \<Rightarrow> string \<Rightarrow> (json \<Rightarrow> 's \<Rightarrow> 's res) option" where
  "find_field fs key =
     (case map_of fs key of Some put \<Rightarrow> Some put
      | None \<Rightarrow> map_option snd (find (\<lambda>f. fold_name (fst f) = fold_name key) fs))"

definition store_member :: "'s fields \<Rightarrow> string \<times> json \<Rightarrow> 's \<Rightarrow> 's res" where
  "store_member fs kv s =
     (case find_field fs (fst kv) of None \<Rightarrow> Inr s | Some put \<Rightarrow> put (snd kv) s)"

text \<open>\<open>json.Unmarshal\<close> into a struct.\<close>

fun un_struct :: "'s fields \<Rightarrow> json \<Rightarrow> 's \<Rightarrow> 's res" where
  "un_struct fs JNull s = Inr s"
| "un_struct fs (JObj kvs) s = foldE (store_member fs) kvs s"
| "un_struct fs _ s = Inl ErrJsonType"

subsection \<open>Text put between quotes\<close>

text \<open>
  What \<open>json.Unmarshal\<close> reads from a text \<open>s\<close> that the code wraps in double quotes: the characters of
  the string literal, with its escapes resolved. A quote or a control character inside makes the text
  invalid. A code point outside ASCII gives its UTF-8 bytes, and a surrogate the replacement character.
\<close>

definition utf8_bmp :: "nat \<Rightarrow> string" where
  "utf8_bmp n =
     (if n < 128 then [char_of n]
      else if n < 2048 then [char_of (192 + n div 64), char_of (128 + n mod 64)]
      else if 55296 \<le> n \<and> n < 57344 then [CHR 0xEF, CHR 0xBF, CHR 0xBD]
      else [char_of (224 + n div 4096), char_of (128 + n div 64 mod 64), char_of (128 + n mod 64)])"

definition hex4 :: "char \<Rightarrow> char \<Rightarrow> char \<Rightarrow> char \<Rightarrow> nat option" where
  "hex4 a b c d =
     (case (hex_val a, hex_val b, hex_val c, hex_val d) of
        (Some a', Some b', Some c', Some d') \<Rightarrow> Some (4096 * a' + 256 * b' + 16 * c' + d')
      | _ \<Rightarrow> None)"

definition simple_escape :: "char \<Rightarrow> char option" where
  "simple_escape c =
     (if c = CHR 0x22 \<or> c = CHR 0x5C \<or> c = CHR ''/'' then Some c
      else if c = CHR ''b'' then Some (CHR 0x08) else if c = CHR ''f'' then Some (CHR 0x0C)
      else if c = CHR ''n'' then Some (CHR 0x0A) else if c = CHR ''r'' then Some (CHR 0x0D)
      else if c = CHR ''t'' then Some (CHR 0x09) else None)"

definition plain_char :: "char \<Rightarrow> bool" where
  "plain_char c \<longleftrightarrow> c \<noteq> CHR 0x22 \<and> c \<noteq> CHR 0x5C \<and> (32::nat) \<le> of_char c"

fun json_unquote :: "string \<Rightarrow> string option" where
  "json_unquote [] = Some []"
| "json_unquote (c # cs) =
     (if plain_char c then map_option (\<lambda>s. c # s) (json_unquote cs)
      else if c \<noteq> CHR 0x5C then None
      else (case cs of
          [] \<Rightarrow> None
        | e # es \<Rightarrow>
            if e = CHR ''u'' then
              (case es of
                 w # x # y # z # rest \<Rightarrow>
                   (case hex4 w x y z of None \<Rightarrow> None
                    | Some n \<Rightarrow> map_option (\<lambda>s. utf8_bmp n @ s) (json_unquote rest))
               | _ \<Rightarrow> None)
            else (case simple_escape e of None \<Rightarrow> None
                  | Some e' \<Rightarrow> map_option (\<lambda>s. e' # s) (json_unquote es))))"

definition quoted_json :: "string \<Rightarrow> json res" where
  "quoted_json s = (case json_unquote s of None \<Rightarrow> Inl ErrJsonSyntax | Some t \<Rightarrow> Inr (JStr t))"

lemma json_unquote_plain: "\<forall>c\<in>set s. plain_char c \<Longrightarrow> json_unquote s = Some s"
  by (induction s) auto

lemma plain_hex_digits: "\<forall>c\<in>set ''0123456789abcdef''. plain_char c"
  by (simp add: plain_char_def)

lemma plain_hex_digit: "n < 16 \<Longrightarrow> plain_char (hex_digit n)"
  using plain_hex_digits nth_mem [of n "''0123456789abcdef''"]
  by (simp add: hex_digit_def del: list.set)

lemma quoted_json_hex [simp, codec_simps]: "quoted_json (hex_encode bs) = Inr (JStr (hex_encode bs))"
  unfolding quoted_json_def
  by (subst json_unquote_plain) (auto dest!: hex_encode_chars simp: plain_hex_digit)

subsection \<open>Scalars and containers\<close>

text \<open>Into a string variable, a \<open>uint32\<close> or \<open>uint64\<close> variable and a bool variable that hold \<open>old\<close>.\<close>

fun un_string :: "json \<Rightarrow> string \<Rightarrow> string res" where
  "un_string JNull old = Inr old"
| "un_string (JStr s) old = Inr s"
| "un_string _ old = Inl ErrJsonType"

fun un_uint :: "json \<Rightarrow> ('w::len) word \<Rightarrow> 'w word res" where
  "un_uint JNull old = Inr old"
| "un_uint (JNum lit) old = (case parse_uint LENGTH('w) lit of Inl e \<Rightarrow> Inl ErrJsonType | Inr n \<Rightarrow> Inr (word_of_nat n))"
| "un_uint _ old = Inl ErrJsonType"

fun un_bool :: "json \<Rightarrow> bool \<Rightarrow> bool res" where
  "un_bool JNull old = Inr old"
| "un_bool (JBool b) old = Inr b"
| "un_bool _ old = Inl ErrJsonType"

text \<open>Into a pointer: \<open>null\<close> clears it, anything else decodes into what it points at, or a zero value.\<close>

definition un_ptr :: "(json \<Rightarrow> 'a \<Rightarrow> 'a res) \<Rightarrow> 'a \<Rightarrow> json \<Rightarrow> 'a option \<Rightarrow> 'a option res" where
  "un_ptr un zero j old =
     (if j = JNull then Inr None
      else bindE (un j (case old of None \<Rightarrow> zero | Some x \<Rightarrow> x)) (\<lambda>x. Inr (Some x)))"

text \<open>Into a slice whose elements have their own \<open>UnmarshalJSON\<close>: \<open>null\<close> gives the nil slice.\<close>

fun un_slice :: "(json \<Rightarrow> 'a res) \<Rightarrow> json \<Rightarrow> 'a list res" where
  "un_slice un JNull = Inr []"
| "un_slice un (JArr js) = mapE un js"
| "un_slice un _ = Inl ErrJsonType"

text \<open>Into a fresh \<open>map[string]json.RawMessage\<close>: a repeated key keeps the last value.\<close>

fun un_map :: "json \<Rightarrow> (string \<times> json) list res" where
  "un_map JNull = Inr []"
| "un_map (JObj kvs) = Inr (fold (\<lambda>(k, v). AList.update k v) kvs [])"
| "un_map _ = Inl ErrJsonType"

text \<open>\<open>json.Unmarshal\<close> of a nil message.\<close>

definition un_raw :: "(json \<Rightarrow> 'a res) \<Rightarrow> raw_message \<Rightarrow> 'a res" where
  "un_raw un raw = (case raw of None \<Rightarrow> Inl ErrJsonEnd | Some j \<Rightarrow> un j)"

definition j_uint :: "('w::len) word \<Rightarrow> json" where
  "j_uint w = JNum (format_uint (unat w))"

lemma un_uint_j_uint [simp, codec_simps]: "un_uint (j_uint w) old = Inr w"
proof -
  have "unat w < 2 ^ LENGTH('a)" by (rule unsigned_less)
  then show ?thesis by (simp add: j_uint_def parse_uint_format)
qed

lemma un_uint_bound: "un_uint (JNum lit) old = Inr w \<Longrightarrow> \<exists>n. parse_uint LENGTH('w) lit = Inr n \<and> w = (word_of_nat n :: ('w::len) word)"
  by (auto split: sum.splits)

lemma j_uint_not_null [simp]: "j_uint w \<noteq> JNull"
  by (simp add: j_uint_def)

lemma find_field_exact: "map_of fs key = Some put \<Longrightarrow> find_field fs key = Some put"
  by (simp add: find_field_def)

definition format_int :: "int \<Rightarrow> string" where
  "format_int i = (if i < 0 then CHR ''-'' # format_uint (nat (- i)) else format_uint (nat i))"

definition j_int :: "int \<Rightarrow> json" where
  "j_int i = JNum (format_int i)"

text \<open>A number prints as a nonempty string that starts with a sign only when it is negative.\<close>

lemma format_uint_inject [simp]: "format_uint a = format_uint b \<longleftrightarrow> a = b"
proof
  assume eq: "format_uint a = format_uint b"
  have "parse_digits (max a b) 0 (format_uint a) = Inr a" "parse_digits (max a b) 0 (format_uint b) = Inr b"
    by (rule parse_digits_format, rule max.cobounded1) (rule parse_digits_format, rule max.cobounded2)
  then show "a = b" unfolding eq by simp
qed simp

lemma format_uint_no_sign: "CHR ''-'' \<notin> set (format_uint n)"
  using format_uint_digits [of "CHR ''-''" n] by (auto simp: digit_val_def)

lemma format_int_inject [simp]: "format_int a = format_int b \<longleftrightarrow> a = b"
proof -
  have "format_uint n \<noteq> CHR ''-'' # s" "CHR ''-'' # s \<noteq> format_uint n" for n s
    using format_uint_no_sign [of n] by (auto dest: sym)
  then show ?thesis by (auto simp: format_int_def)
qed

lemma j_int_inject [simp]: "j_int a = j_int b \<longleftrightarrow> a = b"
  by (simp add: j_int_def)

text \<open>Into an \<open>int\<close> or \<open>int64\<close> variable.\<close>

fun un_int :: "json \<Rightarrow> int \<Rightarrow> int res" where
  "un_int JNull old = Inr old"
| "un_int (JNum lit) old = (case parse_int lit of Inl e \<Rightarrow> Inl ErrJsonType | Inr n \<Rightarrow> Inr n)"
| "un_int _ old = Inl ErrJsonType"

lemma digit_not_sign: "digit_val c \<noteq> None \<Longrightarrow> c \<noteq> CHR ''-'' \<and> c \<noteq> CHR ''+''"
  by (auto simp: digit_val_def)

lemma parse_format_int:
  assumes "- (2 ^ 63) \<le> i" and "i < 2 ^ 63"
  shows "parse_int (format_int i) = Inr i"
proof (cases "i < 0")
  case True
  have "nat (- i) \<le> 2 ^ 63" using assms by (simp add: nat_le_iff)
  then have "nat (- i) < 2 ^ 64" by simp
  then show ?thesis using True \<open>nat (- i) \<le> 2 ^ 63\<close> by (simp add: parse_int_def format_int_def parse_uint_format not_less)
next
  case False
  obtain c cs where c: "format_uint (nat i) = c # cs" by (cases "format_uint (nat i)") simp_all
  then have "c \<noteq> CHR ''-'' \<and> c \<noteq> CHR ''+''" using format_uint_digits [of c "nat i"] digit_not_sign by simp
  moreover have "nat i < 2 ^ 63" using assms False by (simp add: nat_less_iff)
  then have "parse_uint 64 (c # cs) = Inr (nat i)" using parse_uint_format [of "nat i" 64] c by simp
  ultimately show ?thesis using False c \<open>nat i < 2 ^ 63\<close> by (simp add: parse_int_def format_int_def Let_def not_le)
qed

lemma un_int_j_int [simp, codec_simps]: "- (2 ^ 63) \<le> i \<Longrightarrow> i < 2 ^ 63 \<Longrightarrow> un_int (j_int i) old = Inr i"
  by (simp add: j_int_def parse_format_int)

end
