(* ===== verification/Sha256.thy ===== *)
theory Sha256
  imports Prelude
begin

unbundle bit_operations_syntax

text \<open>
  SHA-256 (FIPS 180-4), the function behind \<open>sha256.Sum256\<close> of the Go standard library, on byte
  strings shorter than \<open>2 ^ 61\<close> bytes. The program hashes 20-byte addresses with it.
\<close>

definition rotr32 :: "nat \<Rightarrow> u32 \<Rightarrow> u32" where
  "rotr32 n w = drop_bit n w OR push_bit (32 - n) w"

definition be_u32 :: "bytes \<Rightarrow> u32" where
  "be_u32 bs = fold (\<lambda>b acc. push_bit 8 acc OR ucast b) bs 0"

definition put_be_u32 :: "u32 \<Rightarrow> bytes" where
  "put_be_u32 w = [ucast (drop_bit 24 w), ucast (drop_bit 16 w), ucast (drop_bit 8 w), ucast w]"

definition sha_k :: "u32 list" where
  "sha_k = [
   1116352408, 1899447441, 3049323471, 3921009573, 961987163, 1508970993, 2453635748, 2870763221,
   3624381080, 310598401, 607225278, 1426881987, 1925078388, 2162078206, 2614888103, 3248222580,
   3835390401, 4022224774, 264347078, 604807628, 770255983, 1249150122, 1555081692, 1996064986,
   2554220882, 2821834349, 2952996808, 3210313671, 3336571891, 3584528711, 113926993, 338241895,
   666307205, 773529912, 1294757372, 1396182291, 1695183700, 1986661051, 2177026350, 2456956037,
   2730485921, 2820302411, 3259730800, 3345764771, 3516065817, 3600352804, 4094571909, 275423344,
   430227734, 506948616, 659060556, 883997877, 958139571, 1322822218, 1537002063, 1747873779,
   1955562222, 2024104815, 2227730452, 2361852424, 2428436474, 2756734187, 3204031479, 3329325298]"

definition sha_iv :: "u32 list" where
  "sha_iv = [1779033703, 3144134277, 1013904242, 2773480762,
             1359893119, 2600822924, 528734635, 1541459225]"

text \<open>The padded message: a one bit, zeros up to 56 modulo 64 bytes, the bit length in 64 bits.\<close>

definition sha_pad :: "bytes \<Rightarrow> bytes" where
  "sha_pad m = (let n = length m; z = (119 - n mod 64) mod 64; l = 8 * n in
     m @ 0x80 # replicate z 0 @
     put_be_u32 (word_of_nat (l div 2 ^ 32)) @ put_be_u32 (word_of_nat l))"

fun chunks :: "nat \<Rightarrow> 'a list \<Rightarrow> 'a list list" where
  "chunks n xs = (if n = 0 \<or> xs = [] then [] else take n xs # chunks n (drop n xs))"

declare chunks.simps [simp del]

text \<open>The message schedule, newest word first.\<close>

fun sha_extend :: "nat \<Rightarrow> u32 list \<Rightarrow> u32 list" where
  "sha_extend 0 ws = ws"
| "sha_extend (Suc k) ws =
     (let w2 = ws ! 1; w7 = ws ! 6; w15 = ws ! 14; w16 = ws ! 15;
          s0 = rotr32 7 w15 XOR rotr32 18 w15 XOR drop_bit 3 w15;
          s1 = rotr32 17 w2 XOR rotr32 19 w2 XOR drop_bit 10 w2
      in sha_extend k ((w16 + s0 + w7 + s1) # ws))"

definition sha_round :: "u32 \<times> u32 \<Rightarrow> u32 list \<Rightarrow> u32 list" where
  "sha_round kw v =
     (let a = v ! 0; b = v ! 1; c = v ! 2; d = v ! 3; e = v ! 4; f = v ! 5; g = v ! 6; h = v ! 7;
          s1 = rotr32 6 e XOR rotr32 11 e XOR rotr32 25 e;
          ch = (e AND f) XOR (NOT e AND g);
          t1 = h + s1 + ch + fst kw + snd kw;
          s0 = rotr32 2 a XOR rotr32 13 a XOR rotr32 22 a;
          maj = (a AND b) XOR (a AND c) XOR (b AND c)
      in [t1 + s0 + maj, a, b, c, d + t1, e, f, g])"

definition sha_block :: "bytes \<Rightarrow> u32 list \<Rightarrow> u32 list" where
  "sha_block blk h =
     (let ws = rev (sha_extend 48 (rev (map be_u32 (chunks 4 blk))))
      in map2 (+) h (fold sha_round (zip sha_k ws) h))"

definition sha256 :: "bytes \<Rightarrow> bytes" where
  "sha256 m = concat (map put_be_u32 (fold sha_block (chunks 64 (sha_pad m)) sha_iv))"

lemma length_fold_same:
  assumes "\<And>x s. length s = n \<Longrightarrow> length (f x s) = n" and "length s = n"
  shows "length (fold f xs s) = n"
  using assms(2) by (induction xs arbitrary: s) (auto simp: assms(1))

lemma length_sha_block: "length h = 8 \<Longrightarrow> length (sha_block blk h) = 8"
proof -
  assume h: "length h = 8"
  have "length (sha_round kw v) = 8" for kw v
    by (simp add: sha_round_def Let_def)
  then have "length (fold sha_round kws h) = 8" for kws
    using h by (intro length_fold_same) auto
  with h show ?thesis by (simp add: sha_block_def Let_def)
qed

lemma length_sha256 [simp, codec_simps]: "length (sha256 m) = 32"
proof -
  have "length (fold sha_block bs sha_iv) = 8" for bs
    by (rule length_fold_same) (auto simp: length_sha_block sha_iv_def)
  then have "sum_list (map (length \<circ> put_be_u32) (fold sha_block bs sha_iv)) = 32" for bs
    by (simp add: put_be_u32_def comp_def sum_list_triv)
  then show ?thesis by (simp add: sha256_def length_concat comp_def)
qed

end
