(* ===== verification/Hashes.thy ===== *)
theory Hashes
  imports Json Sha256
begin

text \<open>
  The byte strings, hashes and addresses of \<open>internal/chain/bytes.go\<close> and \<open>internal/chain/hash.go\<close>:
  how each one prints, what it accepts, and the tagged values a node sends (\<open>Variant\<close>).
  \<open>base58\<close> is a third-party package, so its two functions are arguments of the address operations.
\<close>

type_synonym hash = bytes
type_synonym bitcoin_hash = bytes
type_synonym address = bytes

definition wf_hash :: "bytes \<Rightarrow> bool" where
  "wf_hash h \<longleftrightarrow> length h = 32"

definition wf_address :: "bytes \<Rightarrow> bool" where
  "wf_address a \<longleftrightarrow> length a = 20"

lemma wf_hash_copy [simp]: "wf_hash (copy_into 32 bs)"
  by (simp add: wf_hash_def)

lemma copy_into_wf_hash [simp]: "wf_hash h \<Longrightarrow> copy_into 32 h = h"
  by (simp add: wf_hash_def)

subsection \<open>Byte strings\<close>

definition decodeHex :: "string \<Rightarrow> bytes res" where
  "decodeHex s = hex_decode (trim_prefix ''0x'' s)"

definition Bytes_String :: "bytes \<Rightarrow> string" where
  "Bytes_String b = hex_encode b"

definition Bytes_MarshalJSON :: "bytes \<Rightarrow> json" where
  "Bytes_MarshalJSON b = JStr (Bytes_String b)"

text \<open>\<open>json.Unmarshal\<close> of a value that is not a string into a \<open>[]byte\<close>.\<close>

fun un_byte_array :: "json \<Rightarrow> bytes res" where
  "un_byte_array JNull = Inr []"
| "un_byte_array (JArr js) = mapE (\<lambda>j. un_uint j 0) js"
| "un_byte_array _ = Inl ErrJsonType"

fun Bytes_UnmarshalJSON :: "raw_message \<Rightarrow> bytes res" where
  "Bytes_UnmarshalJSON None = Inl ErrEmpty"
| "Bytes_UnmarshalJSON (Some (JStr s)) = decodeHex s"
| "Bytes_UnmarshalJSON (Some j) = un_byte_array j"

record byte_string =
  bsBytes :: bytes
  bsText :: string

definition ByteString_String :: "byte_string \<Rightarrow> string" where
  "ByteString_String b = (if bsText b \<noteq> [] then bsText b else Bytes_String (bsBytes b))"

definition ByteString_MarshalJSON :: "byte_string \<Rightarrow> json" where
  "ByteString_MarshalJSON b =
     (if bsText b \<noteq> [] then JStr (bsText b) else Bytes_MarshalJSON (bsBytes b))"

fun ByteString_UnmarshalJSON :: "raw_message \<Rightarrow> byte_string res" where
  "ByteString_UnmarshalJSON None = Inl ErrJsonEnd"
| "ByteString_UnmarshalJSON (Some (JStr s)) =
     (case decodeHex s of
        Inl e \<Rightarrow> Inr \<lparr>bsBytes = [], bsText = s\<rparr>
      | Inr raw \<Rightarrow> Inr \<lparr>bsBytes = raw, bsText = s\<rparr>)"
| "ByteString_UnmarshalJSON (Some j) =
     bindE (Bytes_UnmarshalJSON (Some j)) (\<lambda>raw. Inr \<lparr>bsBytes = raw, bsText = []\<rparr>)"

text \<open>
  The tag and payload of an externally tagged serde enum. A bare string is a tag with no payload, and
  so is \<open>null\<close>, which \<open>json.Unmarshal\<close> accepts into a string as the empty one.
\<close>

definition Variant :: "raw_message \<Rightarrow> (string \<times> raw_message) res" where
  "Variant raw =
     (case un_raw (\<lambda>j. un_string j []) raw of
        Inr tag \<Rightarrow> Inr (tag, None)
      | Inl _ \<Rightarrow>
          bindE (un_raw un_map raw) (\<lambda>obj.
            if length obj \<noteq> 1 then Inl (ErrVariantCount (length obj))
            else Inr (fst (hd obj), Some (snd (hd obj)))))"

lemma Variant_tagged [simp]: "Variant (Some (JObj [(tag, payload)])) = Inr (tag, Some payload)"
  by (simp add: Variant_def un_raw_def)

lemma Variant_bare [simp]: "Variant (Some (JStr tag)) = Inr (tag, None)"
  by (simp add: Variant_def un_raw_def)

lemma Variant_None [simp]: "Variant None = Inl ErrJsonEnd"
  by (simp add: Variant_def un_raw_def)

subsection \<open>Sidechain hashes\<close>

definition Hash_String :: "hash \<Rightarrow> string" where
  "Hash_String h = hex_encode h"

definition ParseHash :: "string \<Rightarrow> hash res" where
  "ParseHash s =
     bindE (hex_decode s) (\<lambda>raw.
       if length raw \<noteq> 32 then Inl (ErrLength (length raw)) else Inr (copy_into 32 raw))"

definition Hash_MarshalJSON :: "hash \<Rightarrow> json" where
  "Hash_MarshalJSON h = JStr (Hash_String h)"

definition Hash_UnmarshalJSON :: "json \<Rightarrow> hash res" where
  "Hash_UnmarshalJSON j = bindE (un_string j []) ParseHash"

lemma ParseHash_wf: "ParseHash s = Inr h \<Longrightarrow> wf_hash h"
  by (auto simp: ParseHash_def wf_hash_def bindE_eq_Inr split: if_splits)

lemma ParseHash_String [simp, codec_simps]: "wf_hash h \<Longrightarrow> ParseHash (Hash_String h) = Inr h"
  by (simp add: ParseHash_def Hash_String_def wf_hash_def)

lemma ParseHash_length: "ParseHash s = Inr h \<Longrightarrow> length s = 64"
  by (auto simp: ParseHash_def bindE_eq_Inr dest!: hex_decode_length split: if_splits)

lemma Hash_Unmarshal_Marshal [simp, codec_simps]:
  "wf_hash h \<Longrightarrow> Hash_UnmarshalJSON (Hash_MarshalJSON h) = Inr h"
  by (simp add: Hash_UnmarshalJSON_def Hash_MarshalJSON_def)

interpretation hashc: codec Hash_MarshalJSON Hash_UnmarshalJSON wf_hash
  by unfold_locales simp

subsection \<open>Mainchain hashes\<close>

text \<open>The loop \<open>flipped[31-i] = b\<close> reverses the bytes, on the way out and on the way in.\<close>

definition BitcoinHash_String :: "bitcoin_hash \<Rightarrow> string" where
  "BitcoinHash_String h = hex_encode (rev h)"

definition BitcoinHash_MarshalJSON :: "bitcoin_hash \<Rightarrow> json" where
  "BitcoinHash_MarshalJSON h = JStr (BitcoinHash_String h)"

definition BitcoinHash_UnmarshalJSON :: "json \<Rightarrow> bitcoin_hash res" where
  "BitcoinHash_UnmarshalJSON j =
     bindE (un_string j []) (\<lambda>s.
       bindE (hex_decode s) (\<lambda>raw.
         if length raw \<noteq> 32 then Inl (ErrLength (length raw)) else Inr (rev raw)))"

lemma BitcoinHash_Unmarshal_wf: "BitcoinHash_UnmarshalJSON j = Inr h \<Longrightarrow> wf_hash h"
  by (auto simp: BitcoinHash_UnmarshalJSON_def wf_hash_def bindE_eq_Inr split: if_splits)

lemma BitcoinHash_Unmarshal_Marshal [simp, codec_simps]:
  "wf_hash h \<Longrightarrow> BitcoinHash_UnmarshalJSON (BitcoinHash_MarshalJSON h) = Inr h"
  by (simp add: BitcoinHash_UnmarshalJSON_def BitcoinHash_MarshalJSON_def BitcoinHash_String_def
      wf_hash_def)

interpretation btc: codec BitcoinHash_MarshalJSON BitcoinHash_UnmarshalJSON wf_hash
  by unfold_locales simp

subsection \<open>Addresses\<close>

definition Address_String :: "(bytes \<Rightarrow> string) \<Rightarrow> address \<Rightarrow> string" where
  "Address_String b58enc a = b58enc a"

definition ParseAddress :: "(string \<Rightarrow> bytes option) \<Rightarrow> string \<Rightarrow> address res" where
  "ParseAddress b58dec s =
     (case b58dec s of None \<Rightarrow> Inl ErrBase58
      | Some raw \<Rightarrow> if length raw \<noteq> 20 then Inl (ErrLength (length raw)) else Inr (copy_into 20 raw))"

definition Address_MarshalJSON :: "(bytes \<Rightarrow> string) \<Rightarrow> address \<Rightarrow> json" where
  "Address_MarshalJSON b58enc a = JStr (Address_String b58enc a)"

definition Address_UnmarshalJSON :: "(string \<Rightarrow> bytes option) \<Rightarrow> json \<Rightarrow> address res" where
  "Address_UnmarshalJSON b58dec j = bindE (un_string j []) (ParseAddress b58dec)"

definition ScriptHash :: "address \<Rightarrow> bytes" where
  "ScriptHash a = sha256 a"

lemma ParseAddress_wf: "ParseAddress b58dec s = Inr a \<Longrightarrow> wf_address a"
  by (auto simp: ParseAddress_def wf_address_def split: option.splits if_splits)

lemma wf_hash_ScriptHash [simp]: "wf_hash (ScriptHash a)"
  by (simp add: ScriptHash_def wf_hash_def)

end
