(* ===== verification/OutPoint.thy ===== *)
theory OutPoint
  imports Hashes
begin

text \<open>
  Outpoints and inpoints of \<open>internal/chain/outpoint.go\<close>: the 37-byte key the node and the index both
  use, the packing of a truthcoin market funds outpoint, and the JSON forms a node sends. A Go
  \<open>OutPointKind\<close> is a \<open>uint8\<close>, so a kind is a byte and every operation has the branch for a value
  outside the named constants.
\<close>

type_synonym out_point_kind = byte
type_synonym in_point_kind = byte

abbreviation KindRegular :: out_point_kind where "KindRegular \<equiv> 0"
abbreviation KindCoinbase :: out_point_kind where "KindCoinbase \<equiv> 1"
abbreviation KindDeposit :: out_point_kind where "KindDeposit \<equiv> 2"
abbreviation KindMarketFunds :: out_point_kind where "KindMarketFunds \<equiv> 3"
abbreviation KindPayout :: out_point_kind where "KindPayout \<equiv> 4"

definition OutPointKind_String :: "out_point_kind \<Rightarrow> string" where
  "OutPointKind_String k =
     (if k = KindRegular then ''regular''
      else if k = KindCoinbase then ''coinbase''
      else if k = KindDeposit then ''deposit''
      else if k = KindMarketFunds then ''market_funds''
      else if k = KindPayout then ''payout''
      else ''unknown('' @ format_uint (unat k) @ '')'')"

record out_point =
  opKind :: out_point_kind
  opSource :: hash
  opVout :: u32

definition wf_out_point :: "out_point \<Rightarrow> bool" where
  "wf_out_point p \<longleftrightarrow> wf_hash (opSource p)"

definition known_kind :: "out_point \<Rightarrow> bool" where
  "known_kind p \<longleftrightarrow> opKind p \<le> KindPayout"

subsection \<open>Keys\<close>

abbreviation OutPointKeySize :: nat where "OutPointKeySize \<equiv> 37"

definition Key :: "out_point \<Rightarrow> bytes" where
  "Key p = [opKind p] @ copy_into 32 (opSource p) @ put_u32 (opVout p)"

definition OutPointFromKey :: "bytes \<Rightarrow> out_point res" where
  "OutPointFromKey key =
     (if KindPayout < key ! 0 then Inl (ErrUnknownKind (key ! 0))
      else Inr \<lparr>opKind = key ! 0, opSource = copy_into 32 (take 32 (drop 1 key)),
                opVout = get_u32 (drop 33 key)\<rparr>)"

lemma length_Key [simp, codec_simps]: "length (Key p) = OutPointKeySize"
  by (simp add: Key_def)

lemma OutPointFromKey_Key:
  assumes "wf_out_point p" and "known_kind p"
  shows "OutPointFromKey (Key p) = Inr p"
  using assms unfolding OutPointFromKey_def Key_def wf_out_point_def known_kind_def wf_hash_def
  by (simp add: not_less)

lemma Key_eq_iff:
  assumes "wf_out_point a" and "wf_out_point b"
  shows "Key a = Key b \<longleftrightarrow> a = b"
proof
  assume "Key a = Key b"
  then have "opKind a = opKind b"
    and "opSource a @ put_u32 (opVout a) = opSource b @ put_u32 (opVout b)"
    using assms by (auto simp: Key_def wf_out_point_def)
  then have "opKind a = opKind b \<and> opSource a = opSource b \<and> opVout a = opVout b"
    using assms by (auto simp: wf_out_point_def wf_hash_def le32.enc_inject)
  then show "a = b" by simp
qed simp

text \<open>Reading a key of the right width and printing it gives the same bytes: the key is canonical.\<close>

lemma bit_byte_high: "8 \<le> n \<Longrightarrow> \<not> bit (w :: byte) n"
  using bit_imp_le_length [of w n] by auto

lemma put_get_u32_list: "put_u32 (get_u32 [a, b, c, d]) = [a, b, c, d]"
  unfolding put_u32_def get_u32_def
  by (auto intro!: bit_word_eqI simp: bit_simps bit_byte_high)

lemma put_get_u32 [codec_simps]:
  assumes "length bs = 4"
  shows "put_u32 (get_u32 bs) = bs"
proof -
  from assms obtain a b c d where "bs = [a, b, c, d]"
    by (auto simp: length_Suc_conv eval_nat_numeral)
  then show ?thesis by (simp add: put_get_u32_list)
qed

lemma Key_OutPointFromKey:
  assumes "length key = OutPointKeySize" and "OutPointFromKey key = Inr p"
  shows "Key p = key"
proof -
  from assms(1) obtain k rest where key: "key = k # rest" and len: "length rest = 36"
    by (cases key) auto
  have "rest = take 32 rest @ drop 32 rest" by simp
  moreover have "put_u32 (get_u32 (drop 32 rest)) = drop 32 rest"
    using len by (intro put_get_u32) simp
  ultimately show ?thesis
    using assms(2) key len by (auto simp: OutPointFromKey_def Key_def split: if_splits)
qed

interpretation keyc: fixed_codec Key OutPointFromKey
  "\<lambda>p. wf_out_point p \<and> known_kind p" OutPointKeySize
  by unfold_locales (simp_all add: OutPointFromKey_Key)

subsection \<open>Market funds\<close>

definition MarketFundsOutPoint :: "bytes \<Rightarrow> u32 \<Rightarrow> bool \<Rightarrow> out_point" where
  "MarketFundsOutPoint marketID blockHeight isFee =
     \<lparr>opKind = KindMarketFunds,
      opSource = copy_into 6 marketID @ put_u32 blockHeight @ [if isFee then 1 else 0] @ replicate 21 0,
      opVout = 0\<rparr>"

definition MarketFunds :: "out_point \<Rightarrow> bytes \<times> u32 \<times> bool" where
  "MarketFunds p =
     (take 6 (opSource p), get_u32 (take 4 (drop 6 (opSource p))), opSource p ! 10 = 1)"

lemma wf_MarketFundsOutPoint [simp]: "wf_out_point (MarketFundsOutPoint m h f)"
  by (simp add: MarketFundsOutPoint_def wf_out_point_def wf_hash_def)

lemma MarketFunds_OutPoint:
  "length m = 6 \<Longrightarrow> MarketFunds (MarketFundsOutPoint m h f) = (m, h, f)"
  by (simp add: MarketFunds_def MarketFundsOutPoint_def nth_append)

subsection \<open>Text form\<close>

definition sourceString :: "out_point \<Rightarrow> string" where
  "sourceString p =
     (if opKind p = KindDeposit then BitcoinHash_String (opSource p)
      else Hash_String (opSource p))"

definition OutPoint_String :: "out_point \<Rightarrow> string" where
  "OutPoint_String p =
     (if opKind p = KindMarketFunds then
        (case MarketFunds p of (marketID, height, isFee) \<Rightarrow>
           OutPointKind_String (opKind p) @ '' '' @ hex_encode marketID @ '' '' @
           format_uint (unat height) @ '' fee='' @ (if isFee then ''true'' else ''false''))
      else OutPointKind_String (opKind p) @ '' '' @ sourceString p @ '' '' @
           format_uint (unat (opVout p)))"

subsection \<open>JSON form of an outpoint\<close>

record regular_wire =
  rwTxid :: hash
  rwVout :: u32

record coinbase_wire =
  cwTxid :: "hash option"
  cwMerkleRoot :: "hash option"
  cwVout :: u32

record market_wire =
  mwMarketID :: bytes
  mwBlockHeight :: u32
  mwIsFee :: bool

record out_point_wire =
  owRegular :: "regular_wire option"
  owCoinbase :: "coinbase_wire option"
  owDeposit :: "string option"
  owMarketFunds :: "market_wire option"
  owPayout :: "regular_wire option"

abbreviation zero_hash :: hash where "zero_hash \<equiv> replicate 32 0"

definition zero_regular :: regular_wire where
  "zero_regular = \<lparr>rwTxid = zero_hash, rwVout = 0\<rparr>"

text \<open>The payout wire struct has the same shape; only the name of the hash member differs.\<close>

definition regular_fields :: "string \<Rightarrow> regular_wire fields" where
  "regular_fields hash_name =
    [(hash_name, \<lambda>j s. bindE (Hash_UnmarshalJSON j) (\<lambda>h. Inr (s\<lparr>rwTxid := h\<rparr>))),
     (''vout'', \<lambda>j s. bindE (un_uint j (rwVout s)) (\<lambda>v. Inr (s\<lparr>rwVout := v\<rparr>)))]"

definition un_hash_ptr :: "json \<Rightarrow> hash option \<Rightarrow> hash option res" where
  "un_hash_ptr = un_ptr (\<lambda>j _. Hash_UnmarshalJSON j) zero_hash"

definition coinbase_fields :: "coinbase_wire fields" where
  "coinbase_fields =
    [(''txid'', \<lambda>j s. bindE (un_hash_ptr j (cwTxid s)) (\<lambda>h. Inr (s\<lparr>cwTxid := h\<rparr>))),
     (''merkle_root'', \<lambda>j s. bindE (un_hash_ptr j (cwMerkleRoot s)) (\<lambda>h. Inr (s\<lparr>cwMerkleRoot := h\<rparr>))),
     (''vout'', \<lambda>j s. bindE (un_uint j (cwVout s)) (\<lambda>v. Inr (s\<lparr>cwVout := v\<rparr>)))]"

text \<open>Into a \<open>[6]byte\<close>: missing elements are zeroed and extra ones skipped.\<close>

fun un_array6 :: "json \<Rightarrow> bytes \<Rightarrow> bytes res" where
  "un_array6 JNull old = Inr old"
| "un_array6 (JArr js) old =
     bindE (mapE (\<lambda>(i, j). un_uint j (old ! i)) (indexed (take 6 js))) (\<lambda>bs. Inr (copy_into 6 bs))"
| "un_array6 _ old = Inl ErrJsonType"

definition market_fields :: "market_wire fields" where
  "market_fields =
    [(''market_id'', \<lambda>j s. bindE (un_array6 j (mwMarketID s)) (\<lambda>b. Inr (s\<lparr>mwMarketID := b\<rparr>))),
     (''block_height'', \<lambda>j s. bindE (un_uint j (mwBlockHeight s)) (\<lambda>h. Inr (s\<lparr>mwBlockHeight := h\<rparr>))),
     (''is_fee'', \<lambda>j s. bindE (un_bool j (mwIsFee s)) (\<lambda>b. Inr (s\<lparr>mwIsFee := b\<rparr>)))]"

definition out_point_fields :: "out_point_wire fields" where
  "out_point_fields =
    [(''Regular'', \<lambda>j s. bindE (un_ptr (un_struct (regular_fields ''txid'')) zero_regular j (owRegular s))
        (\<lambda>x. Inr (s\<lparr>owRegular := x\<rparr>))),
     (''Coinbase'', \<lambda>j s. bindE (un_ptr (un_struct coinbase_fields)
        \<lparr>cwTxid = None, cwMerkleRoot = None, cwVout = 0\<rparr> j (owCoinbase s)) (\<lambda>x. Inr (s\<lparr>owCoinbase := x\<rparr>))),
     (''Deposit'', \<lambda>j s. bindE (un_ptr un_string [] j (owDeposit s)) (\<lambda>x. Inr (s\<lparr>owDeposit := x\<rparr>))),
     (''MarketFunds'', \<lambda>j s. bindE (un_ptr (un_struct market_fields)
        \<lparr>mwMarketID = replicate 6 0, mwBlockHeight = 0, mwIsFee = False\<rparr> j (owMarketFunds s))
        (\<lambda>x. Inr (s\<lparr>owMarketFunds := x\<rparr>))),
     (''Payout'', \<lambda>j s. bindE (un_ptr (un_struct (regular_fields ''hash'')) zero_regular j (owPayout s))
        (\<lambda>x. Inr (s\<lparr>owPayout := x\<rparr>)))]"

definition empty_wire :: out_point_wire where
  "empty_wire = \<lparr>owRegular = None, owCoinbase = None, owDeposit = None, owMarketFunds = None,
     owPayout = None\<rparr>"

definition coinbase_source :: "coinbase_wire \<Rightarrow> hash res" where
  "coinbase_source w =
     (case cwTxid w of Some h \<Rightarrow> Inr h
      | None \<Rightarrow> (case cwMerkleRoot w of Some h \<Rightarrow> Inr h | None \<Rightarrow> Inl ErrNoCoinbaseSource))"

text \<open>\<open>parseBitcoinOutPoint\<close> reads the \<open>txid:vout\<close> form; the hash is unquoted as a JSON string.\<close>

definition parseBitcoinOutPoint :: "string \<Rightarrow> out_point res" where
  "parseBitcoinOutPoint text =
     (case str_cut (CHR '':'') text of (txidHex, voutText, found) \<Rightarrow>
        if \<not> found then Inl ErrNoVout
        else bindE (parse_uint 32 voutText) (\<lambda>vout.
          bindE (bindE (quoted_json txidHex) BitcoinHash_UnmarshalJSON) (\<lambda>txid.
            Inr \<lparr>opKind = KindDeposit, opSource = txid, opVout = word_of_nat vout\<rparr>)))"

definition OutPoint_UnmarshalJSON :: "json \<Rightarrow> out_point res" where
  "OutPoint_UnmarshalJSON j =
     bindE (un_struct out_point_fields j empty_wire) (\<lambda>w.
       case owRegular w of
         Some r \<Rightarrow> Inr \<lparr>opKind = KindRegular, opSource = rwTxid r, opVout = rwVout r\<rparr>
       | None \<Rightarrow>
      (case owCoinbase w of
         Some c \<Rightarrow> bindE (coinbase_source c) (\<lambda>source.
            Inr \<lparr>opKind = KindCoinbase, opSource = source, opVout = cwVout c\<rparr>)
       | None \<Rightarrow>
      (case owDeposit w of
         Some text \<Rightarrow> parseBitcoinOutPoint text
       | None \<Rightarrow>
      (case owMarketFunds w of
         Some m \<Rightarrow> Inr (MarketFundsOutPoint (mwMarketID m) (mwBlockHeight m) (mwIsFee m))
       | None \<Rightarrow>
      (case owPayout w of
         Some r \<Rightarrow> Inr \<lparr>opKind = KindPayout, opSource = rwTxid r, opVout = rwVout r\<rparr>
       | None \<Rightarrow> Inl ErrNoVariant)))))"

definition OutPoint_MarshalJSON :: "out_point \<Rightarrow> json res" where
  "OutPoint_MarshalJSON p =
     (if opKind p = KindRegular then
        Inr (JObj [(''Regular'', JObj [(''txid'', Hash_MarshalJSON (opSource p)), (''vout'', j_uint (opVout p))])])
      else if opKind p = KindCoinbase then
        Inr (JObj [(''Coinbase'', JObj [(''txid'', Hash_MarshalJSON (opSource p)), (''vout'', j_uint (opVout p))])])
      else if opKind p = KindDeposit then
        Inr (JObj [(''Deposit'', JStr (BitcoinHash_String (opSource p) @ '':'' @ format_uint (unat (opVout p))))])
      else if opKind p = KindMarketFunds then
        (case MarketFunds p of (marketID, height, isFee) \<Rightarrow>
          Inr (JObj [(''MarketFunds'', JObj [(''market_id'', JArr (map j_uint marketID)),
            (''block_height'', j_uint height), (''is_fee'', JBool isFee)])]))
      else if opKind p = KindPayout then
        Inr (JObj [(''Payout'', JObj [(''hash'', Hash_MarshalJSON (opSource p)), (''vout'', j_uint (opVout p))])])
      else Inl (ErrUnknownKind (opKind p)))"

subsection \<open>JSON form of an inpoint\<close>

abbreviation SpendRegular :: in_point_kind where "SpendRegular \<equiv> 0"
abbreviation SpendWithdrawal :: in_point_kind where "SpendWithdrawal \<equiv> 1"
abbreviation SpendMarket :: in_point_kind where "SpendMarket \<equiv> 2"

definition InPointKind_String :: "in_point_kind \<Rightarrow> string" where
  "InPointKind_String k =
     (if k = SpendRegular then ''regular''
      else if k = SpendWithdrawal then ''withdrawal''
      else if k = SpendMarket then ''market''
      else ''unknown('' @ format_uint (unat k) @ '')'')"

record in_point =
  ipKind :: in_point_kind
  ipSource :: hash
  ipVin :: u32

record in_point_wire =
  iwRegular :: "regular_wire option"
  iwWithdrawal :: "bitcoin_hash option"

definition in_regular_fields :: "regular_wire fields" where
  "in_regular_fields =
    [(''txid'', \<lambda>j s. bindE (Hash_UnmarshalJSON j) (\<lambda>h. Inr (s\<lparr>rwTxid := h\<rparr>))),
     (''vin'', \<lambda>j s. bindE (un_uint j (rwVout s)) (\<lambda>v. Inr (s\<lparr>rwVout := v\<rparr>)))]"

definition withdrawal_in_fields :: "bitcoin_hash fields" where
  "withdrawal_in_fields = [(''m6id'', \<lambda>j s. BitcoinHash_UnmarshalJSON j)]"

definition in_point_fields :: "in_point_wire fields" where
  "in_point_fields =
    [(''Regular'', \<lambda>j s. bindE (un_ptr (un_struct in_regular_fields) zero_regular j (iwRegular s))
        (\<lambda>x. Inr (s\<lparr>iwRegular := x\<rparr>))),
     (''Withdrawal'', \<lambda>j s. bindE (un_ptr (un_struct withdrawal_in_fields) zero_hash j (iwWithdrawal s))
        (\<lambda>x. Inr (s\<lparr>iwWithdrawal := x\<rparr>)))]"

definition InPoint_UnmarshalJSON :: "json \<Rightarrow> in_point res" where
  "InPoint_UnmarshalJSON j =
     bindE (un_struct in_point_fields j \<lparr>iwRegular = None, iwWithdrawal = None\<rparr>) (\<lambda>w.
       case iwRegular w of
         Some r \<Rightarrow> Inr \<lparr>ipKind = SpendRegular, ipSource = rwTxid r, ipVin = rwVout r\<rparr>
       | None \<Rightarrow>
      (case iwWithdrawal w of
         Some m6id \<Rightarrow> Inr \<lparr>ipKind = SpendWithdrawal, ipSource = m6id, ipVin = 0\<rparr>
       | None \<Rightarrow> Inl ErrNoVariant))"

subsection \<open>Round trip of the JSON form\<close>

text \<open>
  The outpoints the JSON form can carry: a known kind, a 32-byte source and, for market funds, a
  source that \<open>MarketFundsOutPoint\<close> packed.
\<close>

definition wire_out_point :: "out_point \<Rightarrow> bool" where
  "wire_out_point p \<longleftrightarrow> wf_out_point p \<and> known_kind p \<and>
     (opKind p = KindMarketFunds \<longrightarrow> (case MarketFunds p of (m, h, f) \<Rightarrow> p = MarketFundsOutPoint m h f))"

lemmas wire_defs = un_ptr_def store_member_def find_field_def out_point_fields_def regular_fields_def
  coinbase_fields_def market_fields_def un_hash_ptr_def empty_wire_def zero_regular_def

lemma Hash_MarshalJSON_not_null [simp]: "Hash_MarshalJSON h \<noteq> JNull"
  by (simp add: Hash_MarshalJSON_def)

lemma un_array6_marshal:
  assumes "length m = 6"
  shows "un_array6 (JArr (map j_uint m)) old = Inr m"
proof -
  have "mapE (\<lambda>(i, j). un_uint j (old ! i)) (indexed (map j_uint m)) = Inr m"
    by (auto simp: mapE_eq_Inr list_all2_conv_all_nth)
  with assms show ?thesis by simp
qed

lemma colon_not_hex: "CHR '':'' \<notin> set (hex_encode bs)"
proof
  assume "CHR '':'' \<in> set (hex_encode bs)"
  then obtain n where "n < 16" and "CHR '':'' = hex_digit n" by (auto dest: hex_encode_chars)
  then have "hex_val (CHR '':'') = Some n" by (simp add: hex_val_digit)
  then show False by (simp add: hex_val_def)
qed

lemma parseBitcoinOutPoint_text:
  assumes "wf_hash h"
  shows "parseBitcoinOutPoint (BitcoinHash_String h @ '':'' @ format_uint (unat (v :: u32))) =
    Inr \<lparr>opKind = KindDeposit, opSource = h, opVout = v\<rparr>"
proof -
  have "unat v < 2 ^ 32" using unsigned_less [of v] by simp
  moreover have "BitcoinHash_UnmarshalJSON (JStr (BitcoinHash_String h)) = Inr h"
    using BitcoinHash_Unmarshal_Marshal [OF assms] by (simp add: BitcoinHash_MarshalJSON_def)
  ultimately show ?thesis
    by (simp add: parseBitcoinOutPoint_def str_cut_append colon_not_hex BitcoinHash_String_def
        parse_uint_format)
qed

lemma known_kind_cases:
  assumes "known_kind p"
  obtains "opKind p = KindRegular" | "opKind p = KindCoinbase" | "opKind p = KindDeposit"
    | "opKind p = KindMarketFunds" | "opKind p = KindPayout"
proof -
  have "unat (opKind p) \<le> 4" using assms by (simp add: known_kind_def word_le_nat_alt)
  then have "unat (opKind p) = 0 \<or> unat (opKind p) = 1 \<or> unat (opKind p) = 2 \<or>
      unat (opKind p) = 3 \<or> unat (opKind p) = 4" by arith
  then have "opKind p = 0 \<or> opKind p = 1 \<or> opKind p = 2 \<or> opKind p = 3 \<or> opKind p = 4"
    by (simp add: word_unat_eq_iff)
  then show ?thesis using that by blast
qed

lemma OutPoint_reads_back:
  assumes "wire_out_point p"
  shows "bindE (OutPoint_MarshalJSON p) OutPoint_UnmarshalJSON = Inr p"
proof -
  from assms have wf: "wf_hash (opSource p)" and known: "known_kind p"
    by (auto simp: wire_out_point_def wf_out_point_def)
  from known show ?thesis
  proof (cases rule: known_kind_cases)
    case 3
    then show ?thesis
      using parseBitcoinOutPoint_text [OF wf, of "opVout p"]
      by (simp add: OutPoint_MarshalJSON_def OutPoint_UnmarshalJSON_def wire_defs)
  next
    case 4
    obtain m h f where mf: "MarketFunds p = (m, h, f)" by (cases "MarketFunds p")
    with 4 assms have p: "p = MarketFundsOutPoint m h f" by (simp add: wire_out_point_def)
    have "length m = 6" using mf wf by (auto simp: MarketFunds_def wf_hash_def)
    with 4 mf p show ?thesis
      by (simp add: OutPoint_MarshalJSON_def OutPoint_UnmarshalJSON_def wire_defs un_array6_marshal
          del: un_array6.simps)
  qed (use wf in \<open>simp_all add: OutPoint_MarshalJSON_def OutPoint_UnmarshalJSON_def wire_defs
        coinbase_source_def\<close>)
qed

text \<open>
  The JSON form of an outpoint round trips: what \<open>MarshalJSON\<close> writes for an outpoint of a known
  kind, \<open>UnmarshalJSON\<close> reads back as the same outpoint, a deposit through its reversed \<open>txid:vout\<close>
  text and market funds through their packed source.
\<close>

theorem OutPoint_json_roundtrip:
  assumes "wire_out_point p"
  shows "bindE (OutPoint_MarshalJSON p) OutPoint_UnmarshalJSON = Inr p"
  using assms by (rule OutPoint_reads_back)

theorem OutPoint_json_roundtrip_witness:
  "bindE (OutPoint_MarshalJSON (MarketFundsOutPoint [1, 2, 3, 4, 5, 6] 9 True)) OutPoint_UnmarshalJSON
     = Inr (MarketFundsOutPoint [1, 2, 3, 4, 5, 6] 9 True)"
proof -
  have "wire_out_point (MarketFundsOutPoint [1, 2, 3, 4, 5, 6] 9 True)"
    by (simp add: wire_out_point_def MarketFunds_OutPoint known_kind_def)
       (simp add: MarketFundsOutPoint_def)
  then show ?thesis by (rule OutPoint_json_roundtrip)
qed

text \<open>
  C19. The 37-byte key is a faithful name of an outpoint: reading the key of an outpoint of a known kind
  gives the outpoint back, reading any 37 bytes either fails on the kind byte or gives an outpoint
  whose key is those bytes, and two outpoints with 32-byte sources have the same key only if they are
  the same outpoint, whatever their kinds.
\<close>

theorem Key_canonical:
  assumes "wf_out_point p" and "wf_out_point q" and "length key = OutPointKeySize"
  shows "length (Key p) = OutPointKeySize
    \<and> OutPointFromKey (Key p) = (if known_kind p then Inr p else Inl (ErrUnknownKind (opKind p)))
    \<and> (Key p = Key q \<longleftrightarrow> p = q)
    \<and> (OutPointFromKey key = Inr r \<longrightarrow> Key r = key)"
  using assms Key_eq_iff keyc.dec_enc Key_OutPointFromKey
  by (auto simp: OutPointFromKey_def Key_def known_kind_def not_le)

theorem Key_canonical_witness:
  "let p = \<lparr>opKind = KindDeposit, opSource = replicate 32 7, opVout = 258\<rparr>;
       q = \<lparr>opKind = 9, opSource = replicate 32 7, opVout = 258\<rparr> in
   OutPointFromKey (Key p) = Inr p \<and> OutPointFromKey (Key q) = Inl (ErrUnknownKind 9) \<and> Key p \<noteq> Key q"
  using Key_canonical [of "\<lparr>opKind = KindDeposit, opSource = replicate 32 7, opVout = 258\<rparr>"
        "\<lparr>opKind = 9, opSource = replicate 32 7, opVout = 258\<rparr>" "replicate 37 0"]
    Key_canonical [of "\<lparr>opKind = 9, opSource = replicate 32 7, opVout = 258\<rparr>"
        "\<lparr>opKind = 9, opSource = replicate 32 7, opVout = 258\<rparr>" "replicate 37 0"]
  by (simp add: wf_out_point_def wf_hash_def known_kind_def)

end
