(* ===== verification/Block.thy ===== *)
theory Block
  imports OutPoint
begin

text \<open>
  Blocks, transactions and what a node says of them beside the body: \<open>internal/chain/block.go\<close>. Each
  struct is a record, and the decoding of each one from a node's JSON is a table of its fields. Two
  third-party packages appear: \<open>base58\<close>, whose decoder is the argument \<open>b58\<close> of the decoding
  functions, and \<open>blake3\<close>, which is an argument of the coinbase txid. A repeated member that
  holds a slice is decoded afresh.
\<close>

record header =
  hMerkleRoot :: hash
  hPrevSideHash :: "hash option"
  hPrevMainHash :: bitcoin_hash

record tx_output =
  outAddress :: address
  outContent :: raw_message

record tx_input =
  inOutPoint :: out_point
  inLeafHash :: bytes

record authorization =
  auVerifyingKey :: byte_string
  auSignature :: byte_string

record transaction =
  trInputs :: "tx_input list"
  trOutputs :: "tx_output list"

record coinbase =
  cbMemo :: bytes
  cbOutputs :: "tx_output list"
  cbKeyedByTxid :: bool

record body =
  bdCoinbase :: coinbase
  bdTransactions :: "transaction list"
  bdAuthorizations :: "authorization list"

record block =
  bkHeader :: header
  bkBody :: body

record content =
  coValueSats :: int
  coType :: string

type_synonym decoder = "raw_message \<Rightarrow> content res"

record tx_info =
  tiTxid :: hash
  tiSize :: u64
  tiRaw :: bytes
  tiSkipped :: bool

record mempool_tx = tx_info +
  mtTx :: transaction

record deposit =
  dpOutPoint :: out_point
  dpOutput :: tx_output

record bundle_spend =
  bnOutPoint :: out_point
  bnM6id :: bitcoin_hash

record market_utxo =
  muOutPoint :: out_point
  muOutput :: tx_output
  muReason :: string

record block_index =
  biTxs :: "tx_info list"
  biDeposits :: "deposit list"
  biBundleSpends :: "bundle_spend list"
  biMarketCreates :: "market_utxo list"
  biMarketDeletes :: "market_utxo list"

subsection \<open>The coinbase of a block\<close>

definition CoinbaseTxid :: "(bytes \<Rightarrow> hash) \<Rightarrow> header \<Rightarrow> hash" where
  "CoinbaseTxid blake3 h =
     blake3 (hMerkleRoot h @ hPrevMainHash h @
       (case hPrevSideHash h of None \<Rightarrow> [0] | Some prev \<Rightarrow> 1 # prev))"

definition CoinbaseSource :: "(bytes \<Rightarrow> hash) \<Rightarrow> block \<Rightarrow> hash" where
  "CoinbaseSource blake3 b =
     (if cbKeyedByTxid (bdCoinbase (bkBody b)) then CoinbaseTxid blake3 (bkHeader b)
      else hMerkleRoot (bkHeader b))"

subsection \<open>Signatures of a transaction\<close>

text \<open>
  The body holds one signature per input in transaction order. The index is a Go \<open>int\<close>, and the slice
  expression is in range because the code checked its end.
\<close>

definition AuthorizationsFor :: "body \<Rightarrow> int \<Rightarrow> authorization list res" where
  "AuthorizationsFor b txIndex =
     (if txIndex < 0 \<or> int (length (bdTransactions b)) \<le> txIndex then Inl ErrTxIndex
      else let i = nat txIndex;
               start = sum_list (map (\<lambda>tx. length (trInputs tx)) (take i (bdTransactions b)));
               end' = start + length (trInputs (bdTransactions b ! i))
           in if length (bdAuthorizations b) < end' then Inl (ErrAuthorizations end')
              else Inr (take (end' - start) (drop start (bdAuthorizations b))))"

subsection \<open>Decoding\<close>

definition output_fields :: "(string \<Rightarrow> bytes option) \<Rightarrow> tx_output fields" where
  "output_fields b58 =
    [(''address'', \<lambda>j s. bindE (Address_UnmarshalJSON b58 j) (\<lambda>a. Inr (s\<lparr>outAddress := a\<rparr>))),
     (''content'', \<lambda>j s. Inr (s\<lparr>outContent := Some j\<rparr>))]"

definition un_output :: "(string \<Rightarrow> bytes option) \<Rightarrow> json \<Rightarrow> tx_output \<Rightarrow> tx_output res" where
  "un_output b58 = un_struct (output_fields b58)"

definition zero_output :: tx_output where
  "zero_output = \<lparr>outAddress = replicate 20 0, outContent = None\<rparr>"

text \<open>\<open>decodePair\<close>: a two element array, each element into its own value.\<close>

definition decodePair :: "(json \<Rightarrow> 'a res) \<Rightarrow> (json \<Rightarrow> 'b res) \<Rightarrow> json \<Rightarrow> ('a \<times> 'b) res" where
  "decodePair first second data =
     bindE (un_slice Inr data) (\<lambda>pair.
       case pair of
         [a, b] \<Rightarrow> bindE (first a) (\<lambda>x. bindE (second b) (\<lambda>y. Inr (x, y)))
       | _ \<Rightarrow> Inl (ErrPairLength (length pair)))"

fun Input_UnmarshalJSON :: "json \<Rightarrow> tx_input res" where
  "Input_UnmarshalJSON (JArr js) =
     bindE (decodePair OutPoint_UnmarshalJSON (\<lambda>j. Bytes_UnmarshalJSON (Some j)) (JArr js))
       (\<lambda>(p, leaf). Inr \<lparr>inOutPoint = p, inLeafHash = leaf\<rparr>)"
| "Input_UnmarshalJSON j =
     bindE (OutPoint_UnmarshalJSON j) (\<lambda>p. Inr \<lparr>inOutPoint = p, inLeafHash = []\<rparr>)"

definition Input_MarshalJSON :: "tx_input \<Rightarrow> json res" where
  "Input_MarshalJSON i =
     bindE (OutPoint_MarshalJSON (inOutPoint i)) (\<lambda>p.
       if inLeafHash i = [] then Inr p else Inr (JArr [p, Bytes_MarshalJSON (inLeafHash i)]))"

definition transaction_fields :: "(string \<Rightarrow> bytes option) \<Rightarrow> transaction fields" where
  "transaction_fields b58 =
    [(''inputs'', \<lambda>j s. bindE (un_slice Input_UnmarshalJSON j) (\<lambda>x. Inr (s\<lparr>trInputs := x\<rparr>))),
     (''outputs'', \<lambda>j s. bindE (un_slice (\<lambda>j. un_output b58 j zero_output) j) (\<lambda>x. Inr (s\<lparr>trOutputs := x\<rparr>)))]"

definition zero_transaction :: transaction where
  "zero_transaction = \<lparr>trInputs = [], trOutputs = []\<rparr>"

definition coinbase_object_fields :: "(string \<Rightarrow> bytes option) \<Rightarrow> coinbase fields" where
  "coinbase_object_fields b58 =
    [(''memo'', \<lambda>j s. bindE (Bytes_UnmarshalJSON (Some j)) (\<lambda>x. Inr (s\<lparr>cbMemo := x\<rparr>))),
     (''outputs'', \<lambda>j s. bindE (un_slice (\<lambda>j. un_output b58 j zero_output) j) (\<lambda>x. Inr (s\<lparr>cbOutputs := x\<rparr>)))]"

text \<open>A bare list is the older form, keyed on the merkle root; anything else is read as the object.\<close>

fun Coinbase_UnmarshalJSON :: "(string \<Rightarrow> bytes option) \<Rightarrow> json \<Rightarrow> coinbase res" where
  "Coinbase_UnmarshalJSON b58 (JArr js) =
     bindE (un_slice (\<lambda>j. un_output b58 j zero_output) (JArr js))
       (\<lambda>outs. Inr \<lparr>cbMemo = [], cbOutputs = outs, cbKeyedByTxid = False\<rparr>)"
| "Coinbase_UnmarshalJSON b58 j =
     un_struct (coinbase_object_fields b58) j \<lparr>cbMemo = [], cbOutputs = [], cbKeyedByTxid = True\<rparr>"

definition authorization_fields :: "authorization fields" where
  "authorization_fields =
    [(''verifying_key'', \<lambda>j s. bindE (ByteString_UnmarshalJSON (Some j)) (\<lambda>x. Inr (s\<lparr>auVerifyingKey := x\<rparr>))),
     (''signature'', \<lambda>j s. bindE (ByteString_UnmarshalJSON (Some j)) (\<lambda>x. Inr (s\<lparr>auSignature := x\<rparr>)))]"

definition zero_byte_string :: byte_string where
  "zero_byte_string = \<lparr>bsBytes = [], bsText = []\<rparr>"

definition body_fields :: "(string \<Rightarrow> bytes option) \<Rightarrow> body fields" where
  "body_fields b58 =
    [(''coinbase'', \<lambda>j s. bindE (Coinbase_UnmarshalJSON b58 j) (\<lambda>x. Inr (s\<lparr>bdCoinbase := x\<rparr>))),
     (''transactions'', \<lambda>j s. bindE (un_slice (\<lambda>j. un_struct (transaction_fields b58) j zero_transaction) j)
        (\<lambda>x. Inr (s\<lparr>bdTransactions := x\<rparr>))),
     (''authorizations'', \<lambda>j s. bindE (un_slice (\<lambda>j. un_struct authorization_fields j
          \<lparr>auVerifyingKey = zero_byte_string, auSignature = zero_byte_string\<rparr>) j)
        (\<lambda>x. Inr (s\<lparr>bdAuthorizations := x\<rparr>)))]"

definition header_fields :: "header fields" where
  "header_fields =
    [(''merkle_root'', \<lambda>j s. bindE (Hash_UnmarshalJSON j) (\<lambda>x. Inr (s\<lparr>hMerkleRoot := x\<rparr>))),
     (''prev_side_hash'', \<lambda>j s. bindE (un_hash_ptr j (hPrevSideHash s)) (\<lambda>x. Inr (s\<lparr>hPrevSideHash := x\<rparr>))),
     (''prev_main_hash'', \<lambda>j s. bindE (BitcoinHash_UnmarshalJSON j) (\<lambda>x. Inr (s\<lparr>hPrevMainHash := x\<rparr>)))]"

definition zero_block :: block where
  "zero_block = \<lparr>bkHeader = \<lparr>hMerkleRoot = zero_hash, hPrevSideHash = None, hPrevMainHash = zero_hash\<rparr>,
     bkBody = \<lparr>bdCoinbase = \<lparr>cbMemo = [], cbOutputs = [], cbKeyedByTxid = False\<rparr>,
       bdTransactions = [], bdAuthorizations = []\<rparr>\<rparr>"

definition block_fields :: "(string \<Rightarrow> bytes option) \<Rightarrow> block fields" where
  "block_fields b58 =
    [(''header'', \<lambda>j s. bindE (un_struct header_fields j (bkHeader s)) (\<lambda>x. Inr (s\<lparr>bkHeader := x\<rparr>))),
     (''body'', \<lambda>j s. bindE (un_struct (body_fields b58) j (bkBody s)) (\<lambda>x. Inr (s\<lparr>bkBody := x\<rparr>)))]"

text \<open>The \<open>*Block\<close> of \<open>get_block\<close>: \<open>null\<close> is the nil block.\<close>

definition un_block :: "(string \<Rightarrow> bytes option) \<Rightarrow> json \<Rightarrow> block option res" where
  "un_block b58 j = un_ptr (un_struct (block_fields b58)) zero_block j None"

subsection \<open>Properties\<close>

text \<open>
  The flat list of signatures is cut exactly at the transaction boundaries: when the body holds
  one block of signatures per transaction, as long as that transaction's inputs, \<open>AuthorizationsFor\<close>
  returns the block of the transaction asked for.
\<close>

theorem AuthorizationsFor_own_signatures:
  assumes "int (length (bdTransactions b)) > txIndex" and "0 \<le> txIndex"
    and "bdAuthorizations b = concat sigs" and "length sigs = length (bdTransactions b)"
    and "\<forall>i < length sigs. length (sigs ! i) = length (trInputs (bdTransactions b ! i))"
  shows "AuthorizationsFor b txIndex = Inr (sigs ! nat txIndex)"
proof -
  let ?i = "nat txIndex"
  have i: "?i < length sigs" using assms by linarith
  have lens: "map length sigs = map (\<lambda>tx. length (trInputs tx)) (bdTransactions b)"
    using assms(4,5) by (auto intro: nth_equalityI)
  then have start: "sum_list (map (\<lambda>tx. length (trInputs tx)) (take ?i (bdTransactions b)))
      = length (concat (take ?i sigs))"
    by (simp add: length_concat take_map [symmetric])
  have split: "concat sigs = concat (take ?i sigs) @ sigs ! ?i @ concat (drop (Suc ?i) sigs)"
    using i by (metis append.assoc concat.simps(2) concat_append id_take_nth_drop)
  show ?thesis
    using assms i by (simp add: AuthorizationsFor_def Let_def start split not_le not_less)
qed

theorem AuthorizationsFor_own_signatures_witness:
  "let a = \<lparr>auVerifyingKey = zero_byte_string, auSignature = zero_byte_string\<rparr>;
       b = \<lparr>auVerifyingKey = zero_byte_string, auSignature = \<lparr>bsBytes = [1], bsText = []\<rparr>\<rparr>;
       i = \<lparr>inOutPoint = \<lparr>opKind = KindRegular, opSource = zero_hash, opVout = 0\<rparr>, inLeafHash = []\<rparr>
   in AuthorizationsFor \<lparr>bdCoinbase = \<lparr>cbMemo = [], cbOutputs = [], cbKeyedByTxid = True\<rparr>,
        bdTransactions = [\<lparr>trInputs = [i], trOutputs = []\<rparr>, \<lparr>trInputs = [i, i], trOutputs = []\<rparr>],
        bdAuthorizations = [a, b, b]\<rparr> 1 = Inr [b, b]"
  unfolding Let_def
  by (subst AuthorizationsFor_own_signatures [where sigs =
      "[[\<lparr>auVerifyingKey = zero_byte_string, auSignature = zero_byte_string\<rparr>],
        [\<lparr>auVerifyingKey = zero_byte_string, auSignature = \<lparr>bsBytes = [1], bsText = []\<rparr>\<rparr>,
         \<lparr>auVerifyingKey = zero_byte_string, auSignature = \<lparr>bsBytes = [1], bsText = []\<rparr>\<rparr>]]"])
     (auto simp: less_Suc_eq)

end
