(* ===== verification/Decoders.thy ===== *)
theory Decoders
  imports Block
begin

text \<open>
  The output payload decoders of the seven chains, one per package under \<open>internal/chain/\<close>. Four of
  them (thunder, photon, zside, coinshift) decode one struct with a pointer per variant; three
  (bitnames, bitassets, truthcoin) read the tag with \<open>Variant\<close> first.

  The locale \<open>output_decoder\<close> is the contract the index relies on: a decoded value is a
  non-negative \<open>int64\<close>, so it fits the \<open>bigint\<close> column that stores it. Every decoder interprets it.
\<close>

locale output_decoder =
  fixes decode :: decoder
  assumes value_range: "decode raw = Inr c \<Longrightarrow> 0 \<le> coValueSats c \<and> coValueSats c \<le> max_int64"
begin

lemma sum_values_nonneg:
  assumes "mapE (\<lambda>raw. decode raw) raws = Inr cs"
  shows "0 \<le> sum_list (map coValueSats cs)"
  using mapE_setD [OF assms] value_range by (intro sum_list_nonneg) auto

lemma sum_values_bound:
  assumes "mapE (\<lambda>raw. decode raw) raws = Inr cs"
  shows "sum_list (map coValueSats cs) \<le> int (length raws) * max_int64"
proof -
  have "\<forall>c\<in>set cs. coValueSats c \<le> max_int64"
    using mapE_setD [OF assms] value_range by blast
  then have "sum_list (map coValueSats cs) \<le> sum_list (map (\<lambda>_. max_int64) cs)"
    by (intro sum_list_mono) auto
  then show ?thesis using mapE_length [OF assms] by (simp add: sum_list_triv)
qed

end

subsection \<open>Values\<close>

text \<open>\<open>toSats\<close>, which every package declares with the same body.\<close>

definition toSats :: "u64 \<Rightarrow> int res" where
  "toSats v = (if 0x7FFFFFFFFFFFFFFF < v then Inl ErrNotInt64 else Inr (sint v))"

record withdrawal_wire =
  wdValue :: u64
  wdMainFee :: u64
  wdValueSats :: u64
  wdMainFeeSats :: u64
  wdMainAddress :: string

definition withdrawal_fields :: "withdrawal_wire fields" where
  "withdrawal_fields =
    [(''value'', \<lambda>j s. bindE (un_uint j (wdValue s)) (\<lambda>x. Inr (s\<lparr>wdValue := x\<rparr>))),
     (''main_fee'', \<lambda>j s. bindE (un_uint j (wdMainFee s)) (\<lambda>x. Inr (s\<lparr>wdMainFee := x\<rparr>))),
     (''value_sats'', \<lambda>j s. bindE (un_uint j (wdValueSats s)) (\<lambda>x. Inr (s\<lparr>wdValueSats := x\<rparr>))),
     (''main_fee_sats'', \<lambda>j s. bindE (un_uint j (wdMainFeeSats s)) (\<lambda>x. Inr (s\<lparr>wdMainFeeSats := x\<rparr>))),
     (''main_address'', \<lambda>j s. bindE (un_string j (wdMainAddress s)) (\<lambda>x. Inr (s\<lparr>wdMainAddress := x\<rparr>)))]"

definition zero_withdrawal :: withdrawal_wire where
  "zero_withdrawal = \<lparr>wdValue = 0, wdMainFee = 0, wdValueSats = 0, wdMainFeeSats = 0, wdMainAddress = []\<rparr>"

text \<open>
  The value of a withdrawal: payout plus mainchain fee, in either spelling, added in 64 bits with the
  check for a sum that wrapped around.
\<close>

definition withdrawal_content :: "withdrawal_wire \<Rightarrow> content res" where
  "withdrawal_content w =
     (let value = max (wdValue w) (wdValueSats w);
          mainFee = max (wdMainFee w) (wdMainFeeSats w);
          total = value + mainFee
      in if total < value then Inl ErrOverflow
         else bindE (toSats total) (\<lambda>sats. Inr \<lparr>coValueSats = sats, coType = ''withdrawal''\<rparr>))"

definition value_content :: "u64 \<Rightarrow> string \<Rightarrow> content res" where
  "value_content v kind = bindE (toSats v) (\<lambda>sats. Inr \<lparr>coValueSats = sats, coType = kind\<rparr>)"

subsection \<open>Decoders with one struct of pointers\<close>

record content_wire =
  cnValue :: "u64 option"
  cnWithdrawal :: "withdrawal_wire option"

record swap_wire =
  spValue :: u64
  spValueSats :: u64
  spSwapID :: string

record swap_content_wire = content_wire +
  cnSwapPending :: "swap_wire option"

definition content_fields :: "('z content_wire_scheme) fields" where
  "content_fields =
    [(''Value'', \<lambda>j s. bindE (un_ptr un_uint 0 j (cnValue s)) (\<lambda>x. Inr (s\<lparr>cnValue := x\<rparr>))),
     (''Withdrawal'', \<lambda>j s. bindE (un_ptr (un_struct withdrawal_fields) zero_withdrawal j (cnWithdrawal s))
        (\<lambda>x. Inr (s\<lparr>cnWithdrawal := x\<rparr>)))]"

definition swap_fields :: "swap_wire fields" where
  "swap_fields =
    [(''value'', \<lambda>j s. bindE (un_uint j (spValue s)) (\<lambda>x. Inr (s\<lparr>spValue := x\<rparr>))),
     (''value_sats'', \<lambda>j s. bindE (un_uint j (spValueSats s)) (\<lambda>x. Inr (s\<lparr>spValueSats := x\<rparr>))),
     (''swap_id'', \<lambda>j s. bindE (un_string j (spSwapID s)) (\<lambda>x. Inr (s\<lparr>spSwapID := x\<rparr>)))]"

definition swap_content_fields :: "swap_content_wire fields" where
  "swap_content_fields = content_fields @
    [(''SwapPending'', \<lambda>j s. bindE (un_ptr (un_struct swap_fields)
        \<lparr>spValue = 0, spValueSats = 0, spSwapID = []\<rparr> j (cnSwapPending s)) (\<lambda>x. Inr (s\<lparr>cnSwapPending := x\<rparr>)))]"

definition un_content :: "raw_message \<Rightarrow> content_wire res" where
  "un_content = un_raw (\<lambda>j. un_struct content_fields j \<lparr>cnValue = None, cnWithdrawal = None\<rparr>)"

definition thunder_DecodeContent :: decoder where
  "thunder_DecodeContent raw =
     bindE (un_content raw) (\<lambda>c.
       case cnValue c of
         Some v \<Rightarrow> value_content v ''value''
       | None \<Rightarrow>
      (case cnWithdrawal c of
         Some w \<Rightarrow> withdrawal_content w
       | None \<Rightarrow> Inl ErrNoVariant))"

definition photon_DecodeContent :: decoder where
  "photon_DecodeContent raw =
     bindE (un_content raw) (\<lambda>c.
       case cnValue c of
         Some v \<Rightarrow> value_content v ''value''
       | None \<Rightarrow>
      (case cnWithdrawal c of
         Some w \<Rightarrow> withdrawal_content w
       | None \<Rightarrow> Inl ErrNoVariant))"

definition zside_DecodeContent :: decoder where
  "zside_DecodeContent raw =
     bindE (un_content raw) (\<lambda>c.
       case cnValue c of
         Some v \<Rightarrow> value_content v ''value''
       | None \<Rightarrow>
      (case cnWithdrawal c of
         Some w \<Rightarrow> withdrawal_content w
       | None \<Rightarrow> Inl ErrNoVariant))"

definition coinshift_DecodeContent :: decoder where
  "coinshift_DecodeContent raw =
     bindE (un_raw (\<lambda>j. un_struct swap_content_fields j
             \<lparr>cnValue = None, cnWithdrawal = None, cnSwapPending = None\<rparr>) raw) (\<lambda>c.
       case cnValue c of
         Some v \<Rightarrow> value_content v ''value''
       | None \<Rightarrow>
      (case cnSwapPending c of
         Some sp \<Rightarrow> value_content (max (spValue sp) (spValueSats sp)) ''swap_pending''
       | None \<Rightarrow>
      (case cnWithdrawal c of
         Some w \<Rightarrow> withdrawal_content w
       | None \<Rightarrow> Inl ErrNoVariant)))"

subsection \<open>Decoders that read the tag first\<close>

definition un_u64 :: "raw_message \<Rightarrow> u64 res" where
  "un_u64 = un_raw (\<lambda>j. un_uint j 0)"

text \<open>\<open>withdrawalValue\<close> of bitnames, bitassets and truthcoin.\<close>

definition withdrawalValue :: "raw_message \<Rightarrow> content res" where
  "withdrawalValue payload =
     bindE (un_raw (\<lambda>j. un_struct withdrawal_fields j zero_withdrawal) payload) withdrawal_content"

definition bitnames_value :: "raw_message \<Rightarrow> string \<Rightarrow> content res" where
  "bitnames_value payload kind = bindE (un_u64 payload) (\<lambda>sats. value_content sats kind)"

definition bitnames_DecodeContent :: decoder where
  "bitnames_DecodeContent raw =
     bindE (Variant raw) (\<lambda>(tag, payload).
       if tag = ''BitcoinSats'' then bitnames_value payload ''value''
       else if tag = ''Withdrawal'' \<or> tag = ''BitcoinWithdrawal'' then withdrawalValue payload
       else if tag = ''BitName'' then Inr \<lparr>coValueSats = 0, coType = ''bitname''\<rparr>
       else if tag = ''BitNameReservation'' then Inr \<lparr>coValueSats = 0, coType = ''bitname_reservation''\<rparr>
       else Inl ErrNoVariant)"

definition bitassets_DecodeContent :: decoder where
  "bitassets_DecodeContent raw =
     bindE (Variant raw) (\<lambda>(tag, payload).
       if tag = ''BitcoinSats'' then bindE (un_u64 payload) (\<lambda>sats. value_content sats ''value'')
       else if tag = ''Withdrawal'' \<or> tag = ''BitcoinWithdrawal'' then withdrawalValue payload
       else if tag = ''BitAsset'' then Inr \<lparr>coValueSats = 0, coType = ''bitasset''\<rparr>
       else if tag = ''BitAssetControl'' then Inr \<lparr>coValueSats = 0, coType = ''bitasset_control''\<rparr>
       else if tag = ''BitAssetReservation'' then Inr \<lparr>coValueSats = 0, coType = ''bitasset_reservation''\<rparr>
       else if tag = ''DutchAuctionReceipt'' then Inr \<lparr>coValueSats = 0, coType = ''dutch_auction_receipt''\<rparr>
       else Inl ErrNoVariant)"

record market_funds =
  mfAmount :: "u64 option"
  mfIsFee :: bool

definition market_funds_fields :: "market_funds fields" where
  "market_funds_fields =
    [(''amount'', \<lambda>j s. bindE (un_ptr un_uint 0 j (mfAmount s)) (\<lambda>x. Inr (s\<lparr>mfAmount := x\<rparr>))),
     (''is_fee'', \<lambda>j s. bindE (un_bool j (mfIsFee s)) (\<lambda>x. Inr (s\<lparr>mfIsFee := x\<rparr>)))]"

definition marketFundsValue :: "raw_message \<Rightarrow> content res" where
  "marketFundsValue payload =
     bindE (un_raw (\<lambda>j. un_struct market_funds_fields j \<lparr>mfAmount = None, mfIsFee = False\<rparr>) payload) (\<lambda>m.
       case mfAmount m of
         None \<Rightarrow> Inl ErrNoAmount
       | Some amount \<Rightarrow>
           bindE (toSats amount) (\<lambda>sats.
             if mfIsFee m then Inr \<lparr>coValueSats = sats, coType = ''market_author_fee''\<rparr>
             else Inr \<lparr>coValueSats = sats, coType = ''market_treasury''\<rparr>))"

definition truthcoin_DecodeContent :: decoder where
  "truthcoin_DecodeContent raw =
     bindE (Variant raw) (\<lambda>(tag, payload).
       if tag = ''Value'' then bindE (un_u64 payload) (\<lambda>sats. value_content sats ''value'')
       else if tag = ''Withdrawal'' then withdrawalValue payload
       else if tag = ''MarketFunds'' then marketFundsValue payload
       else Inl ErrNoVariant)"

subsection \<open>Ranges\<close>

lemma toSats_eq: "toSats v = (if int (unat v) \<le> max_int64 then Inr (int (unat v)) else Inl ErrNotInt64)"
proof (cases "unat v < 2 ^ 63")
  case True
  then have "int (unat v) < int (2 ^ 63)" by (simp only: of_nat_less_iff)
  then have u: "uint v < 2 ^ 63" by simp
  then have "signed_take_bit 63 (uint v) = uint v"
    by (intro signed_take_bit_int_eq_self) (auto intro: order_trans [OF _ uint_ge_0])
  with u show ?thesis by (simp add: toSats_def sint_uint word_less_def not_less)
next
  case False
  then have "int (2 ^ 63) \<le> int (unat v)" by (simp only: of_nat_le_iff not_less)
  then have "2 ^ 63 \<le> uint v" by simp
  then show ?thesis by (simp add: toSats_def word_less_def)
qed

lemma toSats_range: "toSats v = Inr s \<Longrightarrow> 0 \<le> s \<and> s \<le> max_int64"
  by (auto simp: toSats_eq split: if_splits)

text \<open>A result whose value, if there is one, is a non-negative \<open>int64\<close>; one rule per construct.\<close>

definition in_range :: "content res \<Rightarrow> bool" where
  "in_range r \<longleftrightarrow> (\<forall>c. r = Inr c \<longrightarrow> 0 \<le> coValueSats c \<and> coValueSats c \<le> max_int64)"

named_theorems in_range_intros

lemma in_range_Inl [in_range_intros]: "in_range (Inl e)"
  by (simp add: in_range_def)

lemma in_range_zero [in_range_intros]: "in_range (Inr \<lparr>coValueSats = 0, coType = t\<rparr>)"
  by (simp add: in_range_def)

lemma in_range_if [in_range_intros]: "in_range a \<Longrightarrow> in_range b \<Longrightarrow> in_range (if P then a else b)"
  by simp

lemma in_range_option [in_range_intros]:
  "in_range n \<Longrightarrow> (\<And>x. in_range (f x)) \<Longrightarrow> in_range (case m of None \<Rightarrow> n | Some x \<Rightarrow> f x)"
  by (cases m) simp_all

lemma in_range_prod [in_range_intros]: "(\<And>x y. in_range (f x y)) \<Longrightarrow> in_range (case p of (x, y) \<Rightarrow> f x y)"
  by (cases p) simp

lemma in_range_toSats [in_range_intros]:
  "in_range (bindE (toSats v) (\<lambda>sats. Inr \<lparr>coValueSats = sats, coType = t\<rparr>))"
  by (auto simp: in_range_def bindE_eq_Inr dest: toSats_range)

lemma in_range_bindE: "(\<And>x. in_range (f x)) \<Longrightarrow> in_range (bindE m f)"
  by (cases m) (simp_all add: in_range_def)

lemma in_range_value [in_range_intros]: "in_range (value_content v k)"
  unfolding value_content_def by (rule in_range_toSats)

lemma in_range_withdrawal [in_range_intros]: "in_range (withdrawal_content w)"
  unfolding withdrawal_content_def Let_def by (intro in_range_intros)

lemma in_range_withdrawalValue [in_range_intros]: "in_range (withdrawalValue p)"
  unfolding withdrawalValue_def by (intro in_range_bindE in_range_intros)

lemma in_range_marketFunds [in_range_intros]: "in_range (marketFundsValue p)"
  by (auto simp: in_range_def marketFundsValue_def bindE_eq_Inr dest!: toSats_range
      split: option.splits if_splits)

lemma output_decoder_in_range: "(\<And>raw. in_range (decode raw)) \<Longrightarrow> output_decoder decode"
  by unfold_locales (auto simp: in_range_def)

interpretation thunder: output_decoder thunder_DecodeContent
  by (rule output_decoder_in_range) (unfold thunder_DecodeContent_def, intro in_range_bindE in_range_intros)

interpretation photon: output_decoder photon_DecodeContent
  by (rule output_decoder_in_range) (unfold photon_DecodeContent_def, intro in_range_bindE in_range_intros)

interpretation zside: output_decoder zside_DecodeContent
  by (rule output_decoder_in_range) (unfold zside_DecodeContent_def, intro in_range_bindE in_range_intros)

interpretation coinshift: output_decoder coinshift_DecodeContent
  by (rule output_decoder_in_range) (unfold coinshift_DecodeContent_def, intro in_range_bindE in_range_intros)

interpretation bitnames: output_decoder bitnames_DecodeContent
  by (rule output_decoder_in_range)
     (unfold bitnames_DecodeContent_def bitnames_value_def, intro in_range_bindE in_range_intros)

interpretation bitassets: output_decoder bitassets_DecodeContent
  by (rule output_decoder_in_range) (unfold bitassets_DecodeContent_def, intro in_range_bindE in_range_intros)

interpretation truthcoin: output_decoder truthcoin_DecodeContent
  by (rule output_decoder_in_range) (unfold truthcoin_DecodeContent_def, intro in_range_bindE in_range_intros)

subsection \<open>The value of a withdrawal\<close>

lemma wrap_check: "(a :: u64) + b < a \<longleftrightarrow> 2 ^ 64 \<le> unat a + unat b"
proof -
  have "unat a < 2 ^ 64" "unat b < 2 ^ 64" using unsigned_less [of a] unsigned_less [of b] by simp_all
  then show ?thesis by (auto simp: word_less_nat_alt unat_word_ariths mod_if)
qed

lemma unat_add_no_wrap: "unat (a :: u64) + unat b < 2 ^ 64 \<Longrightarrow> unat (a + b) = unat a + unat b"
  by (simp add: unat_word_ariths)

text \<open>
  C20. A withdrawal is worth exactly its payout plus its mainchain fee, each read in whichever spelling
  carries it. The 64-bit addition never wraps into a smaller value: a sum of \<open>2^64\<close> or more is the
  overflow error, a sum that does not fit an \<open>int64\<close> the range error, and every other sum is returned
  as it is.
\<close>

theorem withdrawal_content_exact:
  "withdrawal_content w =
     (let total = max (unat (wdValue w)) (unat (wdValueSats w))
                + max (unat (wdMainFee w)) (unat (wdMainFeeSats w))
      in if 2 ^ 64 \<le> total then Inl ErrOverflow
         else if max_int64 < int total then Inl ErrNotInt64
         else Inr \<lparr>coValueSats = int total, coType = ''withdrawal''\<rparr>)"
proof -
  let ?a = "max (wdValue w) (wdValueSats w)" and ?b = "max (wdMainFee w) (wdMainFeeSats w)"
  have mx: "unat (max a b) = max (unat a) (unat b)" for a b :: u64
    by (simp add: max_def word_le_nat_alt)
  show ?thesis
  proof (cases "2 ^ 64 \<le> unat ?a + unat ?b")
    case True
    then show ?thesis by (simp add: withdrawal_content_def Let_def wrap_check mx)
  next
    case False
    then have "unat (?a + ?b) = unat ?a + unat ?b" by (intro unat_add_no_wrap) simp
    then have "toSats (?a + ?b) = (if int (unat ?a + unat ?b) \<le> max_int64
        then Inr (int (unat ?a + unat ?b)) else Inl ErrNotInt64)"
      using toSats_eq [of "?a + ?b"] by (simp only:)
    moreover have "\<not> ?a + ?b < ?a" using False by (simp add: wrap_check)
    ultimately show ?thesis using False unfolding withdrawal_content_def Let_def mx
      by (simp del: of_nat_add of_nat_unat)
  qed
qed

text \<open>What an output with one variant is worth, whichever decoder reads it.\<close>

definition one_content :: "string \<Rightarrow> json \<Rightarrow> content res" where
  "one_content tag j =
     (if tag = ''Value'' then bindE (un_uint j 0) (\<lambda>v. value_content v ''value'')
      else bindE (un_struct withdrawal_fields j zero_withdrawal) withdrawal_content)"

lemma pointers_one:
  assumes "tag = ''Value'' \<or> tag = ''Withdrawal''" and "j \<noteq> JNull"
  shows "thunder_DecodeContent (Some (JObj [(tag, j)])) = one_content tag j"
    and "photon_DecodeContent (Some (JObj [(tag, j)])) = one_content tag j"
    and "zside_DecodeContent (Some (JObj [(tag, j)])) = one_content tag j"
    and "coinshift_DecodeContent (Some (JObj [(tag, j)])) = one_content tag j"
  unfolding thunder_DecodeContent_def photon_DecodeContent_def zside_DecodeContent_def coinshift_DecodeContent_def
    un_content_def un_raw_def swap_content_fields_def content_fields_def one_content_def
  using assms by (elim disjE; simp add: store_member_def find_field_def un_ptr_def bindE_assoc)+

lemma tags_one:
  assumes "tag = ''Value'' \<or> tag = ''Withdrawal''"
  shows "truthcoin_DecodeContent (Some (JObj [(tag, j)])) = one_content tag j"
    and "bitnames_DecodeContent (Some (JObj [(if tag = ''Value'' then ''BitcoinSats'' else tag, j)])) = one_content tag j"
    and "bitassets_DecodeContent (Some (JObj [(if tag = ''Value'' then ''BitcoinSats'' else tag, j)])) = one_content tag j"
  unfolding truthcoin_DecodeContent_def bitnames_DecodeContent_def bitassets_DecodeContent_def one_content_def
  using assms by (elim disjE; simp add: bitnames_value_def withdrawalValue_def un_u64_def un_raw_def)+

text \<open>
  C21. The seven decoders agree where their formats do. On an output with one variant, a value or a
  withdrawal, the decoders that read a struct of pointers and the ones that read the tag first return the
  same content or the same error; the two chains that call a value \<open>BitcoinSats\<close> read it as the others read theirs. A null in
  the place of the number is the one difference: the first kind refuses it, the second reads zero.
\<close>

theorem decoders_agree:
  assumes "tag = ''Value'' \<or> tag = ''Withdrawal''" and "j \<noteq> JNull"
  shows "photon_DecodeContent (Some (JObj [(tag, j)])) = thunder_DecodeContent (Some (JObj [(tag, j)]))
    \<and> zside_DecodeContent (Some (JObj [(tag, j)])) = thunder_DecodeContent (Some (JObj [(tag, j)]))
    \<and> coinshift_DecodeContent (Some (JObj [(tag, j)])) = thunder_DecodeContent (Some (JObj [(tag, j)]))
    \<and> truthcoin_DecodeContent (Some (JObj [(tag, j)])) = thunder_DecodeContent (Some (JObj [(tag, j)]))
    \<and> bitnames_DecodeContent (Some (JObj [(if tag = ''Value'' then ''BitcoinSats'' else tag, j)])) = thunder_DecodeContent (Some (JObj [(tag, j)]))
    \<and> bitassets_DecodeContent (Some (JObj [(if tag = ''Value'' then ''BitcoinSats'' else tag, j)])) = thunder_DecodeContent (Some (JObj [(tag, j)]))
    \<and> thunder_DecodeContent (Some (JObj [(''Value'', JNull)])) = Inl ErrNoVariant
    \<and> truthcoin_DecodeContent (Some (JObj [(''Value'', JNull)])) = Inr \<lparr>coValueSats = 0, coType = ''value''\<rparr>"
proof -
  have "thunder_DecodeContent (Some (JObj [(''Value'', JNull)])) = Inl ErrNoVariant"
    by (simp add: thunder_DecodeContent_def un_content_def un_raw_def content_fields_def store_member_def find_field_def un_ptr_def)
  moreover have "truthcoin_DecodeContent (Some (JObj [(''Value'', JNull)])) = Inr \<lparr>coValueSats = 0, coType = ''value''\<rparr>"
    by (simp add: tags_one one_content_def value_content_def toSats_def)
  ultimately show ?thesis using pointers_one [OF assms] tags_one [OF assms(1)] by simp
qed

theorem decoders_agree_witness:
  "coinshift_DecodeContent (Some (JObj [(''Value'', JNum ''7'')])) = thunder_DecodeContent (Some (JObj [(''Value'', JNum ''7'')]))
   \<and> bitnames_DecodeContent (Some (JObj [(''BitcoinSats'', JNum ''7'')])) = thunder_DecodeContent (Some (JObj [(''Value'', JNum ''7'')]))"
  using decoders_agree [of "''Value''" "JNum ''7''"] by simp

end
