(* ===== verification/Registry.thy ===== *)
theory Registry
  imports Decoders "HOL-Library.Char_ord" "HOL-Library.List_Lexorder"
begin

text \<open>
  The chain registry of \<open>internal/chain/registry.go\<close>: networks and their port bands, the seven chain
  specs, and the decoders that \<open>internal/chain/register/register.go\<close> adds at start. The map of decoders
  is an association list from the chain name; a \<open>panic\<close> is the error \<open>ErrPanic\<close>.
\<close>

subsection \<open>Networks and ports\<close>

type_synonym network = string

definition portOffset :: "network \<Rightarrow> int res" where
  "portOffset n =
     (if n = ''signet'' then Inr 0
      else if n = ''regtest'' then Inr 10000
      else if n = ''mainnet'' then Inr 20000
      else Inl (ErrUnknownNetwork n))"

definition ParseNetwork :: "string \<Rightarrow> network res" where
  "ParseNetwork s = bindE (portOffset s) (\<lambda>_. Inr s)"

record spec =
  scName :: string
  scSlot :: int
  scNodeBasePort :: int
  scAPIBasePort :: int

definition NodeRPCPort :: "spec \<Rightarrow> network \<Rightarrow> int res" where
  "NodeRPCPort s n = bindE (portOffset n) (\<lambda>offset. Inr (scNodeBasePort s + offset))"

definition APIPort :: "spec \<Rightarrow> network \<Rightarrow> int res" where
  "APIPort s n = bindE (portOffset n) (\<lambda>offset. Inr (scAPIBasePort s + offset))"

definition specs :: "(string \<times> spec) list" where
  "specs =
    [(''bitnames'',  \<lparr>scName = ''bitnames'', scSlot = 2, scNodeBasePort = 6002, scAPIBasePort = 3002\<rparr>),
     (''bitassets'', \<lparr>scName = ''bitassets'', scSlot = 4, scNodeBasePort = 6004, scAPIBasePort = 3004\<rparr>),
     (''thunder'',   \<lparr>scName = ''thunder'', scSlot = 9, scNodeBasePort = 6009, scAPIBasePort = 3009\<rparr>),
     (''truthcoin'', \<lparr>scName = ''truthcoin'', scSlot = 13, scNodeBasePort = 6013, scAPIBasePort = 3013\<rparr>),
     (''zside'',     \<lparr>scName = ''zside'', scSlot = 98, scNodeBasePort = 6098, scAPIBasePort = 3098\<rparr>),
     (''photon'',    \<lparr>scName = ''photon'', scSlot = 99, scNodeBasePort = 6099, scAPIBasePort = 3099\<rparr>),
     (''coinshift'', \<lparr>scName = ''coinshift'', scSlot = 255, scNodeBasePort = 6255, scAPIBasePort = 3255\<rparr>)]"

subsection \<open>Decoders\<close>

type_synonym decoders = "(string \<times> decoder) list"

text \<open>\<open>Register\<close>, on the decoder's \<open>Name()\<close> and its \<open>DecodeContent\<close>.\<close>

definition Register :: "string \<times> decoder \<Rightarrow> decoders \<Rightarrow> decoders res" where
  "Register d ds =
     (if map_of specs (fst d) = None then Inl ErrPanic
      else if map_of ds (fst d) \<noteq> None then Inl ErrPanic
      else Inr (d # ds))"

definition sortedKeys :: "(string \<times> 'v) list \<Rightarrow> string list" where
  "sortedKeys m = sort (map fst m)"

definition Names :: "string list" where
  "Names = sortedKeys specs"

definition Supported :: "decoders \<Rightarrow> string list" where
  "Supported ds = sortedKeys ds"

definition Lookup :: "decoders \<Rightarrow> string \<Rightarrow> (spec \<times> decoder) res" where
  "Lookup ds name =
     (case map_of specs name of None \<Rightarrow> Inl (ErrUnknownChain name)
      | Some spec \<Rightarrow>
        (case map_of ds name of None \<Rightarrow> Inl (ErrNoDecoder name)
         | Some decoder \<Rightarrow> Inr (spec, decoder)))"

text \<open>The \<open>init\<close> of package \<open>register\<close>.\<close>

definition register_init :: "decoders res" where
  "register_init = foldE Register
     [(''thunder'', thunder_DecodeContent),
      (''bitassets'', bitassets_DecodeContent),
      (''bitnames'', bitnames_DecodeContent),
      (''coinshift'', coinshift_DecodeContent),
      (''photon'', photon_DecodeContent),
      (''truthcoin'', truthcoin_DecodeContent),
      (''zside'', zside_DecodeContent)] []"

definition registered :: decoders where
  "registered =
     [(''zside'', zside_DecodeContent),
      (''truthcoin'', truthcoin_DecodeContent),
      (''photon'', photon_DecodeContent),
      (''coinshift'', coinshift_DecodeContent),
      (''bitnames'', bitnames_DecodeContent),
      (''bitassets'', bitassets_DecodeContent),
      (''thunder'', thunder_DecodeContent)]"

lemma register_init_eq: "register_init = Inr registered"
  by (simp add: register_init_def Register_def specs_def registered_def)

lemma registered_output_decoder: "(name, d) \<in> set registered \<Longrightarrow> output_decoder d"
  unfolding registered_def
  using thunder.output_decoder_axioms photon.output_decoder_axioms zside.output_decoder_axioms
    coinshift.output_decoder_axioms bitnames.output_decoder_axioms bitassets.output_decoder_axioms
    truthcoin.output_decoder_axioms
  by auto

lemma Lookup_range:
  assumes "Lookup registered name = Inr (spec, d)"
  shows "output_decoder d"
  using assms registered_output_decoder
  by (auto simp: Lookup_def dest!: map_of_SomeD split: option.splits)

lemma registered_keys: "set (map fst registered) = set (map fst specs)"
  by (auto simp: registered_def specs_def)

lemma sortedKeys_registered: "Supported registered = Names"
  unfolding Supported_def Names_def sortedKeys_def
proof (rule sorted_distinct_set_unique)
  show "distinct (sort (map fst registered))" by (simp add: registered_def)
  show "distinct (sort (map fst specs))" by (simp add: specs_def)
  show "set (sort (map fst registered)) = set (sort (map fst specs))"
    using registered_keys by simp
qed simp_all

lemma specs_named: "map_of specs name = Some spec \<Longrightarrow> scName spec = name"
  by (auto simp: specs_def split: if_splits)

lemma set_Names: "set Names = set (map fst specs)"
  by (simp add: Names_def sortedKeys_def)

lemma Lookup_registered:
  assumes "name \<in> set Names"
  shows "\<exists>spec d. Lookup registered name = Inr (spec, d) \<and> scName spec = name"
proof -
  from assms have "name \<in> dom (map_of specs)" and "name \<in> dom (map_of registered)"
    using registered_keys by (simp_all only: dom_map_of_conv_image_fst set_Names set_map)
  then show ?thesis by (auto simp: Lookup_def dest: specs_named)
qed

subsection \<open>Properties\<close>

text \<open>
  Registration at start succeeds and covers the registry: no \<open>Register\<close> call panics, every chain
  that has a spec has a decoder, \<open>Lookup\<close> succeeds on exactly the names \<open>Names()\<close> lists and returns
  the spec of that name, and a second registration of any of them panics.
\<close>

theorem register_init_complete:
  "\<exists>ds. register_init = Inr ds
     \<and> Supported ds = Names
     \<and> (\<forall>name. (\<exists>spec d. Lookup ds name = Inr (spec, d) \<and> scName spec = name) \<longleftrightarrow> name \<in> set Names)
     \<and> (\<forall>name d. name \<in> set Names \<longrightarrow> Register (name, d) ds = Inl ErrPanic)"
proof (intro exI conjI allI impI)
  show "register_init = Inr registered" by (rule register_init_eq)
  show "Supported registered = Names" by (rule sortedKeys_registered)
next
  fix name
  show "(\<exists>spec d. Lookup registered name = Inr (spec, d) \<and> scName spec = name) \<longleftrightarrow> name \<in> set Names"
  proof
    assume "\<exists>spec d. Lookup registered name = Inr (spec, d) \<and> scName spec = name"
    then have "map_of specs name \<noteq> None" by (auto simp: Lookup_def split: option.splits)
    then show "name \<in> set Names" by (simp add: set_Names map_of_eq_None_iff)
  qed (rule Lookup_registered)
next
  fix name d assume "name \<in> set Names"
  then have "name \<in> set (map fst registered)"
    by (simp only: registered_keys set_Names)
  then have "map_of registered name \<noteq> None"
    by (simp add: map_of_eq_None_iff)
  then show "Register (name, d) registered = Inl ErrPanic" by (simp add: Register_def)
qed

theorem register_init_complete_witness:
  "Lookup registered ''photon'' =
     Inr (\<lparr>scName = ''photon'', scSlot = 99, scNodeBasePort = 6099, scAPIBasePort = 3099\<rparr>, photon_DecodeContent)
   \<and> Register (''photon'', photon_DecodeContent) registered = Inl ErrPanic"
proof -
  obtain ds where "register_init = Inr ds"
    and "\<forall>name d. name \<in> set Names \<longrightarrow> Register (name, d) ds = Inl ErrPanic"
    using register_init_complete by blast
  moreover have "''photon'' \<in> set Names" by (simp add: set_Names specs_def)
  ultimately show ?thesis by (auto simp: register_init_eq Lookup_def specs_def registered_def)
qed

text \<open>All ports of all chains on one network, the node's and this service's.\<close>

definition network_ports :: "network \<Rightarrow> int res list" where
  "network_ports n = map (\<lambda>s. NodeRPCPort (snd s) n) specs @ map (\<lambda>s. APIPort (snd s) n) specs"

text \<open>
  The port table never assigns one port twice: over the three networks and the seven chains, the
  node ports and the ports of this service are 42 different numbers, all valid unprivileged TCP ports,
  and any other network name is refused.
\<close>

theorem ports_disjoint:
  "distinct (concat (map network_ports [''signet'', ''regtest'', ''mainnet'']))
   \<and> (\<forall>p \<in> set (concat (map network_ports [''signet'', ''regtest'', ''mainnet''])).
         \<exists>n. p = Inr n \<and> 1024 \<le> n \<and> n \<le> 65535)
   \<and> (\<forall>n. n \<notin> {''signet'', ''regtest'', ''mainnet''} \<longrightarrow> ParseNetwork n = Inl (ErrUnknownNetwork n))"
  by (simp add: network_ports_def specs_def NodeRPCPort_def APIPort_def portOffset_def ParseNetwork_def)

theorem ports_disjoint_witness:
  "ParseNetwork ''testnet'' = Inl (ErrUnknownNetwork ''testnet'')"
  using ports_disjoint by simp

end
