(* ===== verification/Store.thy ===== *)
theory Store
  imports OutPoint Registry
begin

text \<open>
  The index database and the operations that write it: \<open>internal/store/write.go\<close>, the transaction
  wrapper and the migrations of \<open>internal/store/store.go\<close>, and \<open>SetMainHeight\<close> of
  \<open>internal/store/tx.go\<close>. A table of \<open>internal/store/migrations\<close> is a list of row records, in the
  order the rows were inserted; a statement is a function on the tables it touches, with the effect the
  SQL text names. An \<open>INTEGER\<close> column holds the \<open>int32\<close> the code converts to, so heights,
  positions and sizes are \<open>int\<close> values; \<open>SUM\<close> is exact and a result that does not fit the
  column or the Go variable it goes to is an error.

  What Postgres decides on its own is the argument \<open>pg\<close>: which statement fails (a lost connection, a
  cancelled context, a value the server refuses), what a commit does when the connection is lost, what the
  conversion to \<open>jsonb\<close> makes of a value, and which of several joined rows an
  \<open>UPDATE ... FROM\<close> uses. No theorem assumes more of it than it states.
\<close>

subsection \<open>What the index package hands to the store\<close>

record s_output =
  soOutPoint :: out_point
  soAddress :: address
  soValueSats :: int
  soContent :: raw_message
  soContentType :: string
  soHeightExact :: bool

record spend =
  spOutPoint :: out_point
  spSource :: hash
  spKind :: in_point_kind
  spVin :: u32

record s_tx =
  stTxid :: hash
  stIndex :: int
  stSizeBytes :: int
  stFeeSats :: int
  stRaw :: bytes

record s_block =
  sbHeight :: u32
  sbHash :: hash
  sbPrevHash :: "hash option"
  sbMerkleRoot :: hash
  sbMainHash :: bitcoin_hash
  sbMainHeight :: "u32 option"
  sbBlockTime :: "int option"
  sbTxs :: "s_tx list"
  sbCreates :: "s_output list"
  sbSpends :: "spend list"

abbreviation create_key :: "s_output \<Rightarrow> bytes" where "create_key o' \<equiv> Key (soOutPoint o')"

abbreviation spend_key :: "spend \<Rightarrow> bytes" where "spend_key s \<equiv> Key (spOutPoint s)"

subsection \<open>Tables\<close>

record block_row =
  brHeight :: int
  brHash :: bytes
  brPrevHash :: "bytes option"
  brMerkleRoot :: bytes
  brMainHash :: bytes
  brMainHeight :: "int option"
  brBlockTime :: "int option"
  brTxCount :: int

record tx_row =
  xrTxid :: bytes
  xrHeight :: int
  xrIndex :: int
  xrSizeBytes :: int
  xrFeeSats :: int
  xrRaw :: bytes

text \<open>The columns that \<open>outputs\<close> and \<open>mempool_outputs\<close> share, then those of a mined output.\<close>

record coin_row =
  orOutpoint :: bytes
  orKind :: out_point_kind
  orSource :: bytes
  orVout :: int
  orAddress :: bytes
  orScripthash :: bytes
  orValueSats :: int
  orContent :: json
  orContentType :: string

record output_row = coin_row +
  orBlockHash :: bytes
  orHeight :: int
  orHeightExact :: bool
  orSpentSource :: "bytes option"
  orSpentKind :: "in_point_kind option"
  orSpentVin :: "int option"
  orSpentHeight :: "int option"

record sync_row =
  ssChain :: string
  ssNetwork :: string
  ssTipHeight :: "int option"
  ssTipHash :: "bytes option"

record mempool_tx_row =
  mrTxid :: bytes
  mrIndex :: int
  mrSizeBytes :: int
  mrFeeSats :: int
  mrRaw :: bytes
  mrFirstSeen :: int

record mempool_spend_row =
  msOutpoint :: bytes
  msSource :: bytes
  msKind :: in_point_kind
  msVin :: int

record db =
  dbBlocks :: "block_row list"
  dbTxs :: "tx_row list"
  dbOutputs :: "output_row list"
  dbSync :: "sync_row option"
  dbMempoolTxs :: "mempool_tx_row list"
  dbMempoolOutputs :: "coin_row list"
  dbMempoolSpends :: "mempool_spend_row list"

definition empty_db :: db where
  "empty_db = \<lparr>dbBlocks = [], dbTxs = [], dbOutputs = [], dbSync = None,
     dbMempoolTxs = [], dbMempoolOutputs = [], dbMempoolSpends = []\<rparr>"

subsection \<open>Statements, faults and transactions\<close>

datatype stmt =
    SBegin | SInsertBlock | SInsertTxs | SInsertOutputs | SMarkSpends | SSetFees
  | SClearTxs | SClearOutputs | SClearSpends | SSetTip
  | SUnspend | SDeleteOutputs | SDeleteBlocks | SReadHash int | SReadTip
  | SReadSync | SInsertSync | SSetMainHeight int
  | SReadSeen | SInsertMempoolTx bytes | SInsertMempoolOutput bytes | SInsertMempoolSpend bytes | SMempoolFees
  | SQuery string

datatype commit_outcome = Committed | Aborted | Lost

record pg =
  pgFault :: "stmt \<Rightarrow> bool"
  pgCommit :: commit_outcome
  pgJsonb :: "json \<Rightarrow> json option"
  pgPick :: "bytes \<Rightarrow> nat"

definition exec :: "pg \<Rightarrow> stmt \<Rightarrow> 'a res \<Rightarrow> 'a res" where
  "exec pg st r = (if pgFault pg st then Inl ErrDatabase else r)"

text \<open>
  \<open>inTx\<close>: the function's error, a failed begin or a failed commit leave the tables as they were. A
  connection lost during the commit leaves the client with an error and the tables committed.
\<close>

definition inTx :: "pg \<Rightarrow> (db \<Rightarrow> ('a \<times> db) res) \<Rightarrow> db \<Rightarrow> 'a res \<times> db" where
  "inTx pg fn d =
     (case exec pg SBegin (fn d) of
        Inl e \<Rightarrow> (Inl e, d)
      | Inr (x, d') \<Rightarrow>
          (case pgCommit pg of
             Committed \<Rightarrow> (Inr x, d')
           | Aborted \<Rightarrow> (Inl ErrDatabase, d)
           | Lost \<Rightarrow> (Inl ErrDatabase, d')))"

text \<open>A statement outside a transaction, which Postgres commits by itself; the answer of it may be lost in the same way.\<close>

definition autocommit :: "pg \<Rightarrow> stmt \<Rightarrow> (db \<Rightarrow> db) \<Rightarrow> db \<Rightarrow> unit res \<times> db" where
  "autocommit pg st f d = inTx (pg\<lparr>pgFault := \<lambda>_. pgFault pg st\<rparr>) (\<lambda>d. Inr ((), f d)) d"

definition no_fault :: "pg \<Rightarrow> bool" where
  "no_fault pg \<longleftrightarrow> (\<forall>st. \<not> pgFault pg st) \<and> pgCommit pg = Committed"

lemma exec_no_fault [simp]: "no_fault pg \<Longrightarrow> exec pg st r = r"
  by (simp add: exec_def no_fault_def)

lemma exec_eq_Inr: "exec pg st r = Inr x \<longleftrightarrow> \<not> pgFault pg st \<and> r = Inr x"
  by (simp add: exec_def)

lemma inTx_no_fault:
  "no_fault pg \<Longrightarrow> inTx pg fn d = (case fn d of Inl e \<Rightarrow> (Inl e, d) | Inr (x, d') \<Rightarrow> (Inr x, d'))"
  by (auto simp: inTx_def no_fault_def exec_def split: sum.splits)

lemma inTx_eq_Inr:
  "inTx pg fn d = (Inr x, d') \<Longrightarrow> fn d = Inr (x, d')"
  by (auto simp: inTx_def exec_def split: sum.splits if_splits commit_outcome.splits)

lemma inTx_cases:
  assumes "inTx pg fn d = (r, d')"
  obtains (untouched) e where "r = Inl e" "d' = d"
    | (complete) x where "fn d = Inr (x, d')" "r = Inr x \<or> r = Inl ErrDatabase"
  using assms by (auto simp: inTx_def exec_def split: sum.splits if_splits commit_outcome.splits)

lemma autocommit_cases:
  assumes "autocommit pg st f d = (r, d')"
  obtains (untouched) "r = Inl ErrDatabase" "d' = d" | (complete) "r = Inr () \<or> r = Inl ErrDatabase" "d' = f d"
  using assms
  by (auto simp: autocommit_def inTx_def exec_def split: if_splits commit_outcome.splits)

lemma autocommit_no_fault: "no_fault pg \<Longrightarrow> autocommit pg st f d = (Inr (), f d)"
  by (simp add: autocommit_def inTx_def exec_def no_fault_def)

subsection \<open>Apply\<close>

definition block_row_of :: "s_block \<Rightarrow> block_row" where
  "block_row_of b =
     \<lparr>brHeight = int32_of_u32 (sbHeight b), brHash = sbHash b, brPrevHash = sbPrevHash b,
      brMerkleRoot = sbMerkleRoot b, brMainHash = sbMainHash b,
      brMainHeight = map_option int32_of_u32 (sbMainHeight b), brBlockTime = sbBlockTime b,
      brTxCount = int32_of (int (length (sbTxs b)))\<rparr>"

definition insertBlock :: "pg \<Rightarrow> s_block \<Rightarrow> db \<Rightarrow> db res" where
  "insertBlock pg b d = exec pg SInsertBlock
     (let r = block_row_of b
      in if brHeight r \<in> brHeight ` set (dbBlocks d) \<or> brHash r \<in> brHash ` set (dbBlocks d)
         then Inl ErrUnique
         else Inr (d\<lparr>dbBlocks := dbBlocks d @ [r]\<rparr>))"

text \<open>\<open>ON CONFLICT (key) DO NOTHING\<close>: a row whose key the table holds, or an earlier row of the same
  statement has, is skipped.\<close>

definition insert_new :: "('r \<Rightarrow> 'k) \<Rightarrow> 'r list \<Rightarrow> 'r list \<Rightarrow> 'r list" where
  "insert_new k rs t = fold (\<lambda>r t. if k r \<in> k ` set t then t else t @ [r]) rs t"

definition tx_row_of :: "u32 \<Rightarrow> s_tx \<Rightarrow> tx_row" where
  "tx_row_of h t =
     \<lparr>xrTxid = stTxid t, xrHeight = int32_of_u32 h, xrIndex = int32_of (stIndex t),
      xrSizeBytes = int32_of (stSizeBytes t), xrFeeSats = stFeeSats t, xrRaw = stRaw t\<rparr>"

definition insertTxs :: "pg \<Rightarrow> s_block \<Rightarrow> db \<Rightarrow> db res" where
  "insertTxs pg b d =
     (if sbTxs b = [] then Inr d
      else exec pg SInsertTxs
        (Inr (d\<lparr>dbTxs := insert_new xrTxid (map (tx_row_of (sbHeight b)) (sbTxs b)) (dbTxs d)\<rparr>)))"

text \<open>A missing content is the empty text, which is not JSON.\<close>

definition to_jsonb :: "pg \<Rightarrow> raw_message \<Rightarrow> json res" where
  "to_jsonb pg c =
     (case c of None \<Rightarrow> Inl ErrJsonSyntax
      | Some j \<Rightarrow> (case pgJsonb pg j of None \<Rightarrow> Inl ErrDatabase | Some j' \<Rightarrow> Inr j'))"

definition output_row_of :: "pg \<Rightarrow> hash \<Rightarrow> u32 \<Rightarrow> s_output \<Rightarrow> output_row res" where
  "output_row_of pg bh h o' =
     bindE (to_jsonb pg (soContent o')) (\<lambda>c. Inr
     \<lparr>orOutpoint = create_key o', orKind = opKind (soOutPoint o'), orSource = opSource (soOutPoint o'),
      orVout = int32_of_u32 (opVout (soOutPoint o')), orAddress = soAddress o',
      orScripthash = ScriptHash (soAddress o'), orValueSats = soValueSats o', orContent = c,
      orContentType = soContentType o', orBlockHash = bh, orHeight = int32_of_u32 h,
      orHeightExact = soHeightExact o', orSpentSource = None, orSpentKind = None, orSpentVin = None,
      orSpentHeight = None\<rparr>)"

text \<open>The unique index \<open>outputs_coinbase_block_idx\<close> covers the coinbase rows only.\<close>

definition same_coinbase :: "output_row \<Rightarrow> output_row \<Rightarrow> bool" where
  "same_coinbase r r' \<longleftrightarrow> orKind r = KindCoinbase \<and> orKind r' = KindCoinbase
     \<and> orBlockHash r = orBlockHash r' \<and> orVout r = orVout r'"

definition insert_output :: "output_row \<Rightarrow> output_row list \<Rightarrow> output_row list res" where
  "insert_output r t =
     (if orOutpoint r \<in> orOutpoint ` set t then Inr t
      else if \<exists>r' \<in> set t. same_coinbase r r' then Inl ErrUnique
      else Inr (t @ [r]))"

definition insertOutputs :: "pg \<Rightarrow> s_block \<Rightarrow> db \<Rightarrow> db res" where
  "insertOutputs pg b d =
     (if sbCreates b = [] then Inr d
      else exec pg SInsertOutputs
        (bindE (mapE (output_row_of pg (sbHash b) (sbHeight b)) (sbCreates b)) (\<lambda>rows.
         bindE (foldE insert_output rows (dbOutputs d)) (\<lambda>t.
           Inr (d\<lparr>dbOutputs := t\<rparr>)))))"

text \<open>The joined row an update uses, out of those that name the output.\<close>

definition pick_spend :: "pg \<Rightarrow> spend list \<Rightarrow> bytes \<Rightarrow> spend option" where
  "pick_spend pg sps k =
     (let c = filter (\<lambda>s. spend_key s = k) sps
      in if c = [] then None else Some (c ! (pgPick pg k mod length c)))"

definition mark_spent :: "int \<Rightarrow> spend \<Rightarrow> output_row \<Rightarrow> output_row" where
  "mark_spent h s r = r\<lparr>orSpentSource := Some (spSource s), orSpentKind := Some (spKind s),
     orSpentVin := Some (int32_of_u32 (spVin s)), orSpentHeight := Some h\<rparr>"

definition mark_row :: "pg \<Rightarrow> spend list \<Rightarrow> int \<Rightarrow> output_row \<Rightarrow> output_row" where
  "mark_row pg sps h r = (case pick_spend pg sps (orOutpoint r) of None \<Rightarrow> r | Some s \<Rightarrow> mark_spent h s r)"

definition applySpends :: "pg \<Rightarrow> s_block \<Rightarrow> db \<Rightarrow> (nat \<times> db) res" where
  "applySpends pg b d =
     (if sbSpends b = [] then Inr (0, d)
      else exec pg SMarkSpends
        (Inr (length (filter (\<lambda>r. orOutpoint r \<in> spend_key ` set (sbSpends b)) (dbOutputs d)),
              d\<lparr>dbOutputs := map (mark_row pg (sbSpends b) (int32_of_u32 (sbHeight b))) (dbOutputs d)\<rparr>)))"

text \<open>\<open>COALESCE(SUM(value_sats), 0)\<close> over the rows of a table that satisfy a condition.\<close>

definition sum_values :: "('z coin_row_scheme \<Rightarrow> bool) \<Rightarrow> 'z coin_row_scheme list \<Rightarrow> int" where
  "sum_values P t = sum_list (map orValueSats (filter P t))"

text \<open>An exact sum that goes to a \<open>BIGINT\<close> column or an \<open>int64\<close> variable.\<close>

definition to_bigint :: "int \<Rightarrow> int res" where
  "to_bigint v = (if - max_int64 - 1 \<le> v \<and> v \<le> max_int64 then Inr v else Inl ErrNumericRange)"

definition fee_of :: "output_row list \<Rightarrow> int \<Rightarrow> bytes \<Rightarrow> int" where
  "fee_of outs h txid =
     max (sum_values (\<lambda>r. orSpentSource r = Some txid \<and> orSpentKind r = Some SpendRegular
            \<and> orSpentHeight r = Some h) outs
          - sum_values (\<lambda>r. orSource r = txid \<and> orKind r = KindRegular \<and> orHeight r = h) outs) 0"

definition set_fee :: "output_row list \<Rightarrow> int \<Rightarrow> tx_row \<Rightarrow> tx_row res" where
  "set_fee outs h t =
     (if xrHeight t = h then bindE (to_bigint (fee_of outs h (xrTxid t))) (\<lambda>v. Inr (t\<lparr>xrFeeSats := v\<rparr>))
      else Inr t)"

definition setFees :: "pg \<Rightarrow> u32 \<Rightarrow> db \<Rightarrow> db res" where
  "setFees pg h d = exec pg SSetFees
     (bindE (mapE (set_fee (dbOutputs d) (int32_of_u32 h)) (dbTxs d)) (\<lambda>txs. Inr (d\<lparr>dbTxs := txs\<rparr>)))"

text \<open>A delete runs only when the block names a key for it.\<close>

definition clear_when :: "pg \<Rightarrow> stmt \<Rightarrow> bytes list \<Rightarrow> (db \<Rightarrow> db) \<Rightarrow> db \<Rightarrow> db res" where
  "clear_when pg st keys del d = (if keys = [] then Inr d else exec pg st (Inr (del d)))"

definition clearMempool :: "pg \<Rightarrow> s_block \<Rightarrow> db \<Rightarrow> db res" where
  "clearMempool pg b d =
     (let txids = map stTxid (sbTxs b); creates = map create_key (sbCreates b);
          spends = map spend_key (sbSpends b)
      in bindE (clear_when pg SClearTxs txids
            (\<lambda>d. d\<lparr>dbMempoolTxs := filter (\<lambda>r. mrTxid r \<notin> set txids) (dbMempoolTxs d)\<rparr>) d) (\<lambda>d.
         bindE (clear_when pg SClearOutputs creates
            (\<lambda>d. d\<lparr>dbMempoolOutputs := filter (\<lambda>r. orOutpoint r \<notin> set creates) (dbMempoolOutputs d)\<rparr>) d) (\<lambda>d.
         clear_when pg SClearSpends spends
            (\<lambda>d. d\<lparr>dbMempoolSpends := filter (\<lambda>r. msOutpoint r \<notin> set spends) (dbMempoolSpends d)\<rparr>) d)))"

text \<open>\<open>UPDATE sync_state ... WHERE id = 1\<close> changes nothing while the row is missing.\<close>

definition update_tip :: "int option \<Rightarrow> bytes option \<Rightarrow> db \<Rightarrow> db" where
  "update_tip h hash d =
     d\<lparr>dbSync := map_option (\<lambda>s. s\<lparr>ssTipHeight := h, ssTipHash := hash\<rparr>) (dbSync d)\<rparr>"

definition setTip :: "pg \<Rightarrow> u32 \<Rightarrow> hash \<Rightarrow> db \<Rightarrow> db res" where
  "setTip pg h hash d = exec pg SSetTip (Inr (update_tip (Some (int32_of_u32 h)) (Some hash) d))"

text \<open>The result is \<open>UnknownSpends\<close>, a Go \<open>int\<close>.\<close>

definition apply_tx :: "pg \<Rightarrow> s_block \<Rightarrow> db \<Rightarrow> (int \<times> db) res" where
  "apply_tx pg b d =
     bindE (insertBlock pg b d) (\<lambda>d.
     bindE (insertTxs pg b d) (\<lambda>d.
     bindE (insertOutputs pg b d) (\<lambda>d.
     bindE (applySpends pg b d) (\<lambda>(applied, d).
     bindE (setFees pg (sbHeight b) d) (\<lambda>d.
     bindE (clearMempool pg b d) (\<lambda>d.
     bindE (setTip pg (sbHeight b) (sbHash b) d) (\<lambda>d.
       Inr (int (length (sbSpends b)) - int applied, d))))))))"

definition Apply :: "pg \<Rightarrow> s_block \<Rightarrow> db \<Rightarrow> int res \<times> db" where
  "Apply pg b d = inTx pg (apply_tx pg b) d"

subsection \<open>Rollback\<close>

definition unspend :: "int \<Rightarrow> output_row \<Rightarrow> output_row" where
  "unspend h r =
     (case orSpentHeight r of
        Some sh \<Rightarrow> if h < sh then r\<lparr>orSpentSource := None, orSpentKind := None, orSpentVin := None,
                                   orSpentHeight := None\<rparr> else r
      | None \<Rightarrow> r)"

definition unspend_above :: "int \<Rightarrow> db \<Rightarrow> db" where
  "unspend_above h d = d\<lparr>dbOutputs := map (unspend h) (dbOutputs d)\<rparr>"

definition delete_outputs_above :: "int \<Rightarrow> db \<Rightarrow> db" where
  "delete_outputs_above h d = d\<lparr>dbOutputs := filter (\<lambda>r. orHeight r \<le> h) (dbOutputs d)\<rparr>"

text \<open>The foreign key of \<open>txs\<close> is \<open>ON DELETE CASCADE\<close>: a transaction goes with its block.\<close>

definition delete_blocks_above :: "int \<Rightarrow> db \<Rightarrow> db" where
  "delete_blocks_above h d =
     (let gone = brHeight ` set (filter (\<lambda>r. h < brHeight r) (dbBlocks d))
      in d\<lparr>dbBlocks := filter (\<lambda>r. brHeight r \<le> h) (dbBlocks d),
           dbTxs := filter (\<lambda>t. xrHeight t \<notin> gone) (dbTxs d)\<rparr>)"

definition select_hash :: "int \<Rightarrow> db \<Rightarrow> bytes option" where
  "select_hash h d = map_option brHash (find (\<lambda>r. brHeight r = h) (dbBlocks d))"

definition rollback_tx :: "pg \<Rightarrow> u32 \<Rightarrow> db \<Rightarrow> (unit \<times> db) res" where
  "rollback_tx pg height d =
     (let h = int32_of_u32 height in
     bindE (exec pg SUnspend (Inr (unspend_above h d))) (\<lambda>d.
     bindE (exec pg SDeleteOutputs (Inr (delete_outputs_above h d))) (\<lambda>d.
     bindE (exec pg SDeleteBlocks (Inr (delete_blocks_above h d))) (\<lambda>d.
     bindE (exec pg (SReadHash h) (Inr (select_hash h d))) (\<lambda>found.
     bindE (exec pg SSetTip (Inr (case found of
         None \<Rightarrow> update_tip None None d
       | Some hash \<Rightarrow> update_tip (Some h) (Some hash) d))) (\<lambda>d.
       Inr ((), d)))))))"

definition Rollback :: "pg \<Rightarrow> u32 \<Rightarrow> db \<Rightarrow> unit res \<times> db" where
  "Rollback pg height d = inTx pg (rollback_tx pg height) d"

subsection \<open>Tip, hash and chain of the index\<close>

text \<open>A missing row is an error of \<open>Scan\<close>; a missing or short tip is no tip.\<close>

definition Tip :: "pg \<Rightarrow> db \<Rightarrow> (u32 \<times> hash) option res" where
  "Tip pg d = exec pg SReadTip
     (case dbSync d of
        None \<Rightarrow> Inl ErrNoRows
      | Some s \<Rightarrow> (case (ssTipHeight s, ssTipHash s) of
          (Some h, Some raw) \<Rightarrow>
             Inr (if length raw = 32 then Some (u32_of_int32 h, copy_into 32 raw) else None)
        | _ \<Rightarrow> Inr None))"

definition HashAt :: "pg \<Rightarrow> u32 \<Rightarrow> db \<Rightarrow> hash option res" where
  "HashAt pg height d = exec pg (SReadHash (int32_of_u32 height))
     (Inr (map_option (copy_into 32) (select_hash (int32_of_u32 height) d)))"

definition init_tx :: "pg \<Rightarrow> string \<Rightarrow> network \<Rightarrow> db \<Rightarrow> (unit \<times> db) res" where
  "init_tx pg chainName network d =
     bindE (exec pg SReadSync (Inr (dbSync d))) (\<lambda>have'.
       case have' of
         None \<Rightarrow> exec pg SInsertSync
           (Inr ((), d\<lparr>dbSync := Some \<lparr>ssChain = chainName, ssNetwork = network,
                                       ssTipHeight = None, ssTipHash = None\<rparr>\<rparr>))
       | Some s \<Rightarrow> if ssChain s \<noteq> chainName \<or> ssNetwork s \<noteq> network then Inl ErrOtherChain
                    else Inr ((), d))"

definition Init :: "pg \<Rightarrow> string \<Rightarrow> network \<Rightarrow> db \<Rightarrow> unit res \<times> db" where
  "Init pg chainName network d = inTx pg (init_tx pg chainName network) d"

definition SetMainHeight :: "pg \<Rightarrow> u32 \<Rightarrow> u32 \<Rightarrow> db \<Rightarrow> unit res \<times> db" where
  "SetMainHeight pg height mainHeight = autocommit pg (SSetMainHeight (int32_of_u32 height))
     (\<lambda>d. d\<lparr>dbBlocks := map (\<lambda>r. if brHeight r = int32_of_u32 height
        then r\<lparr>brMainHeight := Some (int32_of_u32 mainHeight)\<rparr> else r) (dbBlocks d)\<rparr>)"

end
