(* ===== verification/Prepare.thy ===== *)
theory Prepare
  imports Store Registry
begin

text \<open>
  From a node's block to the rows of the index: \<open>internal/index/prepare.go\<close>. \<open>blake3\<close> hashes the
  coinbase txid and \<open>dec\<close> is the chain's decoder, which the code reaches through the
  \<open>chain.Decoder\<close> interface; the properties hold for every decoder that satisfies the contract
  \<open>output_decoder\<close>. A Go \<open>int\<close> position becomes a \<open>uint32\<close> by truncation, and
  \<open>int(info.Size)\<close> reads a \<open>uint64\<close> as signed.
\<close>

definition newOutput :: "out_point \<Rightarrow> tx_output \<Rightarrow> decoder \<Rightarrow> bool \<Rightarrow> s_output res" where
  "newOutput outpoint output dec heightExact =
     bindE (dec (outContent output)) (\<lambda>c. Inr
       \<lparr>soOutPoint = outpoint, soAddress = outAddress output, soValueSats = coValueSats c,
        soContent = outContent output, soContentType = coType c, soHeightExact = heightExact\<rparr>)"

record tx_rows =
  trwSpends :: "spend list"
  trwCreates :: "s_output list"

definition regular_out_point :: "hash \<Rightarrow> nat \<Rightarrow> out_point" where
  "regular_out_point txid i = \<lparr>opKind = KindRegular, opSource = txid, opVout = of_nat i\<rparr>"

definition prepareTx :: "hash \<Rightarrow> transaction \<Rightarrow> decoder \<Rightarrow> tx_rows res" where
  "prepareTx txid tx dec =
     bindE (mapE (\<lambda>(i, output). newOutput (regular_out_point txid i) output dec True) (indexed (trOutputs tx)))
       (\<lambda>creates. Inr
         \<lparr>trwSpends = map (\<lambda>(vin, input). \<lparr>spOutPoint = inOutPoint input, spSource = txid,
              spKind = SpendRegular, spVin = of_nat vin\<rparr>) (indexed (trInputs tx)),
          trwCreates = creates\<rparr>)"

text \<open>The rows of the transactions: a skipped one keeps its row and neither spends nor creates.\<close>

definition prepare_txs :: "transaction list \<Rightarrow> tx_info list \<Rightarrow> decoder \<Rightarrow> tx_rows list res" where
  "prepare_txs txs infos dec =
     mapE (\<lambda>(tx, info). if tiSkipped info then Inr \<lparr>trwSpends = [], trwCreates = []\<rparr>
                         else prepareTx (tiTxid info) tx dec) (zip txs infos)"

definition tx_of_info :: "nat \<times> tx_info \<Rightarrow> s_tx" where
  "tx_of_info p = (case p of (i, info) \<Rightarrow>
     \<lparr>stTxid = tiTxid info, stIndex = int i, stSizeBytes = sint (tiSize info), stFeeSats = 0, stRaw = tiRaw info\<rparr>)"

definition prepare_coinbase :: "(bytes \<Rightarrow> hash) \<Rightarrow> block \<Rightarrow> decoder \<Rightarrow> s_output list res" where
  "prepare_coinbase blake3 b dec =
     mapE (\<lambda>(i, output). newOutput
         \<lparr>opKind = KindCoinbase, opSource = CoinbaseSource blake3 b, opVout = of_nat i\<rparr> output dec True)
       (indexed (cbOutputs (bdCoinbase (bkBody b))))"

definition prepare_deposits :: "deposit list \<Rightarrow> decoder \<Rightarrow> s_output list res" where
  "prepare_deposits ds dec =
     mapE (\<lambda>d. if opKind (dpOutPoint d) \<noteq> KindDeposit then Inl (ErrNotDeposit (opKind (dpOutPoint d)))
                else newOutput (dpOutPoint d) (dpOutput d) dec True) ds"

definition bundle_spends :: "bundle_spend list \<Rightarrow> spend list" where
  "bundle_spends bs = map (\<lambda>(vin, s). \<lparr>spOutPoint = bnOutPoint s, spSource = bnM6id s,
     spKind = SpendWithdrawal, spVin = of_nat vin\<rparr>) (indexed bs)"

definition prepare_market :: "market_utxo list \<Rightarrow> decoder \<Rightarrow> s_output list res" where
  "prepare_market ms dec = mapE (\<lambda>m. newOutput (muOutPoint m) (muOutput m) dec True) ms"

definition market_spends :: "hash \<Rightarrow> market_utxo list \<Rightarrow> spend list" where
  "market_spends hash ms = map (\<lambda>(vin, m). \<lparr>spOutPoint = muOutPoint m, spSource = hash,
     spKind = SpendMarket, spVin = of_nat vin\<rparr>) (indexed ms)"

definition Prepare :: "(bytes \<Rightarrow> hash) \<Rightarrow> u32 \<Rightarrow> hash \<Rightarrow> block \<Rightarrow> block_index \<Rightarrow> decoder \<Rightarrow> int option \<Rightarrow> s_block res" where
  "Prepare blake3 height hash b bi dec blockTime =
     (if length (biTxs bi) \<noteq> length (bdTransactions (bkBody b))
      then Inl (ErrTxCount (length (bdTransactions (bkBody b))) (length (biTxs bi)))
      else bindE (prepare_coinbase blake3 b dec) (\<lambda>coinbaseRows.
           bindE (prepare_txs (bdTransactions (bkBody b)) (biTxs bi) dec) (\<lambda>txRows.
           bindE (prepare_deposits (biDeposits bi) dec) (\<lambda>depositRows.
           bindE (prepare_market (biMarketCreates bi) dec) (\<lambda>marketRows. Inr
             \<lparr>sbHeight = height, sbHash = hash, sbPrevHash = hPrevSideHash (bkHeader b),
              sbMerkleRoot = hMerkleRoot (bkHeader b), sbMainHash = hPrevMainHash (bkHeader b),
              sbMainHeight = None, sbBlockTime = blockTime,
              sbTxs = map tx_of_info (indexed (biTxs bi)),
              sbCreates = coinbaseRows @ concat (map trwCreates txRows) @ depositRows @ marketRows,
              sbSpends = concat (map trwSpends txRows) @ bundle_spends (biBundleSpends bi)
                           @ market_spends hash (biMarketDeletes bi)\<rparr>)))))"

record s_mempool_tx =
  smTxid :: hash
  smIndex :: int
  smSizeBytes :: int
  smRaw :: bytes

record s_mempool =
  smTxs :: "s_mempool_tx list"
  smCreates :: "s_output list"
  smSpends :: "spend list"

definition PrepareMempool :: "mempool_tx list \<Rightarrow> decoder \<Rightarrow> s_mempool res" where
  "PrepareMempool txs dec =
     bindE (mapE (\<lambda>entry. prepareTx (tiTxid entry) (mtTx entry) dec) txs) (\<lambda>rows. Inr
       \<lparr>smTxs = map (\<lambda>(i, entry). \<lparr>smTxid = tiTxid entry, smIndex = int i,
            smSizeBytes = sint (tiSize entry), smRaw = tiRaw entry\<rparr>) (indexed txs),
        smCreates = concat (map trwCreates rows), smSpends = concat (map trwSpends rows)\<rparr>)"

subsection \<open>Facts on the rows\<close>

lemma newOutput_Inr:
  assumes "newOutput p output dec ex = Inr row"
  shows "soOutPoint row = p" and "soAddress row = outAddress output" and "soContent row = outContent output"
    and "soHeightExact row = ex"
    and "\<exists>c. dec (outContent output) = Inr c \<and> soValueSats row = coValueSats c \<and> soContentType row = coType c"
  using assms by (auto simp: newOutput_def bindE_eq_Inr)

text \<open>The outpoints a block creates, in the order of the rows.\<close>

definition tx_out_points :: "transaction \<times> tx_info \<Rightarrow> out_point list" where
  "tx_out_points p = (case p of (tx, info) \<Rightarrow>
     if tiSkipped info then [] else map (regular_out_point (tiTxid info)) [0..<length (trOutputs tx)])"

definition coinbase_out_points :: "(bytes \<Rightarrow> hash) \<Rightarrow> block \<Rightarrow> out_point list" where
  "coinbase_out_points blake3 b =
     map (\<lambda>i. \<lparr>opKind = KindCoinbase, opSource = CoinbaseSource blake3 b, opVout = of_nat i\<rparr>)
       [0..<length (cbOutputs (bdCoinbase (bkBody b)))]"

definition created_out_points :: "(bytes \<Rightarrow> hash) \<Rightarrow> block \<Rightarrow> block_index \<Rightarrow> out_point list" where
  "created_out_points blake3 b bi =
     coinbase_out_points blake3 b
     @ concat (map tx_out_points (zip (bdTransactions (bkBody b)) (biTxs bi)))
     @ map dpOutPoint (biDeposits bi) @ map muOutPoint (biMarketCreates bi)"

definition tx_spent_out_points :: "transaction \<times> tx_info \<Rightarrow> out_point list" where
  "tx_spent_out_points p = (case p of (tx, info) \<Rightarrow>
     if tiSkipped info then [] else map inOutPoint (trInputs tx))"

definition spent_out_points :: "block \<Rightarrow> block_index \<Rightarrow> out_point list" where
  "spent_out_points b bi =
     concat (map tx_spent_out_points (zip (bdTransactions (bkBody b)) (biTxs bi)))
     @ map bnOutPoint (biBundleSpends bi) @ map muOutPoint (biMarketDeletes bi)"

lemma map_indexed_fst: "map (\<lambda>(i, x). f i) (indexed xs) = map f [0..<length xs]"
  by (rule nth_equalityI) simp_all

lemma map_indexed_snd: "map (\<lambda>(i, x). f x) (indexed xs) = map f xs"
  by (rule nth_equalityI) simp_all

lemma mapE_newOutput_points:
  assumes "mapE (\<lambda>(i, output). newOutput (p i) output dec ex) (indexed outs) = Inr rows"
  shows "map soOutPoint rows = map p [0..<length outs]"
proof -
  have "map soOutPoint rows = map (\<lambda>(i, x). p i) (indexed outs)"
    by (rule mapE_map_eq [OF assms]) (auto dest: newOutput_Inr(1))
  then show ?thesis by (simp add: map_indexed_fst)
qed

lemma prepareTx_Inr:
  assumes "prepareTx txid tx dec = Inr rows"
  shows "map soOutPoint (trwCreates rows) = map (regular_out_point txid) [0..<length (trOutputs tx)]"
    and "map spOutPoint (trwSpends rows) = map inOutPoint (trInputs tx)"
    and "\<forall>s \<in> set (trwSpends rows). spSource s = txid \<and> spKind s = SpendRegular"
proof -
  obtain creates where c: "mapE (\<lambda>(i, output). newOutput (regular_out_point txid i) output dec True)
      (indexed (trOutputs tx)) = Inr creates" and rows: "rows =
      \<lparr>trwSpends = map (\<lambda>(vin, input). \<lparr>spOutPoint = inOutPoint input, spSource = txid,
              spKind = SpendRegular, spVin = of_nat vin\<rparr>) (indexed (trInputs tx)), trwCreates = creates\<rparr>"
    using assms by (auto simp: prepareTx_def bindE_eq_Inr)
  show "map soOutPoint (trwCreates rows) = map (regular_out_point txid) [0..<length (trOutputs tx)]"
    using mapE_newOutput_points [OF c] by (simp add: rows)
  show "map spOutPoint (trwSpends rows) = map inOutPoint (trInputs tx)"
    by (simp add: rows comp_def split_def flip: map_indexed_snd [of inOutPoint])
  show "\<forall>s \<in> set (trwSpends rows). spSource s = txid \<and> spKind s = SpendRegular" by (auto simp: rows)
qed

lemma prepare_txs_Inr:
  assumes "prepare_txs txs infos dec = Inr rows"
  shows "map (\<lambda>r. map soOutPoint (trwCreates r)) rows = map tx_out_points (zip txs infos)"
    and "map (\<lambda>r. map spOutPoint (trwSpends r)) rows = map tx_spent_out_points (zip txs infos)"
proof -
  note rows = assms [unfolded prepare_txs_def]
  show "map (\<lambda>r. map soOutPoint (trwCreates r)) rows = map tx_out_points (zip txs infos)"
    by (rule mapE_map_eq [OF rows]) (auto simp: tx_out_points_def dest: prepareTx_Inr(1) split: if_splits)
  show "map (\<lambda>r. map spOutPoint (trwSpends r)) rows = map tx_spent_out_points (zip txs infos)"
    by (rule mapE_map_eq [OF rows]) (auto simp: tx_spent_out_points_def dest: prepareTx_Inr(2) split: if_splits)
qed

text \<open>Everything \<open>Prepare\<close> gives when it succeeds.\<close>

lemma Prepare_Inr:
  assumes "Prepare blake3 height hash b bi dec bt = Inr w"
  obtains cb txs dep mk where
    "length (biTxs bi) = length (bdTransactions (bkBody b))"
    "prepare_coinbase blake3 b dec = Inr cb" "prepare_txs (bdTransactions (bkBody b)) (biTxs bi) dec = Inr txs"
    "prepare_deposits (biDeposits bi) dec = Inr dep" "prepare_market (biMarketCreates bi) dec = Inr mk"
    "sbHeight w = height" "sbHash w = hash" "sbTxs w = map tx_of_info (indexed (biTxs bi))"
    "sbCreates w = cb @ concat (map trwCreates txs) @ dep @ mk"
    "sbSpends w = concat (map trwSpends txs) @ bundle_spends (biBundleSpends bi) @ market_spends hash (biMarketDeletes bi)"
  using assms by (auto simp: Prepare_def bindE_eq_Inr split: if_splits)

lemma prepare_coinbase_points:
  "prepare_coinbase blake3 b dec = Inr cb \<Longrightarrow> map soOutPoint cb = coinbase_out_points blake3 b"
  unfolding prepare_coinbase_def coinbase_out_points_def by (rule mapE_newOutput_points)

lemma prepare_deposits_points:
  assumes "prepare_deposits ds dec = Inr dep"
  shows "map soOutPoint dep = map dpOutPoint ds" and "\<forall>d \<in> set ds. opKind (dpOutPoint d) = KindDeposit"
proof -
  note rows = assms [unfolded prepare_deposits_def]
  show "map soOutPoint dep = map dpOutPoint ds"
    by (rule mapE_map_eq [OF rows]) (auto dest: newOutput_Inr(1) split: if_splits)
  from rows show "\<forall>d \<in> set ds. opKind (dpOutPoint d) = KindDeposit"
    by (induction ds arbitrary: dep) (auto simp: bindE_eq_Inr split: if_splits)
qed

lemma prepare_market_points:
  "prepare_market ms dec = Inr mk \<Longrightarrow> map soOutPoint mk = map muOutPoint ms"
  unfolding prepare_market_def by (erule mapE_map_eq) (rule newOutput_Inr(1))

lemma other_spend_points:
  "map spOutPoint (bundle_spends bs) = map bnOutPoint bs"
  "map spOutPoint (market_spends hash ms) = map muOutPoint ms"
  by (simp_all add: bundle_spends_def market_spends_def comp_def split_def
      flip: map_indexed_snd [of bnOutPoint] map_indexed_snd [of muOutPoint])

lemma Prepare_points:
  assumes "Prepare blake3 height hash b bi dec bt = Inr w"
  shows "map soOutPoint (sbCreates w) = created_out_points blake3 b bi"
    and "map spOutPoint (sbSpends w) = spent_out_points b bi"
proof -
  obtain cb txs dep mk where
    p: "prepare_coinbase blake3 b dec = Inr cb" "prepare_txs (bdTransactions (bkBody b)) (biTxs bi) dec = Inr txs"
    "prepare_deposits (biDeposits bi) dec = Inr dep" "prepare_market (biMarketCreates bi) dec = Inr mk"
    and w: "sbCreates w = cb @ concat (map trwCreates txs) @ dep @ mk"
    "sbSpends w = concat (map trwSpends txs) @ bundle_spends (biBundleSpends bi) @ market_spends hash (biMarketDeletes bi)"
    using assms by (rule Prepare_Inr)
  show "map soOutPoint (sbCreates w) = created_out_points blake3 b bi"
    using prepare_txs_Inr(1) [OF p(2)]
    by (simp add: w created_out_points_def map_concat comp_def prepare_coinbase_points [OF p(1)]
        prepare_deposits_points [OF p(3)] prepare_market_points [OF p(4)])
  show "map spOutPoint (sbSpends w) = spent_out_points b bi"
    using prepare_txs_Inr(2) [OF p(2)]
    by (simp add: w spent_out_points_def map_concat comp_def other_spend_points)
qed

text \<open>What a decoder that keeps its contract gives.\<close>

context output_decoder
begin

lemma newOutput_range: "newOutput p output decode ex = Inr row \<Longrightarrow> 0 \<le> soValueSats row \<and> soValueSats row \<le> max_int64"
  using value_range by (auto dest: newOutput_Inr(5))

lemma prepareTx_range:
  "prepareTx txid tx decode = Inr rows \<Longrightarrow> r \<in> set (trwCreates rows) \<Longrightarrow> 0 \<le> soValueSats r \<and> soValueSats r \<le> max_int64"
  by (auto simp: prepareTx_def bindE_eq_Inr dest!: mapE_setD dest: newOutput_range)

lemma Prepare_range:
  assumes "Prepare blake3 height hash b bi decode bt = Inr w" and "r \<in> set (sbCreates w)"
  shows "0 \<le> soValueSats r \<and> soValueSats r \<le> max_int64"
  using assms(1)
proof (rule Prepare_Inr)
  fix cb txs dep mk
  assume rows: "prepare_coinbase blake3 b decode = Inr cb"
    "prepare_txs (bdTransactions (bkBody b)) (biTxs bi) decode = Inr txs"
    "prepare_deposits (biDeposits bi) decode = Inr dep" "prepare_market (biMarketCreates bi) decode = Inr mk"
    and w: "sbCreates w = cb @ concat (map trwCreates txs) @ dep @ mk"
  consider "r \<in> set cb" | rs where "rs \<in> set txs" "r \<in> set (trwCreates rs)" | "r \<in> set dep" | "r \<in> set mk"
    using assms(2) w by auto
  then show ?thesis
    using rows unfolding prepare_coinbase_def prepare_txs_def prepare_deposits_def prepare_market_def
    by cases (auto dest!: mapE_setD dest: newOutput_range prepareTx_range split: if_splits)
qed

end

subsection \<open>Success and distinct outpoints\<close>

lemma mapE_ex_Inr: "(\<exists>ys. mapE f xs = Inr ys) \<longleftrightarrow> (\<forall>x \<in> set xs. \<exists>y. f x = Inr y)"
  by (induction xs) (auto simp: bindE_eq_Inr)

text \<open>The outputs whose payload a block asks the decoder to read.\<close>

definition decoded_outputs :: "block \<Rightarrow> block_index \<Rightarrow> tx_output list" where
  "decoded_outputs b bi =
     cbOutputs (bdCoinbase (bkBody b))
     @ concat (map (\<lambda>(tx, info). if tiSkipped info then [] else trOutputs tx)
                 (zip (bdTransactions (bkBody b)) (biTxs bi)))
     @ map dpOutput (biDeposits bi) @ map muOutput (biMarketCreates bi)"

definition decodes :: "decoder \<Rightarrow> tx_output \<Rightarrow> bool" where
  "decodes dec o' \<longleftrightarrow> (\<exists>c. dec (outContent o') = Inr c)"

lemma newOutput_ex: "(\<exists>row. newOutput p o' dec ex = Inr row) \<longleftrightarrow> decodes dec o'"
  by (auto simp: newOutput_def decodes_def bindE_eq_Inr)

lemma indexed_ex:
  "(\<exists>rows. mapE (\<lambda>(i, o'). newOutput (p i) o' dec ex) (indexed outs) = Inr rows) \<longleftrightarrow> (\<forall>o' \<in> set outs. decodes dec o')"
proof -
  have "(\<forall>x \<in> set (indexed outs). \<exists>y. (\<lambda>(i, o'). newOutput (p i) o' dec ex) x = Inr y)
      \<longleftrightarrow> (\<forall>x \<in> set (indexed outs). decodes dec (snd x))"
    by (simp only: split_def newOutput_ex)
  also have "\<dots> \<longleftrightarrow> (\<forall>o' \<in> set (map snd (indexed outs)). decodes dec o')" by (simp only: set_map ball_simps)
  finally show ?thesis by (simp only: mapE_ex_Inr map_snd_indexed)
qed

lemma prepareTx_ex: "(\<exists>rows. prepareTx txid tx dec = Inr rows) \<longleftrightarrow> (\<forall>o' \<in> set (trOutputs tx). decodes dec o')"
  unfolding prepareTx_def using indexed_ex [of "regular_out_point txid" dec True "trOutputs tx"]
  by (auto simp: bindE_eq_Inr)

lemma prepare_ex:
  "(\<exists>r. prepare_coinbase blake3 b dec = Inr r) \<longleftrightarrow> (\<forall>o' \<in> set (cbOutputs (bdCoinbase (bkBody b))). decodes dec o')"
  "(\<exists>r. prepare_txs txs infos dec = Inr r) \<longleftrightarrow>
     (\<forall>(tx, info) \<in> set (zip txs infos). \<not> tiSkipped info \<longrightarrow> (\<forall>o' \<in> set (trOutputs tx). decodes dec o'))"
  "(\<exists>r. prepare_deposits ds dec = Inr r) \<longleftrightarrow>
     (\<forall>d \<in> set ds. opKind (dpOutPoint d) = KindDeposit \<and> decodes dec (dpOutput d))"
  "(\<exists>r. prepare_market ms dec = Inr r) \<longleftrightarrow> (\<forall>m \<in> set ms. decodes dec (muOutput m))"
proof -
  have "(\<exists>y. (case p of (tx, info) \<Rightarrow> if tiSkipped info then Inr \<lparr>trwSpends = [], trwCreates = []\<rparr>
            else prepareTx (tiTxid info) tx dec) = Inr y)
      \<longleftrightarrow> (case p of (tx, info) \<Rightarrow> \<not> tiSkipped info \<longrightarrow> (\<forall>o' \<in> set (trOutputs tx). decodes dec o'))" for p :: "transaction \<times> tx_info"
    by (cases p) (simp add: prepareTx_ex)
  then show "(\<exists>r. prepare_txs txs infos dec = Inr r) \<longleftrightarrow>
     (\<forall>(tx, info) \<in> set (zip txs infos). \<not> tiSkipped info \<longrightarrow> (\<forall>o' \<in> set (trOutputs tx). decodes dec o'))"
    by (simp only: prepare_txs_def mapE_ex_Inr)
qed (auto simp: prepare_coinbase_def prepare_deposits_def prepare_market_def mapE_ex_Inr newOutput_ex
      indexed_ex [unfolded mapE_ex_Inr])

lemma distinct_regular:
  assumes "n \<le> 2 ^ 32"
  shows "distinct (map (regular_out_point txid) [0..<n])"
    and "distinct (map (\<lambda>i. \<lparr>opKind = k, opSource = s, opVout = of_nat i\<rparr>) [0..<n])"
proof -
  have "i = j" if "i < n" "j < n" "(of_nat i :: u32) = of_nat j" for i j
  proof -
    have "unat (of_nat i :: u32) = i" "unat (of_nat j :: u32) = j"
      using that(1,2) assms by (simp_all add: unat_of_nat)
    then show ?thesis using that(3) by metis
  qed
  then show "distinct (map (regular_out_point txid) [0..<n])"
    and "distinct (map (\<lambda>i. \<lparr>opKind = k, opSource = s, opVout = of_nat i\<rparr>) [0..<n])"
    by (auto simp: distinct_map inj_on_def regular_out_point_def)
qed

lemma distinct_by_kind:
  assumes "distinct cs" "distinct ts" "distinct ds" "distinct ms"
    and "\<forall>p \<in> set cs. opKind p = KindCoinbase" "\<forall>p \<in> set ts. opKind p = KindRegular"
      "\<forall>p \<in> set ds. opKind p = KindDeposit" "\<forall>p \<in> set ms. opKind p = KindMarketFunds \<or> opKind p = KindPayout"
  shows "distinct (cs @ ts @ ds @ ms)"
proof -
  have "set ds \<inter> set ms = {}" "set ts \<inter> set ds = {}" "set ts \<inter> set ms = {}"
    "set cs \<inter> set ts = {}" "set cs \<inter> set ds = {}" "set cs \<inter> set ms = {}"
    using assms(5-8) by force+
  then show ?thesis using assms(1-4) by (simp add: Int_Un_distrib)
qed

lemma tx_out_points_source: "p \<in> set (tx_out_points (tx, info)) \<Longrightarrow> opKind p = KindRegular \<and> opSource p = tiTxid info \<and> \<not> tiSkipped info"
  by (auto simp: tx_out_points_def regular_out_point_def split: if_splits)

lemma concat_tx_kind: "p \<in> set (concat (map tx_out_points ps)) \<Longrightarrow> opKind p = KindRegular"
proof (induction ps)
  case (Cons q ps)
  then show ?case using tx_out_points_source by (cases q) auto
qed simp

lemma distinct_tx_out_points:
  assumes "distinct (map tiTxid (filter (\<lambda>i. \<not> tiSkipped i) (map snd ps)))"
    and "\<forall>(tx, info) \<in> set ps. length (trOutputs tx) \<le> 2 ^ 32"
  shows "distinct (concat (map tx_out_points ps))"
  using assms
proof (induction ps)
  case (Cons p ps)
  obtain tx info where p: "p = (tx, info)" by force
  have "q \<notin> set (tx_out_points p)" if others: "q \<in> set (concat (map tx_out_points ps))" for q
  proof
    assume q: "q \<in> set (tx_out_points p)"
    obtain tx' info' where "(tx', info') \<in> set ps" "q \<in> set (tx_out_points (tx', info'))"
      using others by auto
    then have "info' \<in> set (map snd ps)" "\<not> tiSkipped info'" "opSource q = tiTxid info'"
      by (force dest: tx_out_points_source)+
    then have "opSource q \<in> tiTxid ` set (filter (\<lambda>i. \<not> tiSkipped i) (map snd ps))" by simp
    moreover have "opSource q = tiTxid info" "\<not> tiSkipped info" using q by (auto simp: p dest: tx_out_points_source)
    ultimately show False using Cons.prems(1) by (simp add: p)
  qed
  moreover have "distinct (tx_out_points p)"
    using Cons.prems(2) by (auto simp: p tx_out_points_def intro: distinct_regular)
  ultimately show ?case using Cons by (auto split: if_splits)
qed simp

subsection \<open>Properties\<close>


text \<open>
  C15. \<open>Prepare\<close> succeeds exactly when it should: the block index names as many transactions as the
  body holds, every deposit has a deposit outpoint, and the decoder reads the payload of every coinbase
  output, of every output of a transaction that is not skipped, of every deposit and of every market coin.
\<close>

theorem Prepare_succeeds_iff:
  "(\<exists>w. Prepare blake3 height hash b bi dec blockTime = Inr w) \<longleftrightarrow>
     length (biTxs bi) = length (bdTransactions (bkBody b))
     \<and> (\<forall>d \<in> set (biDeposits bi). opKind (dpOutPoint d) = KindDeposit)
     \<and> (\<forall>o' \<in> set (decoded_outputs b bi). decodes dec o')"
proof -
  have "(\<exists>w. Prepare blake3 height hash b bi dec blockTime = Inr w) \<longleftrightarrow>
      length (biTxs bi) = length (bdTransactions (bkBody b))
      \<and> (\<exists>r. prepare_coinbase blake3 b dec = Inr r)
      \<and> (\<exists>r. prepare_txs (bdTransactions (bkBody b)) (biTxs bi) dec = Inr r)
      \<and> (\<exists>r. prepare_deposits (biDeposits bi) dec = Inr r) \<and> (\<exists>r. prepare_market (biMarketCreates bi) dec = Inr r)"
    by (auto simp: Prepare_def bindE_eq_Inr)
  moreover have "(\<forall>o' \<in> set (concat (map (\<lambda>(tx, info). if tiSkipped info then [] else trOutputs tx) ps)). decodes dec o')
      \<longleftrightarrow> (\<forall>(tx, info) \<in> set ps. \<not> tiSkipped info \<longrightarrow> (\<forall>o' \<in> set (trOutputs tx). decodes dec o'))" for ps :: "(transaction \<times> tx_info) list"
  proof (induction ps)
    case (Cons p ps)
    then show ?case by (cases p) (simp only: list.map concat.simps set_append ball_Un list.set ball_simps, simp)
  qed simp
  ultimately show ?thesis
    unfolding prepare_ex decoded_outputs_def set_append ball_Un set_map ball_simps by blast
qed


text \<open>A block of the thunder chain: a coinbase of five satoshi, a transaction with one input and one
  output, and a skipped one.\<close>

definition ex_payload :: raw_message where
  "ex_payload = Some (JObj [(''Value'', JNum ''5'')])"

definition ex_chain_block :: block where
  "ex_chain_block =
     (let o' = \<lparr>outAddress = replicate 20 7, outContent = ex_payload\<rparr>;
          i = \<lparr>inOutPoint = \<lparr>opKind = KindRegular, opSource = replicate 32 3, opVout = 0\<rparr>, inLeafHash = []\<rparr>
      in \<lparr>bkHeader = \<lparr>hMerkleRoot = replicate 32 4, hPrevSideHash = None, hPrevMainHash = replicate 32 5\<rparr>,
          bkBody = \<lparr>bdCoinbase = \<lparr>cbMemo = [], cbOutputs = [o'], cbKeyedByTxid = False\<rparr>,
                    bdTransactions = [\<lparr>trInputs = [i], trOutputs = [o']\<rparr>, \<lparr>trInputs = [i], trOutputs = [o']\<rparr>],
                    bdAuthorizations = []\<rparr>\<rparr>)"

definition ex_block_index :: block_index where
  "ex_block_index = \<lparr>biTxs = [\<lparr>tiTxid = replicate 32 6, tiSize = 10, tiRaw = [], tiSkipped = False\<rparr>,
       \<lparr>tiTxid = replicate 32 7, tiSize = 10, tiRaw = [], tiSkipped = True\<rparr>],
     biDeposits = [], biBundleSpends = [], biMarketCreates = [], biMarketDeletes = []\<rparr>"

lemma ex_payload_decodes: "thunder_DecodeContent ex_payload = Inr \<lparr>coValueSats = 5, coType = ''value''\<rparr>"
  by (simp add: ex_payload_def thunder_DecodeContent_def un_content_def un_raw_def content_fields_def store_member_def
      find_field_def un_ptr_def parse_uint_def digit_val_def value_content_def toSats_def)

definition ex_written :: s_block where
  "ex_written = projr (Prepare (\<lambda>_. []) 1 (replicate 32 2) ex_chain_block ex_block_index thunder_DecodeContent None)"

lemma ex_Prepare:
  "Prepare (\<lambda>_. []) 1 (replicate 32 2) ex_chain_block ex_block_index thunder_DecodeContent None = Inr ex_written"
  by (simp add: ex_written_def Prepare_def prepare_coinbase_def prepare_txs_def prepare_deposits_def prepare_market_def
      prepareTx_def newOutput_def ex_chain_block_def ex_block_index_def ex_payload_decodes Let_def indexed_def)


theorem Prepare_succeeds_iff_witness:
  "(\<exists>w. Prepare (\<lambda>_. []) 1 (replicate 32 2) ex_chain_block ex_block_index thunder_DecodeContent None = Inr w)
   \<and> \<not> (\<exists>w. Prepare (\<lambda>_. []) 1 (replicate 32 2) ex_chain_block (ex_block_index\<lparr>biTxs := []\<rparr>) thunder_DecodeContent None = Inr w)"
  unfolding Prepare_succeeds_iff
  by (simp add: ex_chain_block_def ex_block_index_def Let_def decoded_outputs_def decodes_def ex_payload_decodes)


end
