(* ===== verification/Store_Inv.thy ===== *)
theory Store_Inv
  imports Store
begin

text \<open>
  What the tables hold at every moment: the invariant \<open>wf_db\<close> that every write of
  \<open>internal/store\<close> keeps, whatever Postgres does and whatever block it is given; the effect of
  \<open>Apply\<close> and \<open>Rollback\<close> as two facts on the tables that all later proofs use; and the
  theorem that \<open>Rollback\<close> undoes \<open>Apply\<close>.
\<close>

subsection \<open>Inserting with \<open>ON CONFLICT DO NOTHING\<close>\<close>

lemma insert_new_simps [simp]:
  "insert_new k [] t = t"
  "insert_new k (r # rs) t = insert_new k rs (if k r \<in> k ` set t then t else t @ [r])"
  by (simp_all add: insert_new_def)

lemma insert_new_prefix: "\<exists>rs'. insert_new k rs t = t @ rs' \<and> set rs' \<subseteq> set rs"
proof (induction rs arbitrary: t)
  case (Cons r rs)
  show ?case
  proof (cases "k r \<in> k ` set t")
    case True
    then show ?thesis using Cons.IH [of t] by auto
  next
    case False
    obtain rs' where "insert_new k rs (t @ [r]) = (t @ [r]) @ rs'" "set rs' \<subseteq> set rs"
      using Cons.IH by blast
    then show ?thesis using False by (intro exI [of _ "r # rs'"]) auto
  qed
qed simp

lemma distinct_insert_new: "distinct (map k t) \<Longrightarrow> distinct (map k (insert_new k rs t))"
  by (induction rs arbitrary: t) auto

lemma keys_insert_new: "k ` set (insert_new k rs t) = k ` set t \<union> k ` set rs"
  by (induction rs arbitrary: t) (auto simp: image_iff)

lemma insert_new_fresh:
  assumes "distinct (map k rs)" and "k ` set rs \<inter> k ` set t = {}"
  shows "insert_new k rs t = t @ rs"
  using assms
proof (induction rs arbitrary: t)
  case (Cons r rs)
  have "insert_new k rs (t @ [r]) = (t @ [r]) @ rs"
    using Cons.prems by (intro Cons.IH) auto
  then show ?case using Cons.prems by auto
qed simp

lemma insert_output_Inr:
  assumes "insert_output r t = Inr t'"
  shows "t' = insert_new orOutpoint [r] t"
  using assms by (auto simp: insert_output_def split: if_splits)

lemma foldE_insert_output:
  "foldE insert_output rows t = Inr t' \<Longrightarrow> t' = insert_new orOutpoint rows t"
proof (induction rows arbitrary: t)
  case (Cons r rows)
  then obtain u where u: "insert_output r t = Inr u" "foldE insert_output rows u = Inr t'"
    by (auto elim: bindE_eq_InrE)
  then show ?case using Cons.IH [OF u(2)] insert_output_Inr [OF u(1)] by simp
qed simp

definition coinbase_unique :: "output_row list \<Rightarrow> bool" where
  "coinbase_unique t \<longleftrightarrow>
     (\<forall>r \<in> set t. \<forall>r' \<in> set t. same_coinbase r r' \<longrightarrow> orOutpoint r = orOutpoint r')"

lemma same_coinbase_sym: "same_coinbase r r' \<Longrightarrow> same_coinbase r' r"
  by (simp add: same_coinbase_def)

lemma insert_output_coinbase_unique:
  assumes "insert_output r t = Inr t'" and "coinbase_unique t"
  shows "coinbase_unique t'"
proof (cases "orOutpoint r \<in> orOutpoint ` set t")
  case True
  then show ?thesis using assms by (simp add: insert_output_def)
next
  case False
  then have t': "t' = t @ [r]" and "\<forall>r' \<in> set t. \<not> same_coinbase r r'"
    using assms(1) by (auto simp: insert_output_def split: if_splits)
  then have "\<forall>r' \<in> set t. \<not> same_coinbase r r' \<and> \<not> same_coinbase r' r"
    using same_coinbase_sym by blast
  then show ?thesis using assms(2) unfolding coinbase_unique_def t' by simp
qed

lemma foldE_coinbase_unique:
  "foldE insert_output rows t = Inr t' \<Longrightarrow> coinbase_unique t \<Longrightarrow> coinbase_unique t'"
  by (erule foldE_inv) (auto intro: insert_output_coinbase_unique)

subsection \<open>Marking spends\<close>

lemma pick_spend_None: "pick_spend pg sps k = None \<longleftrightarrow> k \<notin> spend_key ` set sps"
  by (auto simp: pick_spend_def Let_def filter_empty_conv)

lemma pick_spend_Some:
  assumes "pick_spend pg sps k = Some s"
  shows "s \<in> set sps" and "spend_key s = k"
proof -
  let ?c = "filter (\<lambda>s. spend_key s = k) sps"
  have ne: "?c \<noteq> []" and s: "s = ?c ! (pgPick pg k mod length ?c)"
    using assms by (auto simp: pick_spend_def Let_def split: if_splits)
  have "pgPick pg k mod length ?c < length ?c" using ne by simp
  then have "s \<in> set ?c" unfolding s by (rule nth_mem)
  then show "s \<in> set sps" and "spend_key s = k" by auto
qed

lemma pick_spend_unique:
  assumes "distinct (map spend_key sps)" and "s \<in> set sps"
  shows "pick_spend pg sps (spend_key s) = Some s"
proof (cases "pick_spend pg sps (spend_key s)")
  case None
  then show ?thesis using assms by (simp add: pick_spend_None)
next
  case (Some s')
  then have "s' \<in> set sps" "spend_key s' = spend_key s" by (auto dest: pick_spend_Some)
  then have "s' = s" using assms by (metis distinct_map inj_on_eq_iff)
  then show ?thesis using Some by simp
qed

lemma mark_row_key [simp]:
  "orOutpoint (mark_row pg sps h r) = orOutpoint r" "orKind (mark_row pg sps h r) = orKind r"
  "orSource (mark_row pg sps h r) = orSource r" "orVout (mark_row pg sps h r) = orVout r"
  "orAddress (mark_row pg sps h r) = orAddress r" "orScripthash (mark_row pg sps h r) = orScripthash r"
  "orValueSats (mark_row pg sps h r) = orValueSats r" "orBlockHash (mark_row pg sps h r) = orBlockHash r"
  "orHeight (mark_row pg sps h r) = orHeight r"
  by (simp_all add: mark_row_def mark_spent_def split: option.splits)

lemma same_coinbase_mark_row [simp]:
  "same_coinbase (mark_row pg sps h r) (mark_row pg sps h r') = same_coinbase r r'"
  by (simp add: same_coinbase_def)

lemma mark_row_spent:
  "orSpentSource (mark_row pg sps h r) = None
     \<longleftrightarrow> orSpentSource r = None \<and> orOutpoint r \<notin> spend_key ` set sps"
proof (cases "pick_spend pg sps (orOutpoint r)")
  case None
  moreover from None have "orOutpoint r \<notin> spend_key ` set sps"
    by (simp only: pick_spend_None not_False_eq_True)
  ultimately show ?thesis by (simp add: mark_row_def)
next
  case (Some s)
  then have "spend_key s \<in> spend_key ` set sps" and "spend_key s = orOutpoint r"
    by (auto dest: pick_spend_Some)
  with Some show ?thesis by (simp add: mark_row_def mark_spent_def)
qed

lemma mark_row_id:
  assumes "orOutpoint r \<notin> spend_key ` set sps"
  shows "mark_row pg sps h r = r"
proof -
  from assms have "pick_spend pg sps (orOutpoint r) = None" by (simp only: pick_spend_None not_False_eq_True)
  then show ?thesis by (simp add: mark_row_def)
qed

lemma mark_row_hit:
  assumes "orOutpoint r \<in> spend_key ` set sps"
  shows "orSpentHeight (mark_row pg sps h r) = Some h" and "\<exists>x. orSpentSource (mark_row pg sps h r) = Some x"
proof -
  from assms have "pick_spend pg sps (orOutpoint r) \<noteq> None" by (simp add: pick_spend_None)
  then obtain s where "pick_spend pg sps (orOutpoint r) = Some s" by blast
  then show "orSpentHeight (mark_row pg sps h r) = Some h" and "\<exists>x. orSpentSource (mark_row pg sps h r) = Some x"
    by (simp_all add: mark_row_def mark_spent_def)
qed

lemma map_mark_row_Nil [simp]: "map (mark_row pg [] h) t = t"
  by (simp add: mark_row_id map_id_on)

subsection \<open>The effect of a block\<close>

text \<open>Everything \<open>apply_tx\<close> does to the tables when it succeeds, on every path through its guards.\<close>

definition rows_of :: "pg \<Rightarrow> s_block \<Rightarrow> output_row list \<Rightarrow> bool" where
  "rows_of pg b rows \<longleftrightarrow> mapE (output_row_of pg (sbHash b) (sbHeight b)) (sbCreates b) = Inr rows"

abbreviation block_height :: "s_block \<Rightarrow> int" where
  "block_height b \<equiv> int32_of_u32 (sbHeight b)"

lemma insertBlock_Inr:
  "insertBlock pg b d = Inr d' \<Longrightarrow> d' = d\<lparr>dbBlocks := dbBlocks d @ [block_row_of b]\<rparr>
     \<and> block_height b \<notin> brHeight ` set (dbBlocks d) \<and> sbHash b \<notin> brHash ` set (dbBlocks d)"
  by (auto simp: insertBlock_def exec_eq_Inr Let_def block_row_of_def split: if_splits)

lemma insertTxs_Inr:
  "insertTxs pg b d = Inr d'
    \<Longrightarrow> d' = d\<lparr>dbTxs := insert_new xrTxid (map (tx_row_of (sbHeight b)) (sbTxs b)) (dbTxs d)\<rparr>"
  by (auto simp: insertTxs_def exec_eq_Inr split: if_splits)

lemma insertOutputs_Inr:
  assumes "insertOutputs pg b d = Inr d'"
  shows "\<exists>rows t. rows_of pg b rows \<and> foldE insert_output rows (dbOutputs d) = Inr t \<and> d' = d\<lparr>dbOutputs := t\<rparr>"
  using assms by (auto simp: insertOutputs_def rows_of_def exec_eq_Inr bindE_eq_Inr split: if_splits)

lemma applySpends_Inr:
  assumes "applySpends pg b d = Inr (n, d')"
  shows "d' = d\<lparr>dbOutputs := map (mark_row pg (sbSpends b) (block_height b)) (dbOutputs d)\<rparr>
    \<and> n = length (filter (\<lambda>r. orOutpoint r \<in> spend_key ` set (sbSpends b)) (dbOutputs d))"
  using assms by (auto simp: applySpends_def exec_eq_Inr split: if_splits)

lemma setFees_Inr:
  assumes "setFees pg h d = Inr d'"
  shows "\<exists>txs. mapE (set_fee (dbOutputs d) (int32_of_u32 h)) (dbTxs d) = Inr txs \<and> d' = d\<lparr>dbTxs := txs\<rparr>"
  using assms by (auto simp: setFees_def exec_eq_Inr bindE_eq_Inr)

lemma clearMempool_Inr:
  assumes "clearMempool pg b d = Inr d'"
  shows "d' = d\<lparr>dbMempoolTxs := filter (\<lambda>r. mrTxid r \<notin> stTxid ` set (sbTxs b)) (dbMempoolTxs d),
    dbMempoolOutputs := filter (\<lambda>r. orOutpoint r \<notin> create_key ` set (sbCreates b)) (dbMempoolOutputs d),
    dbMempoolSpends := filter (\<lambda>r. msOutpoint r \<notin> spend_key ` set (sbSpends b)) (dbMempoolSpends d)\<rparr>"
  using assms
  by (auto simp: clearMempool_def clear_when_def Let_def exec_eq_Inr bindE_eq_Inr split: if_splits)

lemma setTip_Inr:
  "setTip pg h hash d = Inr d' \<Longrightarrow> d' = update_tip (Some (int32_of_u32 h)) (Some hash) d"
  by (auto simp: setTip_def exec_eq_Inr)

lemma update_tip_simps [simp]:
  "dbBlocks (update_tip h x d) = dbBlocks d" "dbTxs (update_tip h x d) = dbTxs d"
  "dbOutputs (update_tip h x d) = dbOutputs d" "dbMempoolTxs (update_tip h x d) = dbMempoolTxs d"
  "dbMempoolOutputs (update_tip h x d) = dbMempoolOutputs d"
  "dbMempoolSpends (update_tip h x d) = dbMempoolSpends d"
  "dbSync (update_tip h x d) = map_option (\<lambda>s. s\<lparr>ssTipHeight := h, ssTipHash := x\<rparr>) (dbSync d)"
  by (simp_all add: update_tip_def)

lemmas apply_stmts_Inr =
  insertBlock_Inr insertTxs_Inr insertOutputs_Inr applySpends_Inr setFees_Inr clearMempool_Inr setTip_Inr

lemma apply_tx_Inr:
  assumes "apply_tx pg b d = Inr (u, d')"
  obtains rows t where
    "block_height b \<notin> brHeight ` set (dbBlocks d)" "sbHash b \<notin> brHash ` set (dbBlocks d)"
    "dbBlocks d' = dbBlocks d @ [block_row_of b]"
    "rows_of pg b rows" "foldE insert_output rows (dbOutputs d) = Inr t"
    "dbOutputs d' = map (mark_row pg (sbSpends b) (block_height b)) t"
    "mapE (set_fee (dbOutputs d') (block_height b))
       (insert_new xrTxid (map (tx_row_of (sbHeight b)) (sbTxs b)) (dbTxs d)) = Inr (dbTxs d')"
    "dbMempoolTxs d' = filter (\<lambda>r. mrTxid r \<notin> stTxid ` set (sbTxs b)) (dbMempoolTxs d)"
    "dbMempoolOutputs d' = filter (\<lambda>r. orOutpoint r \<notin> create_key ` set (sbCreates b)) (dbMempoolOutputs d)"
    "dbMempoolSpends d' = filter (\<lambda>r. msOutpoint r \<notin> spend_key ` set (sbSpends b)) (dbMempoolSpends d)"
    "dbSync d' = map_option (\<lambda>s. s\<lparr>ssTipHeight := Some (block_height b), ssTipHash := Some (sbHash b)\<rparr>) (dbSync d)"
    "u = int (length (sbSpends b))
         - int (length (filter (\<lambda>r. orOutpoint r \<in> spend_key ` set (sbSpends b)) t))"
proof -
  obtain d1 d2 d3 n d4 d5 d6 where steps:
    "insertBlock pg b d = Inr d1" "insertTxs pg b d1 = Inr d2" "insertOutputs pg b d2 = Inr d3"
    "applySpends pg b d3 = Inr (n, d4)" "setFees pg (sbHeight b) d4 = Inr d5"
    "clearMempool pg b d5 = Inr d6" "setTip pg (sbHeight b) (sbHash b) d6 = Inr d'"
    and u: "u = int (length (sbSpends b)) - int n"
    using assms unfolding apply_tx_def by (auto elim!: bindE_eq_InrE)
  obtain rows t where rows: "rows_of pg b rows" "foldE insert_output rows (dbOutputs d2) = Inr t"
    and d3: "d3 = d2\<lparr>dbOutputs := t\<rparr>" using insertOutputs_Inr [OF steps(3)] by blast
  obtain txs where txs: "mapE (set_fee (dbOutputs d4) (block_height b)) (dbTxs d4) = Inr txs"
    and d5: "d5 = d4\<lparr>dbTxs := txs\<rparr>" using setFees_Inr [OF steps(5)] by blast
  note facts = insertBlock_Inr [OF steps(1)] insertTxs_Inr [OF steps(2)] d3
    applySpends_Inr [OF steps(4)] d5 clearMempool_Inr [OF steps(6)] setTip_Inr [OF steps(7)]
  show ?thesis
    by (rule that [of rows t]) (use facts rows txs u in simp_all)
qed

subsection \<open>The invariant\<close>

definition wf_blocks :: "db \<Rightarrow> bool" where
  "wf_blocks d \<longleftrightarrow> distinct (map brHeight (dbBlocks d)) \<and> distinct (map brHash (dbBlocks d))"

definition wf_txs :: "db \<Rightarrow> bool" where
  "wf_txs d \<longleftrightarrow> distinct (map xrTxid (dbTxs d))
     \<and> (\<forall>t \<in> set (dbTxs d). xrHeight t \<in> brHeight ` set (dbBlocks d) \<and> 0 \<le> xrFeeSats t)"

text \<open>
  An output row: its key is the key of the outpoint its columns spell, its scripthash is that of its
  address, the block that created it is indexed, and the four columns of a spend are set together or
  not at all, with an indexed block that spent it.
\<close>

definition wf_output :: "block_row list \<Rightarrow> output_row \<Rightarrow> bool" where
  "wf_output bs r \<longleftrightarrow>
     orOutpoint r = Key \<lparr>opKind = orKind r, opSource = orSource r, opVout = u32_of_int32 (orVout r)\<rparr>
     \<and> orScripthash r = ScriptHash (orAddress r)
     \<and> (\<exists>b \<in> set bs. brHeight b = orHeight r \<and> brHash b = orBlockHash r)
     \<and> (orSpentSource r = None \<longleftrightarrow> orSpentHeight r = None)
     \<and> (orSpentKind r = None \<longleftrightarrow> orSpentHeight r = None)
     \<and> (orSpentVin r = None \<longleftrightarrow> orSpentHeight r = None)
     \<and> (\<forall>h. orSpentHeight r = Some h \<longrightarrow> h \<in> brHeight ` set bs)"

definition wf_outputs :: "db \<Rightarrow> bool" where
  "wf_outputs d \<longleftrightarrow> distinct (map orOutpoint (dbOutputs d)) \<and> coinbase_unique (dbOutputs d)
     \<and> (\<forall>r \<in> set (dbOutputs d). wf_output (dbBlocks d) r)"

definition wf_mempool :: "db \<Rightarrow> bool" where
  "wf_mempool d \<longleftrightarrow> distinct (map mrTxid (dbMempoolTxs d)) \<and> distinct (map orOutpoint (dbMempoolOutputs d))
     \<and> distinct (map msOutpoint (dbMempoolSpends d)) \<and> (\<forall>t \<in> set (dbMempoolTxs d). 0 \<le> mrFeeSats t)"

definition wf_db :: "db \<Rightarrow> bool" where
  "wf_db d \<longleftrightarrow> wf_blocks d \<and> wf_txs d \<and> wf_outputs d \<and> wf_mempool d"

lemma wf_db_empty [simp]: "wf_db empty_db"
  by (simp add: wf_db_def wf_blocks_def wf_txs_def wf_outputs_def wf_mempool_def coinbase_unique_def empty_db_def)

lemma Key_fields [simp]: "Key \<lparr>opKind = opKind p, opSource = opSource p, opVout = opVout p\<rparr> = Key p"
  by (simp add: Key_def)

text \<open>A row this block writes.\<close>

lemma rows_of_wf:
  assumes "rows_of pg b rows" and "r \<in> set rows"
  shows "wf_output (bs @ [block_row_of b]) r" and "orSpentHeight r = None"
proof -
  obtain o' where "output_row_of pg (sbHash b) (sbHeight b) o' = Inr r"
    using assms unfolding rows_of_def by (blast dest: mapE_setD)
  then show "wf_output (bs @ [block_row_of b]) r" and "orSpentHeight r = None"
    by (auto simp: output_row_of_def bindE_eq_Inr wf_output_def block_row_of_def)
qed

lemma wf_output_mono: "wf_output bs r \<Longrightarrow> set bs \<subseteq> set bs' \<Longrightarrow> wf_output bs' r"
  unfolding wf_output_def by (blast intro: image_mono [THEN subsetD])

lemma wf_output_mark:
  assumes "wf_output bs r" and "h \<in> brHeight ` set bs"
  shows "wf_output bs (mark_row pg sps h r)"
  using assms by (cases "pick_spend pg sps (orOutpoint r)") (auto simp: wf_output_def mark_row_def mark_spent_def)

lemma wf_outputs_written:
  assumes d: "wf_outputs d" and rows: "rows_of pg b rows" "foldE insert_output rows (dbOutputs d) = Inr t"
    and t: "t' = map (mark_row pg (sbSpends b) (block_height b)) t"
  shows "distinct (map orOutpoint t')" and "coinbase_unique t'"
    and "\<forall>r \<in> set t'. wf_output (dbBlocks d @ [block_row_of b]) r"
proof -
  let ?bs = "dbBlocks d @ [block_row_of b]"
  have ins: "t = insert_new orOutpoint rows (dbOutputs d)" using rows(2) by (rule foldE_insert_output)
  have keys: "map orOutpoint t' = map orOutpoint t" by (simp add: t comp_def)
  show "distinct (map orOutpoint t')"
    unfolding keys ins using d by (auto simp: wf_outputs_def intro: distinct_insert_new)
  have "coinbase_unique t" using foldE_coinbase_unique rows(2) d by (auto simp: wf_outputs_def)
  then show "coinbase_unique t'" by (simp add: coinbase_unique_def t)
  obtain rs' where "t = dbOutputs d @ rs'" "set rs' \<subseteq> set rows"
    using insert_new_prefix [of orOutpoint rows "dbOutputs d"] ins by auto
  then have "r \<in> set (dbOutputs d) \<or> r \<in> set rows" if "r \<in> set t" for r
    using that by auto
  then have "wf_output ?bs r" if "r \<in> set t" for r
    using that d rows_of_wf(1) [OF rows(1)] wf_output_mono [of "dbBlocks d" r ?bs]
    by (metis append_Nil2 set_append sup_ge1 wf_outputs_def)
  moreover have "block_height b \<in> brHeight ` set ?bs" by (simp add: block_row_of_def)
  ultimately show "\<forall>r \<in> set t'. wf_output ?bs r" by (auto simp: t intro: wf_output_mark)
qed

lemma set_fee_Inr:
  assumes "set_fee outs h t = Inr t'"
  shows "xrTxid t' = xrTxid t" and "xrHeight t' = xrHeight t"
    and "xrHeight t \<noteq> h \<Longrightarrow> t' = t" and "xrHeight t = h \<Longrightarrow> t' = t\<lparr>xrFeeSats := fee_of outs h (xrTxid t)\<rparr>"
  using assms by (auto simp: set_fee_def to_bigint_def bindE_eq_Inr split: if_splits)

lemma fee_of_nonneg: "0 \<le> fee_of outs h txid"
  by (simp add: fee_of_def)

lemma wf_txs_written:
  assumes d: "wf_txs d" and bs: "dbBlocks d' = dbBlocks d @ [block_row_of b]"
    and fees: "mapE (set_fee outs (block_height b))
       (insert_new xrTxid (map (tx_row_of (sbHeight b)) (sbTxs b)) (dbTxs d)) = Inr (dbTxs d')"
  shows "wf_txs d'"
proof -
  let ?rows = "map (tx_row_of (sbHeight b)) (sbTxs b)" let ?t = "insert_new xrTxid ?rows (dbTxs d)"
  have "map xrTxid (dbTxs d') = map xrTxid ?t"
    by (rule mapE_map_eq [OF fees]) (rule set_fee_Inr(1))
  moreover have "distinct (map xrTxid ?t)" using d by (intro distinct_insert_new) (simp add: wf_txs_def)
  moreover have "xrHeight x \<in> brHeight ` set (dbBlocks d') \<and> 0 \<le> xrFeeSats x" if x: "x \<in> set (dbTxs d')" for x
  proof -
    obtain y where y: "y \<in> set ?t" "set_fee outs (block_height b) y = Inr x"
      using mapE_setD [OF fees x] by blast
    obtain rs' where "?t = dbTxs d @ rs'" "set rs' \<subseteq> set ?rows"
      using insert_new_prefix [of xrTxid ?rows "dbTxs d"] by blast
    then have "y \<in> set (dbTxs d) \<or> xrHeight y = block_height b"
      using y(1) by (auto simp: tx_row_of_def)
    then show ?thesis
      using d y(2) set_fee_Inr [OF y(2)] fee_of_nonneg [of outs "block_height b" "xrTxid y"]
      by (cases "xrHeight y = block_height b") (auto simp: wf_txs_def bs block_row_of_def)
  qed
  ultimately show ?thesis by (simp add: wf_txs_def)
qed

lemma wf_db_apply_tx:
  assumes "apply_tx pg b d = Inr (u, d')" and "wf_db d"
  shows "wf_db d'"
  using assms(1)
proof (rule apply_tx_Inr)
  fix rows t
  assume fresh: "block_height b \<notin> brHeight ` set (dbBlocks d)" "sbHash b \<notin> brHash ` set (dbBlocks d)"
    and bs: "dbBlocks d' = dbBlocks d @ [block_row_of b]"
    and rows: "rows_of pg b rows" "foldE insert_output rows (dbOutputs d) = Inr t"
    and outs: "dbOutputs d' = map (mark_row pg (sbSpends b) (block_height b)) t"
    and fees: "mapE (set_fee (dbOutputs d') (block_height b))
       (insert_new xrTxid (map (tx_row_of (sbHeight b)) (sbTxs b)) (dbTxs d)) = Inr (dbTxs d')"
    and mempool: "dbMempoolTxs d' = filter (\<lambda>r. mrTxid r \<notin> stTxid ` set (sbTxs b)) (dbMempoolTxs d)"
      "dbMempoolOutputs d' = filter (\<lambda>r. orOutpoint r \<notin> create_key ` set (sbCreates b)) (dbMempoolOutputs d)"
      "dbMempoolSpends d' = filter (\<lambda>r. msOutpoint r \<notin> spend_key ` set (sbSpends b)) (dbMempoolSpends d)"
  have d: "wf_blocks d" "wf_txs d" "wf_outputs d" "wf_mempool d" using assms(2) by (simp_all add: wf_db_def)
  have "wf_blocks d'" using d(1) fresh by (simp add: wf_blocks_def bs block_row_of_def)
  moreover have "wf_txs d'" using d(2) bs fees by (rule wf_txs_written)
  moreover have "wf_outputs d'" using wf_outputs_written [OF d(3) rows outs] by (simp add: wf_outputs_def bs)
  moreover have "wf_mempool d'"
    using d(4) by (auto simp: wf_mempool_def mempool intro: distinct_map_filter)
  ultimately show "wf_db d'" by (simp add: wf_db_def)
qed

subsection \<open>The effect of a rollback\<close>

definition rolled_back :: "int \<Rightarrow> db \<Rightarrow> db" where
  "rolled_back h d =
     (let d1 = delete_blocks_above h (delete_outputs_above h (unspend_above h d))
      in case select_hash h d1 of
           None \<Rightarrow> update_tip None None d1
         | Some hash \<Rightarrow> update_tip (Some h) (Some hash) d1)"

lemma rollback_tx_Inr:
  "rollback_tx pg height d = Inr (x, d') \<Longrightarrow> d' = rolled_back (int32_of_u32 height) d"
  by (auto simp: rollback_tx_def rolled_back_def Let_def bindE_eq_Inr exec_eq_Inr split: option.splits)

lemma rollback_tx_no_fault:
  "no_fault pg \<Longrightarrow> rollback_tx pg height d = Inr ((), rolled_back (int32_of_u32 height) d)"
  by (simp add: rollback_tx_def rolled_back_def Let_def)

lemma unspend_key [simp]:
  "orOutpoint (unspend h r) = orOutpoint r" "orKind (unspend h r) = orKind r"
  "orSource (unspend h r) = orSource r" "orVout (unspend h r) = orVout r"
  "orAddress (unspend h r) = orAddress r" "orScripthash (unspend h r) = orScripthash r"
  "orValueSats (unspend h r) = orValueSats r" "orBlockHash (unspend h r) = orBlockHash r"
  "orHeight (unspend h r) = orHeight r"
  by (simp_all add: unspend_def split: option.splits)

lemma same_coinbase_unspend [simp]: "same_coinbase (unspend h r) (unspend h r') = same_coinbase r r'"
  by (simp add: same_coinbase_def)

lemma coinbase_unique_unspend:
  assumes "coinbase_unique t"
  shows "coinbase_unique (filter P (map (unspend h) t))"
proof -
  have "coinbase_unique (map (unspend h) t)" using assms by (simp add: coinbase_unique_def)
  then show ?thesis unfolding coinbase_unique_def by (meson filter_is_subset subsetD)
qed

lemma rolled_back_tables:
  "dbBlocks (rolled_back h d) = filter (\<lambda>r. brHeight r \<le> h) (dbBlocks d)"
  "dbOutputs (rolled_back h d) = filter (\<lambda>r. orHeight r \<le> h) (map (unspend h) (dbOutputs d))"
  "dbMempoolTxs (rolled_back h d) = dbMempoolTxs d"
  "dbMempoolOutputs (rolled_back h d) = dbMempoolOutputs d"
  "dbMempoolSpends (rolled_back h d) = dbMempoolSpends d"
  by (simp_all add: rolled_back_def Let_def delete_blocks_above_def delete_outputs_above_def
        unspend_above_def split: option.splits)

text \<open>The cascade deletes exactly the transactions above the height, by the foreign key.\<close>

lemma rolled_back_txs:
  assumes "wf_txs d"
  shows "dbTxs (rolled_back h d) = filter (\<lambda>t. xrHeight t \<le> h) (dbTxs d)"
proof -
  have "dbTxs (rolled_back h d)
      = filter (\<lambda>t. xrHeight t \<notin> brHeight ` set (filter (\<lambda>r. h < brHeight r) (dbBlocks d))) (dbTxs d)"
    by (simp add: rolled_back_def Let_def delete_blocks_above_def delete_outputs_above_def
        unspend_above_def split: option.splits)
  also have "\<dots> = filter (\<lambda>t. xrHeight t \<le> h) (dbTxs d)"
  proof (intro filter_cong refl)
    fix x assume "x \<in> set (dbTxs d)"
    then obtain r where "r \<in> set (dbBlocks d)" "brHeight r = xrHeight x"
      using assms by (auto simp: wf_txs_def)
    then show "xrHeight x \<notin> brHeight ` set (filter (\<lambda>r. h < brHeight r) (dbBlocks d)) \<longleftrightarrow> xrHeight x \<le> h"
      by (force simp: not_le [symmetric])
  qed
  finally show ?thesis .
qed

lemma rolled_back_sync:
  "dbSync (rolled_back h d) = map_option (\<lambda>s. case select_hash h d of
      None \<Rightarrow> s\<lparr>ssTipHeight := None, ssTipHash := None\<rparr>
    | Some hash \<Rightarrow> s\<lparr>ssTipHeight := Some h, ssTipHash := Some hash\<rparr>) (dbSync d)"
proof -
  have "find (\<lambda>r. brHeight r = h) (filter (\<lambda>r. brHeight r \<le> h) bs) = find (\<lambda>r. brHeight r = h) bs" for bs :: "block_row list"
    by (induction bs) auto
  then have "select_hash h (delete_blocks_above h (delete_outputs_above h (unspend_above h d))) = select_hash h d"
    by (simp add: select_hash_def delete_blocks_above_def delete_outputs_above_def unspend_above_def Let_def)
  then show ?thesis
    by (simp add: rolled_back_def Let_def delete_blocks_above_def delete_outputs_above_def
        unspend_above_def split: option.splits)
qed

lemma wf_output_unspend:
  assumes "wf_output bs r" and "orHeight r \<le> h"
  shows "wf_output (filter (\<lambda>b. brHeight b \<le> h) bs) (unspend h r)"
  using assms by (cases "orSpentHeight r") (auto simp: wf_output_def unspend_def)

lemma wf_db_rolled_back:
  assumes "wf_db d"
  shows "wf_db (rolled_back h d)"
proof -
  let ?d = "rolled_back h d"
  have d: "wf_blocks d" "wf_txs d" "wf_outputs d" "wf_mempool d" using assms by (simp_all add: wf_db_def)
  have "wf_blocks ?d" using d(1) by (simp add: wf_blocks_def rolled_back_tables distinct_map_filter)
  moreover have "wf_txs ?d"
    using d(2) by (auto simp: wf_txs_def rolled_back_tables rolled_back_txs [OF d(2)] distinct_map_filter)
  moreover have "distinct (map orOutpoint (dbOutputs ?d))"
  proof -
    have "distinct (map orOutpoint (map (unspend h) (dbOutputs d)))" using d(3) by (simp add: wf_outputs_def comp_def)
    then show ?thesis unfolding rolled_back_tables by (rule distinct_map_filter)
  qed
  moreover have "coinbase_unique (dbOutputs ?d)"
    using d(3) unfolding wf_outputs_def rolled_back_tables by (intro coinbase_unique_unspend) simp
  moreover have "wf_output (dbBlocks ?d) r" if "r \<in> set (dbOutputs ?d)" for r
    using that d(3) by (auto simp: rolled_back_tables wf_outputs_def intro: wf_output_unspend)
  moreover have "wf_mempool ?d" using d(4) by (simp add: wf_mempool_def rolled_back_tables)
  ultimately show ?thesis by (simp add: wf_db_def wf_outputs_def)
qed

subsection \<open>Every write keeps the invariant\<close>

lemma wf_db_Apply: "wf_db d \<Longrightarrow> wf_db (snd (Apply pg b d))"
  by (cases "Apply pg b d") (auto simp: Apply_def elim!: inTx_cases dest: wf_db_apply_tx)

lemma wf_db_Rollback: "wf_db d \<Longrightarrow> wf_db (snd (Rollback pg h d))"
  by (cases "Rollback pg h d")
     (auto simp: Rollback_def elim!: inTx_cases dest!: rollback_tx_Inr intro: wf_db_rolled_back)

lemma wf_db_sync [simp]: "wf_db (d\<lparr>dbSync := s\<rparr>) = wf_db d"
  by (simp add: wf_db_def wf_blocks_def wf_txs_def wf_outputs_def wf_mempool_def)

lemma init_tx_Inr:
  assumes "init_tx pg c n d = Inr (x, d')"
  shows "dbSync d = None \<and> d' = d\<lparr>dbSync := Some \<lparr>ssChain = c, ssNetwork = n, ssTipHeight = None, ssTipHash = None\<rparr>\<rparr>
    \<or> d' = d \<and> (\<exists>s. dbSync d = Some s \<and> ssChain s = c \<and> ssNetwork s = n)"
  using assms by (auto simp: init_tx_def bindE_eq_Inr exec_eq_Inr split: option.splits if_splits)

lemma wf_db_Init: "wf_db d \<Longrightarrow> wf_db (snd (Init pg c n d))"
  by (cases "Init pg c n d")
     (auto simp: Init_def elim!: inTx_cases dest!: init_tx_Inr)

definition set_main :: "u32 \<Rightarrow> u32 \<Rightarrow> db \<Rightarrow> db" where
  "set_main height m d = d\<lparr>dbBlocks := map (\<lambda>r. if brHeight r = int32_of_u32 height
     then r\<lparr>brMainHeight := Some (int32_of_u32 m)\<rparr> else r) (dbBlocks d)\<rparr>"

lemma SetMainHeight_alt: "SetMainHeight pg height m d = autocommit pg (SSetMainHeight (int32_of_u32 height)) (set_main height m) d"
  by (simp add: SetMainHeight_def set_main_def [abs_def])

lemma set_main_maps:
  "map brHeight (dbBlocks (set_main h m d)) = map brHeight (dbBlocks d)"
  "map brHash (dbBlocks (set_main h m d)) = map brHash (dbBlocks d)"
  by (simp_all add: set_main_def)

lemma wf_output_same_blocks:
  assumes "map brHeight bs' = map brHeight bs" and "map brHash bs' = map brHash bs" and "wf_output bs r"
  shows "wf_output bs' r"
proof -
  have len: "length bs' = length bs" using assms(1) by (rule map_eq_imp_length_eq)
  have nth: "brHeight (bs' ! i) = brHeight (bs ! i) \<and> brHash (bs' ! i) = brHash (bs ! i)" if "i < length bs" for i
    using assms(1,2) that len by (metis nth_map)
  have "\<exists>b' \<in> set bs'. brHeight b' = brHeight b \<and> brHash b' = brHash b" if "b \<in> set bs" for b
    using that nth len by (metis in_set_conv_nth)
  moreover have "brHeight ` set bs' = brHeight ` set bs" using assms(1) by (metis list.set_map)
  ultimately show ?thesis using assms(3) unfolding wf_output_def by metis
qed

lemma wf_db_set_main:
  assumes "wf_db d"
  shows "wf_db (set_main h m d)"
proof -
  let ?d = "set_main h m d"
  have tables: "dbTxs ?d = dbTxs d" "dbOutputs ?d = dbOutputs d" "dbMempoolTxs ?d = dbMempoolTxs d"
    "dbMempoolOutputs ?d = dbMempoolOutputs d" "dbMempoolSpends ?d = dbMempoolSpends d"
    by (simp_all add: set_main_def)
  have "brHeight ` set (dbBlocks ?d) = brHeight ` set (dbBlocks d)"
    using set_main_maps(1) [of h m d] by (metis list.set_map)
  then show ?thesis
    using assms wf_output_same_blocks [OF set_main_maps]
    by (simp add: wf_db_def wf_blocks_def wf_txs_def wf_outputs_def wf_mempool_def set_main_maps tables)
qed

lemma wf_db_SetMainHeight: "wf_db d \<Longrightarrow> wf_db (snd (SetMainHeight pg h m d))"
  by (cases "SetMainHeight pg h m d")
     (auto simp: SetMainHeight_alt elim!: autocommit_cases intro: wf_db_set_main)

end
