(* ===== verification/Store_Chain.thy ===== *)
theory Store_Chain
  imports Store_Inv
begin

text \<open>
  The index as a chain. A \<open>level\<close> database holds the blocks \<open>0, 1, ..., n - 1\<close> and a tip that
  names the last of them; \<open>Apply\<close> of the next height and \<open>Rollback\<close> to a height it holds keep
  it level. Rolling back undoes any number of applied blocks, and the unspent outputs follow the
  abstract ledger, whatever order the rows of a block have.
\<close>

definition chain_tables :: "db \<Rightarrow> block_row list \<times> tx_row list \<times> output_row list \<times> sync_row option" where
  "chain_tables d = (dbBlocks d, dbTxs d, dbOutputs d, dbSync d)"

subsection \<open>Rolling back an applied block\<close>

text \<open>A block of a valid chain spends no output that an earlier block spent.\<close>

definition clean :: "s_block \<Rightarrow> db \<Rightarrow> bool" where
  "clean b d \<longleftrightarrow> (\<forall>r \<in> set (dbOutputs d). orOutpoint r \<in> spend_key ` set (sbSpends b) \<longrightarrow> orSpentSource r = None)"

lemma unspend_mark_row:
  assumes "wf_output bs r" and "k < h"
    and "orOutpoint r \<in> spend_key ` set sps \<Longrightarrow> orSpentSource r = None"
  shows "unspend k (mark_row pg sps h r) = unspend k r"
proof (cases "orOutpoint r \<in> spend_key ` set sps")
  case True
  then have "pick_spend pg sps (orOutpoint r) \<noteq> None" by (simp add: pick_spend_None)
  then obtain s where s: "pick_spend pg sps (orOutpoint r) = Some s" by blast
  have "orSpentSource r = None" "orSpentKind r = None" "orSpentVin r = None" "orSpentHeight r = None"
    using assms(1,3) True by (auto simp: wf_output_def)
  then show ?thesis using s assms(2) by (simp add: mark_row_def mark_spent_def unspend_def)
qed (simp add: mark_row_id)

lemma rows_of_height:
  assumes "rows_of pg b rows" and "r \<in> set rows"
  shows "orHeight r = block_height b"
proof -
  obtain o' where "output_row_of pg (sbHash b) (sbHeight b) o' = Inr r"
    using assms unfolding rows_of_def by (blast dest: mapE_setD)
  then show ?thesis by (auto simp: output_row_of_def bindE_eq_Inr)
qed

lemma rows_of_keys:
  assumes "rows_of pg b rows"
  shows "orOutpoint ` set rows = create_key ` set (sbCreates b)"
proof -
  have "map orOutpoint rows = map create_key (sbCreates b)"
    using assms unfolding rows_of_def by (rule mapE_map_eq) (auto simp: output_row_of_def bindE_eq_Inr)
  then show ?thesis by (metis list.set_map)
qed

lemma rolled_back_outputs_apply:
  assumes d: "wf_outputs d" and clean: "clean b d" and k: "k < block_height b"
    and rows: "rows_of pg b rows" and t: "t = insert_new orOutpoint rows (dbOutputs d)"
  shows "filter (\<lambda>r. orHeight r \<le> k) (map (unspend k) (map (mark_row pg (sbSpends b) (block_height b)) t))
    = filter (\<lambda>r. orHeight r \<le> k) (map (unspend k) (dbOutputs d))"
proof -
  let ?f = "\<lambda>r. unspend k (mark_row pg (sbSpends b) (block_height b) r)"
  obtain rs where rs: "t = dbOutputs d @ rs" "set rs \<subseteq> set rows"
    using insert_new_prefix [of orOutpoint rows "dbOutputs d"] t by auto
  have "map ?f (dbOutputs d) = map (unspend k) (dbOutputs d)"
    using d clean k by (intro map_cong refl unspend_mark_row) (auto simp: wf_outputs_def clean_def)
  moreover have "filter (\<lambda>r. orHeight r \<le> k) (map ?f rs) = []"
    using rs(2) rows_of_height [OF rows] k by (intro filter_none) auto
  ultimately show ?thesis unfolding rs(1) by (simp only: map_map comp_def map_append filter_append append_Nil2)
qed

lemma rolled_back_txs_apply:
  assumes "mapE (set_fee outs h) (insert_new xrTxid rows txs) = Inr txs'"
    and "\<forall>x \<in> set rows. xrHeight x = h" and "k < h"
  shows "filter (\<lambda>t. xrHeight t \<le> k) txs' = filter (\<lambda>t. xrHeight t \<le> k) txs"
proof -
  have "filter (\<lambda>t. xrHeight t \<le> k) ys = filter (\<lambda>t. xrHeight t \<le> k) xs"
    if "mapE (set_fee outs h) xs = Inr ys" for xs ys
    using that
  proof (induction xs arbitrary: ys)
    case (Cons x xs)
    then obtain y zs where y: "set_fee outs h x = Inr y" "mapE (set_fee outs h) xs = Inr zs" "ys = y # zs"
      by (auto simp: bindE_eq_Inr)
    have "xrHeight y = xrHeight x" and "xrHeight x \<le> k \<Longrightarrow> y = x"
      using set_fee_Inr(2,3) [OF y(1)] assms(3) by auto
    then show ?case
      using Cons.IH [OF y(2)] y(3) by (cases "xrHeight x \<le> k") simp_all
  qed simp
  from this [OF assms(1)] have "filter (\<lambda>t. xrHeight t \<le> k) txs'
      = filter (\<lambda>t. xrHeight t \<le> k) (insert_new xrTxid rows txs)" .
  moreover obtain rs where rs: "insert_new xrTxid rows txs = txs @ rs" "set rs \<subseteq> set rows"
    using insert_new_prefix [of xrTxid rows txs] by auto
  moreover have "filter (\<lambda>t. xrHeight t \<le> k) rs = []"
  proof (rule filter_none)
    fix x assume "x \<in> set rs"
    then have "xrHeight x = h" using assms(2) rs(2) by auto
    then show "\<not> xrHeight x \<le> k" using assms(3) by simp
  qed
  ultimately show ?thesis by simp
qed

lemma select_hash_apply:
  assumes "dbBlocks d' = dbBlocks d @ [block_row_of b]" and "k \<noteq> block_height b"
  shows "select_hash k d' = select_hash k d"
proof -
  have "find P (bs @ [x]) = find P bs" if "\<not> P x" for P x and bs :: "block_row list"
    using that by (induction bs) auto
  then show ?thesis using assms by (simp add: select_hash_def block_row_of_def)
qed

lemma rolled_back_apply:
  assumes "apply_tx pg b d = Inr (u, d')" and d: "wf_db d" and clean: "clean b d" and k: "k < block_height b"
  shows "chain_tables (rolled_back k d') = chain_tables (rolled_back k d)"
  using assms(1)
proof (rule apply_tx_Inr)
  fix rows t
  assume bs: "dbBlocks d' = dbBlocks d @ [block_row_of b]"
    and rows: "rows_of pg b rows" "foldE insert_output rows (dbOutputs d) = Inr t"
    and outs: "dbOutputs d' = map (mark_row pg (sbSpends b) (block_height b)) t"
    and fees: "mapE (set_fee (dbOutputs d') (block_height b))
       (insert_new xrTxid (map (tx_row_of (sbHeight b)) (sbTxs b)) (dbTxs d)) = Inr (dbTxs d')"
    and sync: "dbSync d' = map_option (\<lambda>s. s\<lparr>ssTipHeight := Some (block_height b), ssTipHash := Some (sbHash b)\<rparr>) (dbSync d)"
  have wf: "wf_txs d" "wf_txs d'" "wf_outputs d"
    using d wf_db_apply_tx [OF assms(1) d] by (simp_all add: wf_db_def)
  have "dbBlocks (rolled_back k d') = dbBlocks (rolled_back k d)"
    using k by (simp add: rolled_back_tables bs block_row_of_def)
  moreover have "dbTxs (rolled_back k d') = dbTxs (rolled_back k d)"
    unfolding rolled_back_txs [OF wf(1)] rolled_back_txs [OF wf(2)]
    using fees k by (intro rolled_back_txs_apply) (auto simp: tx_row_of_def)
  moreover have "dbOutputs (rolled_back k d') = dbOutputs (rolled_back k d)"
    unfolding rolled_back_tables outs
    using wf(3) clean k rows(1) foldE_insert_output [OF rows(2)] by (rule rolled_back_outputs_apply)
  moreover have "dbSync (rolled_back k d') = dbSync (rolled_back k d)"
    using select_hash_apply [OF bs, of k] k
    by (cases "dbSync d") (auto simp: rolled_back_sync sync split: option.splits)
  ultimately show ?thesis by (simp add: chain_tables_def)
qed

text \<open>A run of blocks, each with the behaviour Postgres shows while it is written.\<close>

type_synonym run = "(pg \<times> s_block) list"

definition apply_blocks :: "run \<Rightarrow> db \<Rightarrow> db res" where
  "apply_blocks run d = foldE (\<lambda>(pg, b) d. bindE (apply_tx pg b d) (\<lambda>(u, d'). Inr d')) run d"

lemma apply_blocks_Nil [simp]: "apply_blocks [] d = Inr d"
  by (simp add: apply_blocks_def)

lemma apply_blocks_Cons [simp]:
  "apply_blocks ((pg, b) # run) d = bindE (apply_tx pg b d) (\<lambda>(u, d'). apply_blocks run d')"
  by (auto simp: apply_blocks_def bindE_assoc split_def intro: bindE_cong)

lemma apply_blocks_append:
  "apply_blocks (run @ run') d = bindE (apply_blocks run d) (apply_blocks run')"
  by (simp add: apply_blocks_def foldE_append [abs_def] cong: bindE_cong)

fun clean_run :: "run \<Rightarrow> db \<Rightarrow> bool" where
  "clean_run [] d = True"
| "clean_run ((pg, b) # run) d =
     (clean b d \<and> (case apply_tx pg b d of Inl _ \<Rightarrow> True | Inr (u, d') \<Rightarrow> clean_run run d'))"

lemma wf_db_apply_blocks: "apply_blocks run d = Inr d' \<Longrightarrow> wf_db d \<Longrightarrow> wf_db d'"
proof (induction run d arbitrary: d' rule: clean_run.induct)
  case (2 pg b run d)
  then obtain u d1 where "apply_tx pg b d = Inr (u, d1)" "apply_blocks run d1 = Inr d'"
    by (auto simp: bindE_eq_Inr)
  then show ?case using 2 wf_db_apply_tx by blast
qed simp

lemma rolled_back_apply_blocks:
  assumes "apply_blocks run d = Inr d'" and "wf_db d" and "clean_run run d"
    and "\<forall>(pg, b) \<in> set run. k < block_height b"
  shows "chain_tables (rolled_back k d') = chain_tables (rolled_back k d)"
  using assms
proof (induction run d arbitrary: d' rule: clean_run.induct)
  case (2 pg b run d)
  then obtain u d1 where d1: "apply_tx pg b d = Inr (u, d1)" "apply_blocks run d1 = Inr d'"
    by (auto simp: bindE_eq_Inr)
  have "chain_tables (rolled_back k d') = chain_tables (rolled_back k d1)"
    using 2 d1 wf_db_apply_tx [OF d1(1)] by auto
  also have "\<dots> = chain_tables (rolled_back k d)"
    using 2 d1 by (intro rolled_back_apply) auto
  finally show ?case .
qed simp

subsection \<open>A level index\<close>

definition level :: "db \<Rightarrow> bool" where
  "level d \<longleftrightarrow> map brHeight (dbBlocks d) = map int [0..<length (dbBlocks d)]
     \<and> (\<forall>r \<in> set (dbBlocks d). wf_hash (brHash r))
     \<and> (\<exists>s. dbSync d = Some s \<and> (ssTipHeight s, ssTipHash s) =
          (if dbBlocks d = [] then (None, None)
           else (Some (int (length (dbBlocks d)) - 1), Some (brHash (last (dbBlocks d))))))"

definition hashes :: "db \<Rightarrow> hash list" where
  "hashes d = map brHash (dbBlocks d)"

lemma level_heights:
  assumes "level d" and "i < length (dbBlocks d)"
  shows "brHeight (dbBlocks d ! i) = int i"
proof -
  have "map brHeight (dbBlocks d) ! i = map int [0..<length (dbBlocks d)] ! i"
    using assms(1) by (simp only: level_def)
  then show ?thesis using assms(2) by simp
qed

lemma level_find:
  assumes "level d"
  shows "find (\<lambda>r. brHeight r = int i) (dbBlocks d) = (if i < length (dbBlocks d) then Some (dbBlocks d ! i) else None)"
proof (cases "i < length (dbBlocks d)")
  case True
  have "distinct (map brHeight (dbBlocks d))"
    using assms by (simp add: level_def distinct_map)
  then show ?thesis using True level_heights [OF assms True] by (simp add: find_map_unique)
next
  case False
  have "brHeight r \<noteq> int i" if "r \<in> set (dbBlocks d)" for r
    using that level_heights [OF assms] False by (auto simp: in_set_conv_nth)
  then show ?thesis using False by (simp add: find_eq_None_iff)
qed

lemma level_filter:
  assumes "level d"
  shows "filter (\<lambda>r. brHeight r \<le> int i) (dbBlocks d) = take (Suc i) (dbBlocks d)"
proof -
  let ?bs = "dbBlocks d"
  have "filter (\<lambda>r. brHeight r \<le> int i) (take (Suc i) ?bs) = take (Suc i) ?bs"
    using level_heights [OF assms] by (intro filter_id) (auto simp: in_set_conv_nth)
  moreover have "filter (\<lambda>r. brHeight r \<le> int i) (drop (Suc i) ?bs) = []"
    using level_heights [OF assms] by (intro filter_none) (auto simp: in_set_conv_nth)
  ultimately show ?thesis by (metis append_Nil2 append_take_drop_id filter_append)
qed

lemma level_rolled_back:
  assumes "level d" and i: "i < length (dbBlocks d)"
  shows "level (rolled_back (int i) d)" and "hashes (rolled_back (int i) d) = take (Suc i) (hashes d)"
proof -
  let ?d = "rolled_back (int i) d"
  have bs: "dbBlocks ?d = take (Suc i) (dbBlocks d)" by (simp add: rolled_back_tables level_filter [OF assms(1)])
  have sel: "select_hash (int i) d = Some (brHash (dbBlocks d ! i))"
    using i by (simp add: select_hash_def level_find [OF assms(1)])
  have last: "last (dbBlocks ?d) = dbBlocks d ! i" using i by (simp add: bs take_Suc_conv_app_nth)
  have "map brHeight (take (Suc i) (dbBlocks d)) = map int [0..<Suc i]"
  proof -
    have "map brHeight (take (Suc i) (dbBlocks d)) = take (Suc i) (map int [0..<length (dbBlocks d)])"
      unfolding take_map [symmetric] using assms(1) by (simp only: level_def)
    also have "\<dots> = map int [0..<Suc i]" using i by (simp only: take_map take_upt Suc_le_eq add_0)
    finally show ?thesis .
  qed
  moreover have "length (dbBlocks ?d) = Suc i" and "dbBlocks ?d \<noteq> []" using i by (auto simp: bs)
  moreover have "\<exists>s. dbSync ?d = Some s \<and> ssTipHeight s = Some (int i) \<and> ssTipHash s = Some (brHash (dbBlocks d ! i))"
    using assms(1) sel by (auto simp: level_def rolled_back_sync)
  moreover have "\<forall>r \<in> set (take (Suc i) (dbBlocks d)). wf_hash (brHash r)"
    using assms(1) by (meson in_set_takeD level_def)
  ultimately show "level ?d"
    using last unfolding level_def bs by (simp del: upt_Suc)
  show "hashes ?d = take (Suc i) (hashes d)" by (simp add: hashes_def bs take_map)
qed

lemma level_apply_tx:
  assumes "apply_tx pg b d = Inr (u, d')" and "level d"
    and h: "unat (sbHeight b) = length (dbBlocks d)" "unat (sbHeight b) < 2 ^ 31" and "wf_hash (sbHash b)"
  shows "level d'" and "hashes d' = hashes d @ [sbHash b]"
proof -
  have bh: "block_height b = int (length (dbBlocks d))" using h int32_of_u32_small [OF h(2)] by simp
  from assms(1) have bs: "dbBlocks d' = dbBlocks d @ [block_row_of b]"
    and sync: "dbSync d' = map_option (\<lambda>s. s\<lparr>ssTipHeight := Some (block_height b), ssTipHash := Some (sbHash b)\<rparr>) (dbSync d)"
    by (auto elim: apply_tx_Inr)
  show "level d'" using assms(2,5) by (auto simp: level_def bs sync bh block_row_of_def)
  show "hashes d' = hashes d @ [sbHash b]" by (simp add: hashes_def bs block_row_of_def)
qed

lemma level_set_main: "level d \<Longrightarrow> level (set_main h m d)" and hashes_set_main: "hashes (set_main h m d) = hashes d"
proof -
  have len: "length (dbBlocks (set_main h m d)) = length (dbBlocks d)" by (simp add: set_main_def)
  have last: "brHash (last (dbBlocks (set_main h m d))) = brHash (last (dbBlocks d))" if "dbBlocks d \<noteq> []"
    using that set_main_maps(2) [of h m d] by (metis last_map length_0_conv len)
  have sets: "brHash ` set (dbBlocks (set_main h m d)) = brHash ` set (dbBlocks d)"
    using set_main_maps(2) [of h m d] by (metis list.set_map)
  have "dbSync (set_main h m d) = dbSync d" by (simp add: set_main_def)
  moreover have "(\<forall>r \<in> set (dbBlocks (set_main h m d)). wf_hash (brHash r)) = (\<forall>r \<in> set (dbBlocks d). wf_hash (brHash r))"
    using sets by (metis (no_types, lifting) image_iff)
  ultimately show "level d \<Longrightarrow> level (set_main h m d)"
    using last len set_main_maps(1) [of h m d] unfolding level_def
    by (smt (verit, best) length_0_conv)
  show "hashes (set_main h m d) = hashes d" by (simp add: hashes_def set_main_maps)
qed

lemma Tip_level:
  assumes "level d"
  shows "Tip pg d = exec pg SReadTip
    (Inr (if hashes d = [] then None else Some (of_nat (length (hashes d) - 1), last (hashes d))))"
proof -
  obtain s where s: "dbSync d = Some s" and tip: "(ssTipHeight s, ssTipHash s) =
      (if dbBlocks d = [] then (None, None)
       else (Some (int (length (dbBlocks d)) - 1), Some (brHash (last (dbBlocks d)))))"
    using assms by (auto simp: level_def)
  show ?thesis
  proof (cases "dbBlocks d = []")
    case True
    then show ?thesis using s tip by (simp add: Tip_def hashes_def)
  next
    case False
    then have "length (brHash (last (dbBlocks d))) = 32"
      using assms by (auto simp: level_def wf_hash_def)
    moreover have "u32_of_int32 (int (length (dbBlocks d)) - 1) = of_nat (length (dbBlocks d) - 1)"
      using False by (cases "length (dbBlocks d)") (simp_all add: u32_of_int32_def)
    ultimately show ?thesis using s tip False by (simp add: Tip_def hashes_def last_map)
  qed
qed

lemma HashAt_level:
  assumes "level d" and "unat h < 2 ^ 31"
  shows "HashAt pg h d = exec pg (SReadHash (int32_of_u32 h))
    (Inr (if unat h < length (hashes d) then Some (hashes d ! unat h) else None))"
proof -
  have "length (brHash (dbBlocks d ! unat h)) = 32" if "unat h < length (dbBlocks d)"
    using assms(1) that by (auto simp: level_def wf_hash_def)
  then show ?thesis
    using level_find [OF assms(1), of "unat h"]
    by (simp add: HashAt_def select_hash_def int32_of_u32_small [OF assms(2)] hashes_def)
qed

text \<open>Rolling back to the tip changes nothing.\<close>

lemma rolled_back_tip:
  assumes "wf_db d" and "level d" and "dbBlocks d \<noteq> []" and i: "i = length (dbBlocks d) - 1"
  shows "chain_tables (rolled_back (int i) d) = chain_tables d"
proof -
  have len: "i < length (dbBlocks d)" "Suc i = length (dbBlocks d)" using assms(3) i by (cases "dbBlocks d"; simp)+
  have low: "brHeight r \<le> int i" if "r \<in> set (dbBlocks d)" for r
    using that level_heights [OF assms(2)] len by (auto simp: in_set_conv_nth)
  have wf: "wf_txs d" "wf_outputs d" using assms(1) by (simp_all add: wf_db_def)
  have "dbTxs (rolled_back (int i) d) = dbTxs d"
    unfolding rolled_back_txs [OF wf(1)] using wf(1) low by (intro filter_id) (auto simp: wf_txs_def)
  moreover have "dbOutputs (rolled_back (int i) d) = dbOutputs d"
  proof -
    have "unspend (int i) r = r \<and> orHeight r \<le> int i" if "r \<in> set (dbOutputs d)" for r
    proof -
      have "wf_output (dbBlocks d) r" using wf(2) that by (simp add: wf_outputs_def)
      then have "orHeight r \<in> brHeight ` set (dbBlocks d)"
        and "\<forall>h. orSpentHeight r = Some h \<longrightarrow> h \<in> brHeight ` set (dbBlocks d)"
        unfolding wf_output_def by force+
      moreover have "h \<le> int i" if "h \<in> brHeight ` set (dbBlocks d)" for h using that low by auto
      ultimately show ?thesis by (cases "orSpentHeight r") (simp_all add: unspend_def leD)
    qed
    then show ?thesis by (simp add: rolled_back_tables map_id_on filter_id)
  qed
  moreover have "dbBlocks (rolled_back (int i) d) = dbBlocks d"
    using low by (simp add: rolled_back_tables filter_id)
  moreover have "dbSync (rolled_back (int i) d) = dbSync d"
  proof -
    obtain s where s: "dbSync d = Some s" "ssTipHeight s = Some (int i)" "ssTipHash s = Some (brHash (dbBlocks d ! i))"
      using assms(2,3) len i by (auto simp: level_def last_conv_nth of_nat_diff)
    moreover have "select_hash (int i) d = Some (brHash (dbBlocks d ! i))"
      using len by (simp add: select_hash_def level_find [OF assms(2)])
    ultimately show ?thesis by (simp add: rolled_back_sync)
  qed
  ultimately show ?thesis by (simp add: chain_tables_def)
qed

subsection \<open>The unspent outputs as a ledger\<close>

text \<open>
  The abstract ledger maps an outpoint to the address and value of an unspent coin. A block adds the
  coins it creates under outpoints the index never held, the first row of an outpoint first, and then
  removes every coin it spends, its own included.
\<close>

type_synonym ledger = "bytes \<rightharpoonup> address \<times> int"

definition coin_of :: "output_row \<Rightarrow> address \<times> int" where
  "coin_of r = (orAddress r, orValueSats r)"

definition utxos :: "db \<Rightarrow> ledger" where
  "utxos d = map_of (map (\<lambda>r. (orOutpoint r, coin_of r)) (filter (\<lambda>r. orSpentSource r = None) (dbOutputs d)))"

definition created :: "s_block \<Rightarrow> ledger" where
  "created b = map_of (map (\<lambda>c. (create_key c, (soAddress c, soValueSats c))) (sbCreates b))"

definition ledger_step :: "bytes set \<Rightarrow> s_block \<Rightarrow> ledger \<Rightarrow> ledger" where
  "ledger_step known b m =
     (created b |` (- known) ++ m) |` (- (spend_key ` set (sbSpends b)))"

lemma map_of_insert_new:
  "map_of (map (\<lambda>r. (k r, v r)) (insert_new k rs t)) =
     map_of (map (\<lambda>r. (k r, v r)) rs) ++ map_of (map (\<lambda>r. (k r, v r)) t)"
proof (induction rs arbitrary: t)
  case (Cons r rs)
  have dom: "dom (map_of (map (\<lambda>r. (k r, v r)) t)) = k ` set t" by (force simp: dom_map_of_conv_image_fst)
  show ?case
  proof (cases "k r \<in> k ` set t")
    case True
    then have "k r \<in> dom (map_of (map (\<lambda>r. (k r, v r)) t))" by (simp only: dom)
    then show ?thesis using True Cons.IH by (auto simp: map_add_def fun_eq_iff)
  next
    case False
    then show ?thesis using Cons.IH [of "t @ [r]"] dom
      by (auto simp: map_add_def fun_eq_iff split: option.splits)
  qed
qed simp

text \<open>A lookup of the rows that satisfy a condition, through the lookup of all rows.\<close>

lemma map_of_filter_key:
  assumes "distinct (map k t)"
  shows "map_of (map (\<lambda>r. (k r, v r)) (filter P t)) x =
    (case find (\<lambda>r. k r = x) t of None \<Rightarrow> None | Some r \<Rightarrow> if P r then Some (v r) else None)"
  using assms
proof (induction t)
  case (Cons r t)
  have "map_of (map (\<lambda>r. (k r, v r)) (filter P t)) (k r) = None"
    using Cons.prems by (auto simp: map_of_eq_None_iff)
  then show ?case using Cons by auto
qed simp

lemma find_insert_new:
  "find (\<lambda>r. k r = x) (insert_new k rs t) =
     (case find (\<lambda>r. k r = x) t of Some r \<Rightarrow> Some r | None \<Rightarrow> find (\<lambda>r. k r = x) rs)"
proof (induction rs arbitrary: t)
  case (Cons r rs)
  have app: "find (\<lambda>r. k r = x) (t @ [r]) =
      (case find (\<lambda>r. k r = x) t of Some r \<Rightarrow> Some r | None \<Rightarrow> if k r = x then Some r else None)"
    by (induction t) auto
  show ?case
    using Cons.IH [of t] Cons.IH [of "t @ [r]"] app find_eq_None_iff [of "\<lambda>r. k r = x" t]
    by (auto split: option.splits)
qed (simp split: option.splits)

lemma find_map_same_key:
  "(\<And>r. k (f r) = k r) \<Longrightarrow> find (\<lambda>r. k r = x) (map f t) = map_option f (find (\<lambda>r. k r = x) t)"
  by (induction t) auto

lemma find_rows_of:
  assumes "rows_of pg b rows"
  shows "created b x = map_option coin_of (find (\<lambda>r. orOutpoint r = x) rows)"
    and "\<forall>r \<in> set rows. orSpentSource r = None"
proof -
  have row: "orOutpoint r = create_key c \<and> coin_of r = (soAddress c, soValueSats c) \<and> orSpentSource r = None"
    if "output_row_of pg (sbHash b) (sbHeight b) c = Inr r" for c r
    using that by (auto simp: output_row_of_def bindE_eq_Inr coin_of_def)
  have all: "list_all2 (\<lambda>c r. output_row_of pg (sbHash b) (sbHeight b) c = Inr r) (sbCreates b) rows"
    using assms by (simp add: rows_of_def mapE_eq_Inr)
  show "created b x = map_option coin_of (find (\<lambda>r. orOutpoint r = x) rows)"
    unfolding created_def using all by (induction rule: list_all2_induct) (auto dest: row)
  show "\<forall>r \<in> set rows. orSpentSource r = None"
    using all by (induction rule: list_all2_induct) (auto dest: row)
qed

lemma utxos_find:
  assumes "wf_outputs d"
  shows "utxos d x = (case find (\<lambda>r. orOutpoint r = x) (dbOutputs d) of
     None \<Rightarrow> None | Some r \<Rightarrow> if orSpentSource r = None then Some (coin_of r) else None)"
  using assms by (auto simp: utxos_def wf_outputs_def intro!: map_of_filter_key)

lemma utxos_apply_tx:
  assumes "apply_tx pg b d = Inr (u, d')" and "wf_db d"
  shows "utxos d' = ledger_step (orOutpoint ` set (dbOutputs d)) b (utxos d)"
  using assms(1)
proof (rule apply_tx_Inr)
  fix rows t
  assume rows: "rows_of pg b rows" "foldE insert_output rows (dbOutputs d) = Inr t"
    and outs: "dbOutputs d' = map (mark_row pg (sbSpends b) (block_height b)) t"
  have wf: "wf_outputs d" "wf_outputs d'"
    using assms(2) wf_db_apply_tx [OF assms] by (simp_all add: wf_db_def)
  have t: "t = insert_new orOutpoint rows (dbOutputs d)" using rows(2) by (rule foldE_insert_output)
  show ?thesis
  proof
    fix x
    let ?P = "\<lambda>r. orOutpoint r = x"
    let ?m = "mark_row pg (sbSpends b) (block_height b)" and ?spent = "spend_key ` set (sbSpends b)"
    have find': "find ?P (dbOutputs d') = map_option ?m
        (case find ?P (dbOutputs d) of Some r \<Rightarrow> Some r | None \<Rightarrow> find ?P rows)"
      by (simp add: outs t find_insert_new find_map_same_key)
    have mark: "orSpentSource (?m r) = None \<longleftrightarrow> orSpentSource r = None \<and> x \<notin> ?spent"
        "coin_of (?m r) = coin_of r" if "orOutpoint r = x" for r
      using that by (simp_all only: mark_row_spent coin_of_def mark_row_key)
    show "utxos d' x = ledger_step (orOutpoint ` set (dbOutputs d)) b (utxos d) x"
    proof (cases "find ?P (dbOutputs d)")
      case (Some r)
      then have "r \<in> set (dbOutputs d)" "orOutpoint r = x" by (auto dest: find_SomeD)
      then have "x \<in> orOutpoint ` set (dbOutputs d)" by blast
      then show ?thesis
        using Some mark [OF \<open>orOutpoint r = x\<close>]
        by (simp add: utxos_find [OF wf(1)] utxos_find [OF wf(2)] find' ledger_step_def restrict_map_def map_add_def)
    next
      case None
      then have new: "x \<notin> orOutpoint ` set (dbOutputs d)" by (auto simp: find_eq_None_iff)
      have "utxos d' x = (if x \<in> ?spent then None else created b x)"
      proof (cases "find ?P rows")
        case (Some r)
        then have "orOutpoint r = x" "orSpentSource r = None"
          using find_rows_of(2) [OF rows(1)] by (auto dest: find_SomeD)
        then show ?thesis
          using None Some mark [OF \<open>orOutpoint r = x\<close>]
          by (simp add: utxos_find [OF wf(2)] find' find_rows_of(1) [OF rows(1)])
      qed (use None in \<open>simp add: utxos_find [OF wf(2)] find' find_rows_of(1) [OF rows(1)]\<close>)
      then show ?thesis
        using None new by (simp add: utxos_find [OF wf(1)] ledger_step_def restrict_map_def map_add_def)
    qed
  qed
qed

lemma length_filter_keys:
  assumes "distinct (map k t)"
  shows "length (filter (\<lambda>r. k r \<in> S) t) = card (S \<inter> k ` set t)"
proof -
  have "distinct (map k (filter (\<lambda>r. k r \<in> S) t))" using assms by (rule distinct_map_filter)
  then have "length (filter (\<lambda>r. k r \<in> S) t) = card (k ` set (filter (\<lambda>r. k r \<in> S) t))"
    by (metis distinct_card length_map list.set_map)
  moreover have "k ` set (filter (\<lambda>r. k r \<in> S) t) = S \<inter> k ` set t" by auto
  ultimately show ?thesis by simp
qed

lemma unknown_spends_count:
  assumes "apply_tx pg b d = Inr (u, d')" and "wf_db d" and "distinct (map spend_key (sbSpends b))"
  shows "u = int (card (spend_key ` set (sbSpends b) - orOutpoint ` set (dbOutputs d) - create_key ` set (sbCreates b)))"
  using assms(1)
proof (rule apply_tx_Inr)
  fix rows t
  let ?S = "spend_key ` set (sbSpends b)" and ?K = "orOutpoint ` set (dbOutputs d) \<union> create_key ` set (sbCreates b)"
  assume rows: "rows_of pg b rows" "foldE insert_output rows (dbOutputs d) = Inr t"
    and u: "u = int (length (sbSpends b)) - int (length (filter (\<lambda>r. orOutpoint r \<in> ?S) t))"
  have t: "t = insert_new orOutpoint rows (dbOutputs d)" using rows(2) by (rule foldE_insert_output)
  have keys: "orOutpoint ` set t = ?K" by (simp add: t keys_insert_new rows_of_keys [OF rows(1)])
  have "distinct (map orOutpoint t)"
    unfolding t using assms(2) by (intro distinct_insert_new) (simp add: wf_db_def wf_outputs_def)
  then have hit: "length (filter (\<lambda>r. orOutpoint r \<in> ?S) t) = card (?S \<inter> ?K)"
    by (simp add: length_filter_keys keys)
  have all: "length (sbSpends b) = card ?S" using assms(3) by (metis distinct_card length_map list.set_map)
  have "card ?S = card (?S \<inter> ?K) + card (?S - ?K)" by (simp add: card_Int_Diff)
  then show ?thesis by (simp add: u hit all Diff_eq Int_assoc)
qed

end
