(* ===== verification/Store_Properties.thy ===== *)
theory Store_Properties
  imports Store_Chain
begin

text \<open>
  The properties of the write side of the store, with a small concrete chain on which their witnesses
  evaluate: a genesis block that pays one coin, and a second block whose transaction spends it and pays
  another.
\<close>

subsection \<open>A concrete chain\<close>

definition ex_pg :: pg where
  "ex_pg = \<lparr>pgFault = \<lambda>_. False, pgCommit = Committed, pgJsonb = Some, pgPick = \<lambda>_. 0\<rparr>"

abbreviation ex_hash :: "byte \<Rightarrow> hash" where "ex_hash n \<equiv> replicate 32 n"

definition ex_output :: "out_point_kind \<Rightarrow> hash \<Rightarrow> int \<Rightarrow> s_output" where
  "ex_output kind src v = \<lparr>soOutPoint = \<lparr>opKind = kind, opSource = src, opVout = 0\<rparr>,
     soAddress = replicate 20 7, soValueSats = v, soContent = Some JNull, soContentType = ''bitcoin'',
     soHeightExact = True\<rparr>"

definition ex_genesis :: s_block where
  "ex_genesis = \<lparr>sbHeight = 0, sbHash = ex_hash 10, sbPrevHash = None, sbMerkleRoot = ex_hash 20,
     sbMainHash = ex_hash 30, sbMainHeight = None, sbBlockTime = None, sbTxs = [],
     sbCreates = [ex_output KindCoinbase (ex_hash 40) 50], sbSpends = []\<rparr>"

definition ex_block1 :: s_block where
  "ex_block1 = \<lparr>sbHeight = 1, sbHash = ex_hash 11, sbPrevHash = Some (ex_hash 10), sbMerkleRoot = ex_hash 21,
     sbMainHash = ex_hash 31, sbMainHeight = None, sbBlockTime = None,
     sbTxs = [\<lparr>stTxid = ex_hash 41, stIndex = 0, stSizeBytes = 99, stFeeSats = 0, stRaw = []\<rparr>],
     sbCreates = [ex_output KindRegular (ex_hash 41) 30],
     sbSpends = [\<lparr>spOutPoint = \<lparr>opKind = KindCoinbase, opSource = ex_hash 40, opVout = 0\<rparr>,
                   spSource = ex_hash 41, spKind = SpendRegular, spVin = 0\<rparr>]\<rparr>"

definition ex_empty :: db where
  "ex_empty = empty_db\<lparr>dbSync := Some \<lparr>ssChain = ''thunder'', ssNetwork = ''signet'',
     ssTipHeight = None, ssTipHash = None\<rparr>\<rparr>"

definition ex_db0 :: db where "ex_db0 = snd (Apply ex_pg ex_genesis ex_empty)"
definition ex_db1 :: db where "ex_db1 = snd (Apply ex_pg ex_block1 ex_db0)"

lemma ex_pg_simps [simp]: "no_fault ex_pg" "pgJsonb ex_pg = Some" "pgPick ex_pg k = 0"
  by (simp_all add: ex_pg_def no_fault_def)

lemma ex_keys [simp]:
  "Key \<lparr>opKind = KindRegular, opSource = ex_hash 41, opVout = 0\<rparr>
     \<noteq> Key \<lparr>opKind = KindCoinbase, opSource = ex_hash 40, opVout = 0\<rparr>"
  "Key \<lparr>opKind = KindCoinbase, opSource = ex_hash 40, opVout = 0\<rparr>
     \<noteq> Key \<lparr>opKind = KindRegular, opSource = ex_hash 41, opVout = 0\<rparr>"
  by (simp_all add: Key_eq_iff wf_out_point_def wf_hash_def)

lemma ex_heights [simp]: "int32_of_u32 0 = 0" "int32_of_u32 1 = 1" "int32_of_u32 2 = 2"
  by (simp_all add: int32_of_u32_def)

lemmas apply_defs = apply_tx_def insertBlock_def insertTxs_def insertOutputs_def applySpends_def setFees_def
  clearMempool_def clear_when_def setTip_def update_tip_def block_row_of_def tx_row_of_def output_row_of_def
  to_jsonb_def insert_output_def same_coinbase_def mark_row_def mark_spent_def pick_spend_def set_fee_def fee_of_def
  sum_values_def to_bigint_def Let_def

lemmas ex_defs = ex_genesis_def ex_block1_def ex_output_def ex_empty_def empty_db_def

lemma apply_genesis: "apply_tx ex_pg ex_genesis ex_empty = Inr (0, ex_db0)"
  by (simp add: ex_db0_def Apply_def inTx_no_fault) (simp add: apply_defs ex_defs)

lemma ex_db0_eq: "ex_db0 = \<lparr>dbBlocks = [block_row_of ex_genesis], dbTxs = [],
   dbOutputs = [\<lparr>orOutpoint = Key \<lparr>opKind = KindCoinbase, opSource = ex_hash 40, opVout = 0\<rparr>,
      orKind = KindCoinbase, orSource = ex_hash 40, orVout = 0, orAddress = replicate 20 7,
      orScripthash = ScriptHash (replicate 20 7), orValueSats = 50, orContent = JNull,
      orContentType = ''bitcoin'', orBlockHash = ex_hash 10, orHeight = 0, orHeightExact = True,
      orSpentSource = None, orSpentKind = None, orSpentVin = None, orSpentHeight = None\<rparr>],
   dbSync = Some \<lparr>ssChain = ''thunder'', ssNetwork = ''signet'', ssTipHeight = Some 0,
      ssTipHash = Some (ex_hash 10)\<rparr>,
   dbMempoolTxs = [], dbMempoolOutputs = [], dbMempoolSpends = []\<rparr>"
  by (simp add: ex_db0_def Apply_def inTx_no_fault) (simp add: apply_defs ex_defs)

lemma apply_block1: "apply_tx ex_pg ex_block1 ex_db0 = Inr (0, ex_db1)"
  by (simp add: ex_db1_def Apply_def inTx_no_fault)
     (simp add: ex_db0_eq apply_defs ex_defs wf_hash_def int32_of_def)

subsection \<open>Properties\<close>

text \<open>
  C8. A block is written whole or not at all, whatever fails: after \<open>Apply\<close>, whether a statement,
  the begin or the commit failed, the tables are the old ones and the caller got an error, or the block
  row, all its transactions and all its coins are in, every coin it spends is marked with its height,
  the tip names it, and nothing of it is left in the unconfirmed set.
\<close>

theorem Apply_all_or_nothing:
  assumes "Apply pg b d = (r, d')"
  shows "(d' = d \<and> (\<exists>e. r = Inl e))
    \<or> ((r = Inl ErrDatabase \<or> (\<exists>u. r = Inr u))
       \<and> dbBlocks d' = dbBlocks d @ [block_row_of b]
       \<and> xrTxid ` set (dbTxs d') = xrTxid ` set (dbTxs d) \<union> stTxid ` set (sbTxs b)
       \<and> orOutpoint ` set (dbOutputs d') = orOutpoint ` set (dbOutputs d) \<union> create_key ` set (sbCreates b)
       \<and> (\<forall>o' \<in> set (dbOutputs d'). orOutpoint o' \<in> spend_key ` set (sbSpends b)
             \<longrightarrow> orSpentHeight o' = Some (int32_of_u32 (sbHeight b)) \<and> orSpentSource o' \<noteq> None)
       \<and> (\<forall>s. dbSync d' = Some s \<longrightarrow> ssTipHeight s = Some (int32_of_u32 (sbHeight b)) \<and> ssTipHash s = Some (sbHash b))
       \<and> mrTxid ` set (dbMempoolTxs d') \<inter> stTxid ` set (sbTxs b) = {}
       \<and> orOutpoint ` set (dbMempoolOutputs d') \<inter> create_key ` set (sbCreates b) = {}
       \<and> msOutpoint ` set (dbMempoolSpends d') \<inter> spend_key ` set (sbSpends b) = {})"
  using assms unfolding Apply_def
proof (rule inTx_cases)
  fix u assume u: "apply_tx pg b d = Inr (u, d')" and r: "r = Inr u \<or> r = Inl ErrDatabase"
  from u show ?thesis
  proof (rule apply_tx_Inr)
    fix rows t
    assume rows: "rows_of pg b rows" "foldE insert_output rows (dbOutputs d) = Inr t"
      and outs: "dbOutputs d' = map (mark_row pg (sbSpends b) (block_height b)) t"
      and fees: "mapE (set_fee (dbOutputs d') (block_height b))
        (insert_new xrTxid (map (tx_row_of (sbHeight b)) (sbTxs b)) (dbTxs d)) = Inr (dbTxs d')"
    have "map xrTxid (dbTxs d') = map xrTxid (insert_new xrTxid (map (tx_row_of (sbHeight b)) (sbTxs b)) (dbTxs d))"
      by (rule mapE_map_eq [OF fees]) (rule set_fee_Inr(1))
    then have "xrTxid ` set (dbTxs d') = xrTxid ` set (insert_new xrTxid (map (tx_row_of (sbHeight b)) (sbTxs b)) (dbTxs d))"
      by (metis list.set_map)
    then have txs: "xrTxid ` set (dbTxs d') = xrTxid ` set (dbTxs d) \<union> stTxid ` set (sbTxs b)"
      by (simp add: keys_insert_new image_image tx_row_of_def)
    have coins: "orOutpoint ` set (dbOutputs d') = orOutpoint ` set (dbOutputs d) \<union> create_key ` set (sbCreates b)"
      using keys_insert_new [of orOutpoint rows "dbOutputs d"] rows_of_keys [OF rows(1)]
      by (simp add: outs image_image foldE_insert_output [OF rows(2)])
    have spent: "\<forall>o' \<in> set (dbOutputs d'). orOutpoint o' \<in> spend_key ` set (sbSpends b)
        \<longrightarrow> orSpentHeight o' = Some (block_height b) \<and> orSpentSource o' \<noteq> None"
      by (simp add: outs mark_row_hit)
    assume "dbBlocks d' = dbBlocks d @ [block_row_of b]"
      and "dbMempoolTxs d' = filter (\<lambda>r. mrTxid r \<notin> stTxid ` set (sbTxs b)) (dbMempoolTxs d)"
      and "dbMempoolOutputs d' = filter (\<lambda>r. orOutpoint r \<notin> create_key ` set (sbCreates b)) (dbMempoolOutputs d)"
      and "dbMempoolSpends d' = filter (\<lambda>r. msOutpoint r \<notin> spend_key ` set (sbSpends b)) (dbMempoolSpends d)"
      and "dbSync d' = map_option (\<lambda>s. s\<lparr>ssTipHeight := Some (block_height b), ssTipHash := Some (sbHash b)\<rparr>) (dbSync d)"
    note facts = this
    show ?thesis
      by (rule disjI2, intro conjI) (use facts txs coins spent r in auto)
  qed
qed auto

theorem Apply_all_or_nothing_witness:
  "xrTxid ` set (dbTxs ex_db1) = {ex_hash 41} \<and> length (dbBlocks ex_db1) = 2"
proof -
  have "Apply ex_pg ex_block1 ex_db0 = (Inr 0, ex_db1)"
    by (simp add: Apply_def inTx_no_fault apply_block1)
  from Apply_all_or_nothing [OF this] show ?thesis by (auto simp: ex_db0_eq ex_block1_def)
qed


lemma ex_db0_wf: "wf_db ex_db0"
  using apply_genesis wf_db_apply_tx by (simp add: ex_empty_def)

lemma ex_db0_level: "level ex_db0"
  by (simp add: level_def ex_db0_eq block_row_of_def ex_genesis_def wf_hash_def)

lemma ex_db0_blocks: "dbBlocks ex_db0 = [block_row_of ex_genesis]"
  by (simp add: ex_db0_eq)

lemma ex_clean1: "clean ex_block1 ex_db0"
  by (simp add: clean_def ex_db0_eq)

lemma ex_clean: "clean_run [(ex_pg, ex_block1)] ex_db0"
  by (simp add: apply_block1 ex_clean1)

lemma ex_block1_height: "sbHeight ex_block1 = 1"
  by (simp add: ex_block1_def)


text \<open>
  C6. The unspent outputs of the index refine an abstract ledger: a block that \<open>Apply\<close> accepts
  adds the coins it creates under outpoints the index never held and removes the coins it spends,
  whatever the order of its rows, and the count of unknown spends is exact when it spends no outpoint
  twice: the outpoints neither indexed before nor created by the block itself.
\<close>

theorem Apply_refines_ledger:
  assumes "wf_db d" and "Apply pg b d = (Inr u, d')"
  shows "utxos d' = ledger_step (orOutpoint ` set (dbOutputs d)) b (utxos d)
    \<and> (distinct (map spend_key (sbSpends b)) \<longrightarrow>
      u = int (card (spend_key ` set (sbSpends b) - orOutpoint ` set (dbOutputs d) - create_key ` set (sbCreates b))))"
proof (intro conjI)
  have a: "apply_tx pg b d = Inr (u, d')" using assms(2) unfolding Apply_def by (rule inTx_eq_Inr)
  show "utxos d' = ledger_step (orOutpoint ` set (dbOutputs d)) b (utxos d)"
    using a assms(1) by (rule utxos_apply_tx)
  show "distinct (map spend_key (sbSpends b)) \<longrightarrow>
      u = int (card (spend_key ` set (sbSpends b) - orOutpoint ` set (dbOutputs d) - create_key ` set (sbCreates b)))"
    using unknown_spends_count [OF a assms(1)] by simp
qed

theorem Apply_refines_ledger_witness:
  "utxos ex_db1 (Key \<lparr>opKind = KindCoinbase, opSource = ex_hash 40, opVout = 0\<rparr>) = None
   \<and> utxos ex_db1 (Key \<lparr>opKind = KindRegular, opSource = ex_hash 41, opVout = 0\<rparr>) = Some (replicate 20 7, 30)"
proof -
  have "Apply ex_pg ex_block1 ex_db0 = (Inr 0, ex_db1)"
    by (simp add: Apply_def inTx_no_fault apply_block1)
  note refines = Apply_refines_ledger [OF ex_db0_wf this, THEN conjunct1]
  show ?thesis
    unfolding refines by (simp add: ledger_step_def created_def utxos_def ex_block1_def ex_output_def ex_db0_eq
        map_add_def restrict_map_def)
qed

text \<open>
  C26. A coin that a repeated transaction creates again stays spent: when the index already holds the
  outpoint as spent, a later block that creates it once more leaves it out of the unspent set, although
  the coin exists again on the chain.
\<close>

theorem repeated_coin_stays_spent:
  assumes "wf_db d" and "Apply pg b d = (Inr u, d')" and "c \<in> set (sbCreates b)"
    and "r \<in> set (dbOutputs d)" and "orOutpoint r = create_key c" and "orSpentSource r \<noteq> None"
  shows "created b (create_key c) \<noteq> None \<and> utxos d' (create_key c) = None"
proof
  show "created b (create_key c) \<noteq> None"
    unfolding created_def map_of_eq_None_iff using assms(3) by (simp add: image_image)
  have wf: "wf_outputs d" using assms(1) by (simp add: wf_db_def)
  then have "find (\<lambda>x. orOutpoint x = create_key c) (dbOutputs d) = Some r"
    using assms(4,5) by (intro find_map_unique) (auto simp: wf_outputs_def)
  then have "utxos d (create_key c) = None" using assms(6) by (simp add: utxos_find [OF wf])
  moreover have "create_key c \<in> orOutpoint ` set (dbOutputs d)" using assms(4,5) by (metis imageI)
  moreover have "apply_tx pg b d = Inr (u, d')" using assms(2) unfolding Apply_def by (rule inTx_eq_Inr)
  ultimately show "utxos d' (create_key c) = None"
    using utxos_apply_tx assms(1) by (simp add: ledger_step_def restrict_map_def map_add_def)
qed

text \<open>The second block of the example, and a third one that carries the coin of the first again.\<close>

definition ex_block2 :: s_block where
  "ex_block2 = ex_genesis\<lparr>sbHeight := 2, sbHash := ex_hash 12\<rparr>"

definition ex_db2 :: db where "ex_db2 = snd (Apply ex_pg ex_block2 ex_db1)"

lemma ex_db1_outputs: "dbOutputs ex_db1 =
   [\<lparr>orOutpoint = Key \<lparr>opKind = KindCoinbase, opSource = ex_hash 40, opVout = 0\<rparr>,
      orKind = KindCoinbase, orSource = ex_hash 40, orVout = 0, orAddress = replicate 20 7,
      orScripthash = ScriptHash (replicate 20 7), orValueSats = 50, orContent = JNull,
      orContentType = ''bitcoin'', orBlockHash = ex_hash 10, orHeight = 0, orHeightExact = True,
      orSpentSource = Some (ex_hash 41), orSpentKind = Some SpendRegular, orSpentVin = Some 0,
      orSpentHeight = Some 1\<rparr>,
    \<lparr>orOutpoint = Key \<lparr>opKind = KindRegular, opSource = ex_hash 41, opVout = 0\<rparr>,
      orKind = KindRegular, orSource = ex_hash 41, orVout = 0, orAddress = replicate 20 7,
      orScripthash = ScriptHash (replicate 20 7), orValueSats = 30, orContent = JNull,
      orContentType = ''bitcoin'', orBlockHash = ex_hash 11, orHeight = 1, orHeightExact = True,
      orSpentSource = None, orSpentKind = None, orSpentVin = None, orSpentHeight = None\<rparr>]"
  and ex_db1_blocks: "dbBlocks ex_db1 = [block_row_of ex_genesis, block_row_of ex_block1]"
  and ex_db1_txs: "dbTxs ex_db1 = [\<lparr>xrTxid = ex_hash 41, xrHeight = 1, xrIndex = 0, xrSizeBytes = 99,
      xrFeeSats = 20, xrRaw = []\<rparr>]"
  by (simp_all add: ex_db1_def Apply_def inTx_no_fault)
     (simp_all add: ex_db0_eq apply_defs ex_defs wf_hash_def int32_of_def)

lemma ex_db1_wf: "wf_db ex_db1"
  using apply_block1 ex_db0_wf by (rule wf_db_apply_tx)

lemma apply_block2: "apply_tx ex_pg ex_block2 ex_db1 = Inr (0, ex_db2)"
  by (simp add: ex_db2_def Apply_def inTx_no_fault)
     (simp add: ex_db1_outputs ex_db1_blocks ex_db1_txs apply_defs ex_defs ex_block2_def)

theorem repeated_coin_stays_spent_witness:
  "created ex_block2 (Key \<lparr>opKind = KindCoinbase, opSource = ex_hash 40, opVout = 0\<rparr>) \<noteq> None
   \<and> utxos ex_db2 (Key \<lparr>opKind = KindCoinbase, opSource = ex_hash 40, opVout = 0\<rparr>) = None"
proof -
  have "Apply ex_pg ex_block2 ex_db1 = (Inr 0, ex_db2)"
    by (simp add: Apply_def inTx_no_fault apply_block2)
  from repeated_coin_stays_spent [OF ex_db1_wf this, of "ex_output KindCoinbase (ex_hash 40) 50" "dbOutputs ex_db1 ! 0"]
  show ?thesis by (simp add: ex_db1_outputs ex_block2_def ex_genesis_def ex_output_def)
qed

end
