(* ===== verification/Store_Read.thy ===== *)
theory Store_Read
  imports Store_Properties "HOL-Library.Product_Lexorder" "HOL-Library.Multiset"
begin

text \<open>
  The read side of the store: \<open>internal/store/read.go\<close>, \<open>internal/store/tx.go\<close> and
  \<open>internal/store/activity.go\<close>. A query is a function on the tables: \<open>WHERE\<close> is \<open>filter\<close>,
  \<open>JOIN blocks\<close> looks the block of a height up, \<open>UNION\<close> drops duplicates, \<open>ORDER BY\<close> is a
  stable sort on the listed columns (\<open>DESC\<close> negates the column), and \<open>LIMIT\<close> takes a prefix.
  Rows with equal sort columns keep the order of the table, which Postgres leaves open; no theorem
  depends on it. A sum that does not fit the \<open>int64\<close> it is scanned into is an error.
\<close>

record txo_stats =
  tsFundedCount :: int
  tsFundedSum :: int
  tsSpentCount :: int
  tsSpentSum :: int
  tsTxCount :: int

record utxo =
  utOutPoint :: out_point
  utValueSats :: int
  utHeight :: u32
  utBlockHash :: hash
  utBlockTime :: "int option"
  utContentType :: string
  utContent :: json
  utHeightExact :: bool
  utUnconfirmed :: bool

record tx_ref =
  rfTxid :: hash
  rfHeight :: u32

record block_info =
  bwHeight :: u32
  bwHash :: hash
  bwPrevHash :: "hash option"
  bwMerkleRoot :: hash
  bwMainHash :: bitcoin_hash
  bwMainHeight :: "u32 option"
  bwBlockTime :: "int option"
  bwTxCount :: int
  bwFeeSats :: int
  bwValueSats :: int

record coin =
  ccOutPoint :: out_point
  ccAddress :: address
  ccValueSats :: int
  ccContent :: json
  ccContentType :: string
  ccHeight :: u32
  ccSpentSource :: "hash option"
  ccSpentKind :: "in_point_kind option"
  ccSpentHeight :: "u32 option"

record tx_detail =
  twTxid :: hash
  twHeight :: u32
  twIndex :: int
  twSizeBytes :: int
  twFeeSats :: int
  twRaw :: bytes
  twBlock :: "block_info option"
  twVin :: "coin list"
  twVout :: "coin list"
  twUnconfirmed :: bool

subsection \<open>Columns, heights and limits\<close>

abbreviation ColumnAddress :: string where "ColumnAddress \<equiv> ''address''"

abbreviation ColumnScriptHash :: string where "ColumnScriptHash \<equiv> ''scripthash''"

definition checkKeyColumn :: "string \<Rightarrow> unit res" where
  "checkKeyColumn column =
     (if column = ColumnAddress \<or> column = ColumnScriptHash then Inr () else Inl (ErrColumn column))"

definition key_column :: "string \<Rightarrow> 'z coin_row_scheme \<Rightarrow> bytes" where
  "key_column column r = (if column = ColumnAddress then orAddress r else orScripthash r)"

definition clampHeight :: "u32 \<Rightarrow> int" where
  "clampHeight height = (if 0x7FFFFFFF < height then max_int32 else int32_of_u32 height)"

text \<open>\<open>LIMIT $n\<close> refuses a negative bound.\<close>

definition limit_rows :: "int \<Rightarrow> 'a list \<Rightarrow> 'a list res" where
  "limit_rows n xs = (if n < 0 then Inl ErrDatabase else Inr (take (nat n) xs))"

definition block_at :: "db \<Rightarrow> int \<Rightarrow> block_row option" where
  "block_at d h = find (\<lambda>b. brHeight b = h) (dbBlocks d)"

text \<open>\<open>outputs o JOIN blocks b ON b.height = o.height\<close>.\<close>

definition join_blocks :: "db \<Rightarrow> output_row list \<Rightarrow> (output_row \<times> block_row) list" where
  "join_blocks d rs = List.map_filter (\<lambda>r. map_option (Pair r) (block_at d (orHeight r))) rs"

definition row_out_point :: "'z coin_row_scheme \<Rightarrow> out_point" where
  "row_out_point r = \<lparr>opKind = orKind r, opSource = copy_into 32 (orSource r), opVout = u32_of_int32 (orVout r)\<rparr>"

subsection \<open>Addresses\<close>

definition Stats :: "pg \<Rightarrow> string \<Rightarrow> bytes \<Rightarrow> db \<Rightarrow> txo_stats res" where
  "Stats pg column key d =
     bindE (checkKeyColumn column) (\<lambda>_. exec pg (SQuery ''stats'')
       (let mine = filter (\<lambda>r. key_column column r = key) (dbOutputs d);
            spent = filter (\<lambda>r. orSpentSource r \<noteq> None) mine
        in bindE (to_bigint (sum_list (map orValueSats mine))) (\<lambda>fundedSum.
           bindE (to_bigint (sum_list (map orValueSats spent))) (\<lambda>spentSum. Inr
             \<lparr>tsFundedCount = int (length mine), tsFundedSum = fundedSum,
              tsSpentCount = int (length spent), tsSpentSum = spentSum,
              tsTxCount = int (length (remdups (map orSource mine @ List.map_filter orSpentSource mine)))\<rparr>))))"

text \<open>\<open>scanUTXOs\<close>, one row.\<close>

definition scan_utxo :: "output_row \<times> block_row \<Rightarrow> utxo" where
  "scan_utxo p = (case p of (r, b) \<Rightarrow>
     \<lparr>utOutPoint = row_out_point r, utValueSats = orValueSats r, utHeight = u32_of_int32 (orHeight r),
      utBlockHash = copy_into 32 (orBlockHash r), utBlockTime = brBlockTime b, utContentType = orContentType r,
      utContent = orContent r, utHeightExact = orHeightExact r, utUnconfirmed = False\<rparr>)"

definition newest_first :: "(output_row \<times> block_row) list \<Rightarrow> (output_row \<times> block_row) list" where
  "newest_first = sort_key (\<lambda>p. (- orHeight (fst p), orVout (fst p)))"

definition UTXOs :: "pg \<Rightarrow> string \<Rightarrow> bytes \<Rightarrow> db \<Rightarrow> utxo list res" where
  "UTXOs pg column key d =
     bindE (checkKeyColumn column) (\<lambda>_. exec pg (SQuery ''utxos'')
       (Inr (map scan_utxo (newest_first (join_blocks d
          (filter (\<lambda>r. key_column column r = key \<and> orSpentSource r = None) (dbOutputs d)))))))"

text \<open>An empty mainchain txid is the SQL \<open>NULL\<close>, which matches every deposit.\<close>

definition Deposits :: "pg \<Rightarrow> bytes \<Rightarrow> u32 \<Rightarrow> int \<Rightarrow> db \<Rightarrow> utxo list res" where
  "Deposits pg mainchainTxid startHeight limit d = exec pg (SQuery ''deposits'')
     (bindE (limit_rows limit (newest_first (join_blocks d
        (filter (\<lambda>r. orKind r = KindDeposit \<and> (mainchainTxid = [] \<or> orSource r = mainchainTxid)
            \<and> orHeight r \<le> clampHeight startHeight) (dbOutputs d))))) (\<lambda>rows. Inr (map scan_utxo rows)))"

definition AddressDeposits :: "pg \<Rightarrow> address \<Rightarrow> int \<Rightarrow> db \<Rightarrow> utxo list res" where
  "AddressDeposits pg address limit d = exec pg (SQuery ''address deposits'')
     (bindE (limit_rows limit (newest_first (join_blocks d
        (filter (\<lambda>r. orAddress r = address \<and> orKind r = KindDeposit) (dbOutputs d))))) (\<lambda>rows.
       Inr (map scan_utxo rows)))"

text \<open>
  A row reaches the history for the block that created it and for the block that spent it. The union
  has no duplicates, so the order by height and id is total.
\<close>

definition touched :: "string \<Rightarrow> bytes \<Rightarrow> db \<Rightarrow> (int \<times> bytes) list" where
  "touched column key d =
     (let mine = filter (\<lambda>r. key_column column r = key) (dbOutputs d)
      in remdups (map (\<lambda>r. (orHeight r, orSource r)) (filter (\<lambda>r. orKind r = KindRegular) mine)
           @ List.map_filter (\<lambda>r. case (orSpentHeight r, orSpentSource r) of
                (Some h, Some s) \<Rightarrow> Some (h, s) | _ \<Rightarrow> None) mine))"

definition History :: "pg \<Rightarrow> string \<Rightarrow> bytes \<Rightarrow> u32 \<Rightarrow> int \<Rightarrow> db \<Rightarrow> tx_ref list res" where
  "History pg column key beforeHeight limit d =
     bindE (checkKeyColumn column) (\<lambda>_. exec pg (SQuery ''history'')
       (bindE (limit_rows limit (sort_key (\<lambda>(h, i). (- h, i))
          (filter (\<lambda>(h, i). h \<le> clampHeight beforeHeight) (touched column key d)))) (\<lambda>rows.
         Inr (map (\<lambda>(h, i). \<lparr>rfTxid = copy_into 32 i, rfHeight = u32_of_int32 h\<rparr>) rows))))"

subsection \<open>Blocks\<close>

text \<open>\<open>blockColumns\<close> and \<open>scanBlock\<close>: the stored columns with the sums over the block's transactions.\<close>

definition scanBlock :: "db \<Rightarrow> block_row \<Rightarrow> block_info res" where
  "scanBlock d b =
     (let mine = filter (\<lambda>t. xrHeight t = brHeight b) (dbTxs d);
          values = sum_list (map (\<lambda>t. sum_values (\<lambda>r. orSource r = xrTxid t \<and> orKind r = KindRegular) (dbOutputs d)) mine)
      in bindE (to_bigint (sum_list (map xrFeeSats mine))) (\<lambda>fees.
         bindE (to_bigint values) (\<lambda>vals. Inr
           \<lparr>bwHeight = u32_of_int32 (brHeight b), bwHash = copy_into 32 (brHash b),
            bwPrevHash = (case brPrevHash b of Some p \<Rightarrow> if length p = 32 then Some (copy_into 32 p) else None
                          | None \<Rightarrow> None),
            bwMerkleRoot = copy_into 32 (brMerkleRoot b), bwMainHash = copy_into 32 (brMainHash b),
            bwMainHeight = map_option u32_of_int32 (brMainHeight b), bwBlockTime = brBlockTime b,
            bwTxCount = brTxCount b, bwFeeSats = fees, bwValueSats = vals\<rparr>)))"

definition scan_one :: "db \<Rightarrow> block_row option \<Rightarrow> block_info res" where
  "scan_one d row = (case row of None \<Rightarrow> Inl ErrNotFound | Some b \<Rightarrow> scanBlock d b)"

definition BlockByHash :: "pg \<Rightarrow> hash \<Rightarrow> db \<Rightarrow> block_info res" where
  "BlockByHash pg hash d = exec pg (SQuery ''block by hash'') (scan_one d (find (\<lambda>b. brHash b = hash) (dbBlocks d)))"

definition BlockAtHeight :: "pg \<Rightarrow> u32 \<Rightarrow> db \<Rightarrow> block_info res" where
  "BlockAtHeight pg height d = exec pg (SQuery ''block at height'') (scan_one d (block_at d (int32_of_u32 height)))"

definition Blocks :: "pg \<Rightarrow> u32 \<Rightarrow> int \<Rightarrow> db \<Rightarrow> block_info list res" where
  "Blocks pg startHeight limit d = exec pg (SQuery ''blocks'')
     (bindE (limit_rows limit (sort_key (\<lambda>b. - brHeight b)
        (filter (\<lambda>b. brHeight b \<le> int32_of_u32 startHeight) (dbBlocks d)))) (mapE (scanBlock d)))"

definition BlocksMissingMainHeight :: "pg \<Rightarrow> int \<Rightarrow> db \<Rightarrow> block_info list res" where
  "BlocksMissingMainHeight pg limit d = exec pg (SQuery ''missing main heights'')
     (bindE (limit_rows limit (sort_key (\<lambda>b. - brHeight b)
        (filter (\<lambda>b. brMainHeight b = None) (dbBlocks d)))) (mapE (scanBlock d)))"

definition BlockTxids :: "pg \<Rightarrow> hash \<Rightarrow> db \<Rightarrow> hash list res" where
  "BlockTxids pg hash d = exec pg (SQuery ''block txids'')
     (Inr (map (\<lambda>t. copy_into 32 (xrTxid t)) (sort_key xrIndex
        (filter (\<lambda>t. \<exists>b \<in> set (dbBlocks d). brHeight b = xrHeight t \<and> brHash b = hash) (dbTxs d)))))"

subsection \<open>Transactions\<close>

definition scan_coin :: "output_row \<Rightarrow> coin" where
  "scan_coin r =
     \<lparr>ccOutPoint = row_out_point r, ccAddress = copy_into 20 (orAddress r), ccValueSats = orValueSats r,
      ccContent = orContent r, ccContentType = orContentType r, ccHeight = u32_of_int32 (orHeight r),
      ccSpentSource = (case orSpentSource r of Some s \<Rightarrow> if length s = 32 then Some (copy_into 32 s) else None
                       | None \<Rightarrow> None),
      ccSpentKind = orSpentKind r, ccSpentHeight = map_option u32_of_int32 (orSpentHeight r)\<rparr>"

definition coins :: "pg \<Rightarrow> string \<Rightarrow> (output_row \<Rightarrow> bool) \<Rightarrow> (output_row \<Rightarrow> int) \<Rightarrow> db \<Rightarrow> coin list res" where
  "coins pg tag P k d = exec pg (SQuery tag) (Inr (map scan_coin (sort_key k (filter P (dbOutputs d)))))"

definition inputs_of :: "hash \<Rightarrow> output_row \<Rightarrow> bool" where
  "inputs_of txid r \<longleftrightarrow> orSpentSource r = Some txid \<and> orSpentKind r = Some SpendRegular"

definition outputs_of :: "hash \<Rightarrow> 'z coin_row_scheme \<Rightarrow> bool" where
  "outputs_of txid r \<longleftrightarrow> orSource r = txid \<and> orKind r = KindRegular"

definition spent_vin :: "output_row \<Rightarrow> int" where
  "spent_vin r = (case orSpentVin r of Some v \<Rightarrow> v | None \<Rightarrow> 0)"

definition Outspends :: "pg \<Rightarrow> hash \<Rightarrow> db \<Rightarrow> coin list res" where
  "Outspends pg txid d = coins pg ''outspends'' (outputs_of txid) orVout d"

definition Tx :: "pg \<Rightarrow> hash \<Rightarrow> db \<Rightarrow> tx_detail res" where
  "Tx pg txid d =
     bindE (exec pg (SQuery ''tx'') (case find (\<lambda>t. xrTxid t = txid) (dbTxs d) of
         None \<Rightarrow> Inl ErrNotFound | Some t \<Rightarrow> Inr t)) (\<lambda>t.
     bindE (BlockAtHeight pg (u32_of_int32 (xrHeight t)) d) (\<lambda>block.
     bindE (coins pg ''tx inputs'' (inputs_of txid) spent_vin d) (\<lambda>vin.
     bindE (coins pg ''tx outputs'' (outputs_of txid) orVout d) (\<lambda>vout. Inr
       \<lparr>twTxid = txid, twHeight = u32_of_int32 (xrHeight t), twIndex = xrIndex t, twSizeBytes = xrSizeBytes t,
        twFeeSats = xrFeeSats t, twRaw = xrRaw t, twBlock = Some block, twVin = vin, twVout = vout,
        twUnconfirmed = False\<rparr>))))"

subsection \<open>Activity\<close>

record activity_row =
  avKind :: string
  avID :: hash
  avHeight :: u32
  avBlockHash :: hash
  avBlockTime :: "int option"
  avFeeSats :: int
  avSizeBytes :: int
  avValueSats :: int

text \<open>A line of the feed before the join with its block: kind, id, height, ordinal, fee, size, value.\<close>

type_synonym feed_line = "string \<times> bytes \<times> int \<times> int \<times> int \<times> int \<times> int"

definition tx_feed :: "db \<Rightarrow> feed_line list" where
  "tx_feed d = map (\<lambda>t.
     (if \<exists>o' \<in> set (dbOutputs d). outputs_of (xrTxid t) o' \<and> orContentType o' = ''withdrawal''
      then ''withdrawal'' else ''transfer'',
      xrTxid t, xrHeight t, xrIndex t, xrFeeSats t, xrSizeBytes t,
      sum_values (outputs_of (xrTxid t)) (dbOutputs d))) (dbTxs d)"

text \<open>\<open>GROUP BY o.source_id, o.height\<close> over the deposits.\<close>

definition deposit_feed :: "db \<Rightarrow> feed_line list" where
  "deposit_feed d =
     (let deposits = filter (\<lambda>r. orKind r = KindDeposit) (dbOutputs d)
      in map (\<lambda>(s, h). (''deposit'', s, h, -1, 0, 0, sum_values (\<lambda>r. orSource r = s \<and> orHeight r = h) deposits))
           (remdups (map (\<lambda>r. (orSource r, orHeight r)) deposits)))"

definition feed :: "db \<Rightarrow> (feed_line \<times> block_row) list" where
  "feed d = List.map_filter (\<lambda>f. case f of (kind, i, h, r) \<Rightarrow> map_option (Pair f) (block_at d h))
     (tx_feed d @ deposit_feed d)"

definition scanActivity :: "feed_line \<times> block_row \<Rightarrow> activity_row res" where
  "scanActivity p = (case p of ((kind, i, h, ordinal, fee, size', value), b) \<Rightarrow>
     bindE (to_bigint value) (\<lambda>v. Inr
       \<lparr>avKind = kind, avID = copy_into 32 i, avHeight = u32_of_int32 h, avBlockHash = copy_into 32 (brHash b),
        avBlockTime = brBlockTime b, avFeeSats = fee, avSizeBytes = size', avValueSats = v\<rparr>))"

definition Activity :: "pg \<Rightarrow> int \<Rightarrow> db \<Rightarrow> activity_row list res" where
  "Activity pg limit d = exec pg (SQuery ''activity'')
     (bindE (limit_rows limit (sort_key (\<lambda>p. case p of ((kind, i, h, ordinal, r), b) \<Rightarrow> (- h, - ordinal)) (feed d)))
       (mapE scanActivity))"

definition ActivityInBlock :: "pg \<Rightarrow> hash \<Rightarrow> db \<Rightarrow> activity_row list res" where
  "ActivityInBlock pg hash d = exec pg (SQuery ''block activity'')
     (mapE scanActivity (sort_key (\<lambda>p. case p of ((kind, i, h, ordinal, r), b) \<Rightarrow> - ordinal)
        (filter (\<lambda>p. brHash (snd p) = hash) (feed d))))"

subsection \<open>Facts on queries\<close>

lemma exec_InrD: "exec pg st r = Inr x \<Longrightarrow> r = Inr x"
  by (simp add: exec_eq_Inr)

lemma checkKeyColumn_Inr: "checkKeyColumn c = Inr u \<longleftrightarrow> c = ColumnAddress \<or> c = ColumnScriptHash"
  by (simp add: checkKeyColumn_def)

lemma sum_list_sort_key: "sum_list (map f (sort_key k xs)) = sum_list (map (f :: 'a \<Rightarrow> int) xs)"
proof -
  have "mset (map f (sort_key k xs)) = mset (map f xs)" by simp
  then show ?thesis by (metis sum_mset_sum_list)
qed

text \<open>The join with \<open>blocks\<close> loses no output of a well-formed index.\<close>

lemma wf_block_at:
  assumes "wf_db d" and "r \<in> set (dbOutputs d)"
  shows "\<exists>b. block_at d (orHeight r) = Some b \<and> brHash b = orBlockHash r"
proof -
  obtain b where b: "b \<in> set (dbBlocks d)" "brHeight b = orHeight r" "brHash b = orBlockHash r"
    using assms by (auto simp: wf_db_def wf_outputs_def wf_output_def)
  moreover have "distinct (map brHeight (dbBlocks d))" using assms(1) by (simp add: wf_db_def wf_blocks_def)
  ultimately have "block_at d (orHeight r) = Some b" unfolding block_at_def by (intro find_map_unique) auto
  then show ?thesis using b by blast
qed

lemma join_blocks_all:
  assumes "wf_db d" and "set rs \<subseteq> set (dbOutputs d)"
  shows "map fst (join_blocks d rs) = rs"
  using assms(2)
proof (induction rs)
  case (Cons r rs)
  obtain b where "block_at d (orHeight r) = Some b" using wf_block_at [OF assms(1), of r] Cons.prems by auto
  then show ?case using Cons by (simp add: join_blocks_def map_filter_simps)
qed (simp add: join_blocks_def map_filter_simps)

lemma scan_utxo_fst:
  "utValueSats (scan_utxo p) = orValueSats (fst p)" "utOutPoint (scan_utxo p) = row_out_point (fst p)"
  "utHeight (scan_utxo p) = u32_of_int32 (orHeight (fst p))"
  by (simp_all add: scan_utxo_def split: prod.splits)

lemma Key_row_out_point:
  assumes "wf_output bs r"
  shows "Key (row_out_point r) = orOutpoint r"
  using assms by (simp add: wf_output_def row_out_point_def Key_def)

lemma utxos_rows:
  assumes "wf_outputs d"
  shows "(\<lambda>r. (orOutpoint r, orValueSats r)) ` set (filter (\<lambda>r. key_column ColumnAddress r = a \<and> orSpentSource r = None) (dbOutputs d))
    = {(k, v). utxos d k = Some (a, v)}"
proof -
  have "find (\<lambda>x. orOutpoint x = orOutpoint r) (dbOutputs d) = Some r" if "r \<in> set (dbOutputs d)" for r
    using that assms by (intro find_map_unique) (auto simp: wf_outputs_def)
  then show ?thesis
    by (force simp: utxos_find [OF assms] key_column_def coin_of_def dest: find_SomeD split: option.splits if_splits)
qed

lemma sint_negative:
  fixes w :: u32
  assumes "2 ^ 31 \<le> unat w"
  shows "sint w < 0"
proof -
  have "sint w = signed_take_bit 31 (uint w)" by (simp add: sint_uint)
  moreover have "bit (uint w) 31"
  proof -
    have "int (2 ^ 31) \<le> int (unat w)" using assms by (simp only: of_nat_le_iff)
    then have "2147483648 \<le> uint w" by simp
    moreover have "uint w < 4294967296" using uint_lt2p [of w] by simp
    ultimately have "uint w div 2147483648 = 1" by simp
    then show ?thesis by (simp add: bit_iff_odd)
  qed
  ultimately show ?thesis by (simp add: signed_take_bit_negative_iff)
qed

text \<open>A page: \<open>ORDER BY\<close> a key, then \<open>LIMIT\<close>.\<close>

definition page_of :: "('a \<Rightarrow> 'k::linorder) \<Rightarrow> int \<Rightarrow> 'a set \<Rightarrow> 'a list \<Rightarrow> bool" where
  "page_of k limit all page \<longleftrightarrow>
     sorted_wrt (\<lambda>x y. k x < k y) page \<and> set page \<subseteq> all \<and> int (length page) \<le> limit
     \<and> (int (length page) < limit \<longrightarrow> set page = all)
     \<and> (\<forall>x \<in> all - set page. \<forall>y \<in> set page. k y < k x)"

lemma page_of_limit_rows:
  assumes "limit_rows limit (sort_key k xs) = Inr page" and "distinct (map k xs)"
  shows "page_of k limit (set xs) page"
proof -
  let ?s = "sort_key k xs"
  have page: "page = take (nat limit) ?s" and lim: "0 \<le> limit"
    using assms(1) by (auto simp: limit_rows_def split: if_splits)
  have "mset (map k ?s) = mset (map k xs)" by simp
  then have "distinct (map k ?s)" using assms(2) mset_eq_imp_distinct_iff by blast
  then have "sorted_wrt (<) (map k ?s)"
    using sorted_sort_key [of k xs] by (simp only: strict_sorted_iff)
  then have "sorted_wrt (\<lambda>x y. k x < k y) ?s" by (simp only: sorted_wrt_map)
  then have parts: "sorted_wrt (\<lambda>x y. k x < k y) page"
    "\<forall>y \<in> set page. \<forall>x \<in> set (drop (nat limit) ?s). k y < k x"
    unfolding page by (metis append_take_drop_id sorted_wrt_append)+
  have "set ?s = set page \<union> set (drop (nat limit) ?s)" unfolding page by (metis append_take_drop_id set_append)
  then have rest: "set xs - set page \<subseteq> set (drop (nat limit) ?s)" by auto
  have "set page = set xs" if "int (length page) < limit"
  proof -
    have "length ?s \<le> nat limit" using that by (simp add: page min_def split: if_splits)
    then show ?thesis by (simp add: page)
  qed
  moreover have "set page \<subseteq> set xs" unfolding page by (metis set_sort set_take_subset)
  moreover have "int (length page) \<le> limit" using lim by (simp add: page)
  ultimately show ?thesis using parts rest unfolding page_of_def by blast
qed

lemma strict_sorted_page: "sorted_wrt (\<lambda>x y. (k x :: 'k::linorder) < k y) xs \<Longrightarrow> distinct xs"
  by (induction xs) auto

lemma distinct_touched: "distinct (map (\<lambda>(h, i). (- h, i)) (touched column key d))"
  by (auto simp: touched_def Let_def distinct_map inj_on_def)

subsection \<open>Properties\<close>

text \<open>
  The balance of an address or scripthash agrees with its unspent outputs: what \<open>Stats\<close> counts
  as funded less what it counts as spent is the number of rows \<open>UTXOs\<close> lists, and the same for the
  sums; no coin is lost in the join with the blocks.
\<close>

theorem Stats_balance:
  assumes "wf_db d" and "Stats pg column key d = Inr s" and "UTXOs pg' column key d = Inr us"
  shows "tsFundedCount s - tsSpentCount s = int (length us)
    \<and> tsFundedSum s - tsSpentSum s = sum_list (map utValueSats us)"
proof -
  let ?mine = "filter (\<lambda>r. key_column column r = key) (dbOutputs d)"
  let ?spent = "filter (\<lambda>r. orSpentSource r \<noteq> None) ?mine" and ?free = "filter (\<lambda>r. \<not> orSpentSource r \<noteq> None) ?mine"
  have s: "tsFundedCount s = int (length ?mine)" "tsSpentCount s = int (length ?spent)"
    "tsFundedSum s = sum_list (map orValueSats ?mine)" "tsSpentSum s = sum_list (map orValueSats ?spent)"
    using assms(2) by (auto simp: Stats_def Let_def bindE_eq_Inr exec_eq_Inr to_bigint_def split: if_splits)
  have us: "us = map scan_utxo (newest_first (join_blocks d
      (filter (\<lambda>r. key_column column r = key \<and> orSpentSource r = None) (dbOutputs d))))"
    using assms(3) by (auto simp: UTXOs_def bindE_eq_Inr exec_eq_Inr)
  have free: "filter (\<lambda>r. key_column column r = key \<and> orSpentSource r = None) (dbOutputs d) = ?free"
    by (simp add: conj_commute)
  have join: "map fst (join_blocks d ?free) = ?free" using assms(1) by (intro join_blocks_all) auto
  then have "length us = length ?free"
    unfolding us free by (metis (no_types, lifting) length_map length_sort newest_first_def)
  moreover have "sum_list (map utValueSats us) = sum_list (map orValueSats ?free)"
  proof -
    have "sum_list (map utValueSats us) = sum_list (map (orValueSats \<circ> fst) (join_blocks d ?free))"
      unfolding us free newest_first_def by (simp add: comp_def scan_utxo_fst sum_list_sort_key)
    also have "\<dots> = sum_list (map orValueSats (map fst (join_blocks d ?free)))" by (simp only: map_map)
    finally show ?thesis by (simp only: join)
  qed
  moreover have "length ?mine = length ?spent + length ?free" by (rule sum_length_filter_compl [symmetric])
  moreover have "sum_list (map orValueSats ?mine) = sum_list (map orValueSats ?spent) + sum_list (map orValueSats ?free)"
    by (rule sum_list_filter_split)
  ultimately show ?thesis using s by simp
qed

text \<open>
  C17. \<open>UTXOs\<close> of an address is the restriction of the ledger to that address: it lists each unspent
  coin of the address under its own outpoint with its value, nothing else, and newest first.
\<close>

theorem UTXOs_are_the_ledger:
  assumes "wf_db d" and "UTXOs pg ColumnAddress a d = Inr us"
  shows "(\<lambda>u. (Key (utOutPoint u), utValueSats u)) ` set us = {(k, v). utxos d k = Some (a, v)}
    \<and> (\<exists>hs. sorted (map uminus hs) \<and> map utHeight us = map u32_of_int32 hs)"
proof
  let ?rows = "filter (\<lambda>r. key_column ColumnAddress r = a \<and> orSpentSource r = None) (dbOutputs d)"
  have wf: "wf_outputs d" using assms(1) by (simp add: wf_db_def)
  have us: "us = map scan_utxo (newest_first (join_blocks d ?rows))"
    using assms(2) by (auto simp: UTXOs_def bindE_eq_Inr exec_eq_Inr)
  have join: "map fst (join_blocks d ?rows) = ?rows" using assms(1) by (intro join_blocks_all) auto
  have "fst ` set (join_blocks d ?rows) = set ?rows" by (metis join list.set_map)
  then have "(\<lambda>u. (Key (utOutPoint u), utValueSats u)) ` set us = (\<lambda>r. (Key (row_out_point r), orValueSats r)) ` set ?rows"
    by (simp add: us newest_first_def image_image scan_utxo_fst flip: image_comp [of _ fst, unfolded comp_def])
       (metis (no_types, lifting) image_cong image_image)
  also have "\<dots> = (\<lambda>r. (orOutpoint r, orValueSats r)) ` set ?rows"
    using wf by (intro image_cong refl) (auto simp: wf_outputs_def Key_row_out_point)
  also have "\<dots> = {(k, v). utxos d k = Some (a, v)}" using utxos_rows [OF wf, of a] by simp
  finally show "(\<lambda>u. (Key (utOutPoint u), utValueSats u)) ` set us = {(k, v). utxos d k = Some (a, v)}" .
  let ?s = "newest_first (join_blocks d ?rows)"
  have "sorted (map (\<lambda>p. (- orHeight (fst p), orVout (fst p))) ?s)" by (simp add: newest_first_def)
  then have "sorted (map (\<lambda>p. - orHeight (fst p)) ?s)"
    by (simp add: sorted_map) (erule sorted_wrt_mono_rel [rotated], auto)
  moreover have "map utHeight us = map u32_of_int32 (map (\<lambda>p. orHeight (fst p)) ?s)"
    by (simp add: us scan_utxo_fst)
  ultimately show "\<exists>hs. sorted (map uminus hs) \<and> map utHeight us = map u32_of_int32 hs"
    by (intro exI [of _ "map (\<lambda>p. orHeight (fst p)) ?s"]) (simp add: comp_def)
qed

lemma History_page_of:
  assumes "History pg column key beforeHeight limit d = Inr refs"
  shows "\<exists>page. refs = map (\<lambda>(h, i). \<lparr>rfTxid = copy_into 32 i, rfHeight = u32_of_int32 h\<rparr>) page
    \<and> page_of (\<lambda>(h, i). (- h, i)) limit
        {(h, i) \<in> set (touched column key d). h \<le> clampHeight beforeHeight} page"
proof -
  let ?k = "\<lambda>(h, i). (- h :: int, i :: bytes)"
  let ?all = "filter (\<lambda>(h, i). h \<le> clampHeight beforeHeight) (touched column key d)"
  obtain page where page: "limit_rows limit (sort_key ?k ?all) = Inr page"
    and refs: "refs = map (\<lambda>(h, i). \<lparr>rfTxid = copy_into 32 i, rfHeight = u32_of_int32 h\<rparr>) page"
    using assms by (auto simp: History_def bindE_eq_Inr exec_eq_Inr)
  have "distinct (map ?k ?all)" using distinct_touched by (rule distinct_map_filter)
  from page_of_limit_rows [OF page this] show ?thesis
    using refs by (intro exI [of _ page]) (simp add: case_prod_unfold)
qed


text \<open>
  A start height of \<open>2 ^ 31\<close> or more makes \<open>Blocks\<close> return nothing on any index, because the
  height is converted without \<open>clampHeight\<close> and becomes negative; the same height means no upper bound
  to \<open>Deposits\<close> and \<open>History\<close>, which clamp it.
\<close>

theorem Blocks_wraps:
  assumes "level d" and "2 ^ 31 \<le> unat h" and "0 \<le> limit" and "no_fault pg"
  shows "Blocks pg h limit d = Inr [] \<and> clampHeight h = max_int32"
proof
  have "int32_of_u32 h < 0"
    unfolding int32_of_u32_def using assms(2) by (rule sint_negative)
  moreover have "0 \<le> brHeight b" if "b \<in> set (dbBlocks d)" for b
    using that level_heights [OF assms(1)] by (auto simp: in_set_conv_nth)
  ultimately have "filter (\<lambda>b. brHeight b \<le> int32_of_u32 h) (dbBlocks d) = []" by (intro filter_none) fastforce
  then show "Blocks pg h limit d = Inr []" using assms(3,4) by (simp add: Blocks_def limit_rows_def)
  have "0x7FFFFFFF < h" using assms(2) by (simp add: word_less_nat_alt)
  then show "clampHeight h = max_int32" by (simp add: clampHeight_def)
qed

subsubsection \<open>Witnesses\<close>

theorem Stats_balance_witness:
  "Stats ex_pg ColumnAddress (replicate 20 7) ex_db1
     = Inr \<lparr>tsFundedCount = 2, tsFundedSum = 80, tsSpentCount = 1, tsSpentSum = 50, tsTxCount = 2\<rparr>
   \<and> (\<exists>us. UTXOs ex_pg ColumnAddress (replicate 20 7) ex_db1 = Inr us \<and> length us = 1 \<and> sum_list (map utValueSats us) = 30)"
proof
  show stats: "Stats ex_pg ColumnAddress (replicate 20 7) ex_db1
     = Inr \<lparr>tsFundedCount = 2, tsFundedSum = 80, tsSpentCount = 1, tsSpentSum = 50, tsTxCount = 2\<rparr>"
    by (simp add: Stats_def checkKeyColumn_def key_column_def ex_db1_outputs to_bigint_def Let_def)
  obtain us where us: "UTXOs ex_pg ColumnAddress (replicate 20 7) ex_db1 = Inr us"
    by (simp add: UTXOs_def checkKeyColumn_def)
  from Stats_balance [OF ex_db1_wf stats us]
  show "\<exists>us. UTXOs ex_pg ColumnAddress (replicate 20 7) ex_db1 = Inr us \<and> length us = 1 \<and> sum_list (map utValueSats us) = 30"
    using us by auto
qed

theorem UTXOs_are_the_ledger_witness:
  "\<exists>us. UTXOs ex_pg ColumnAddress (replicate 20 7) ex_db1 = Inr us
     \<and> (\<lambda>u. (Key (utOutPoint u), utValueSats u)) ` set us
       = {(Key \<lparr>opKind = KindRegular, opSource = ex_hash 41, opVout = 0\<rparr>, 30)}"
proof -
  obtain us where us: "UTXOs ex_pg ColumnAddress (replicate 20 7) ex_db1 = Inr us"
    by (simp add: UTXOs_def checkKeyColumn_def)
  moreover have "{(k, v). utxos ex_db1 k = Some (replicate 20 7, v)}
      = {(Key \<lparr>opKind = KindRegular, opSource = ex_hash 41, opVout = 0\<rparr>, 30)}"
    by (auto simp: utxos_def ex_db1_outputs coin_of_def split: if_splits)
  ultimately show ?thesis using UTXOs_are_the_ledger [OF ex_db1_wf us] by auto
qed


theorem Blocks_wraps_witness:
  "Blocks ex_pg 0x80000000 10 ex_db0 = Inr [] \<and> clampHeight 0x80000000 = max_int32"
  by (rule Blocks_wraps [OF ex_db0_level]) simp_all

end
