(* ===== verification/Http.thy ===== *)
theory Http
  imports Json
begin

text \<open>
  What both HTTP clients of the program use of \<open>net/http\<close> and of \<open>fmt\<close>: an exchange posts a text to a
  URL and gets no answer, an answer whose body breaks off, or an answer with a status and a body. The
  other side and the JSON parser are arguments.
\<close>

datatype reply = NoAnswer | Broken | Answer nat string

type_synonym exchange = "string \<Rightarrow> string \<Rightarrow> reply"

type_synonym parser = "string \<Rightarrow> json option"

definition quote :: char where "quote = CHR 0x22"

text \<open>\<open>strings.TrimRight(s, "/")\<close>.\<close>

definition trim_slashes :: "string \<Rightarrow> string" where
  "trim_slashes s = rev (dropWhile (\<lambda>c. c = CHR ''/'') (rev s))"

text \<open>\<open>%q\<close> of a text in printable ASCII.\<close>

definition quoted :: "string \<Rightarrow> string" where
  "quoted s = quote # concat (map (\<lambda>c. if c = quote \<or> c = CHR 0x5C then [CHR 0x5C, c] else [c]) s) @ [quote]"

text \<open>\<open>json.Unmarshal\<close> of a text into a variable that holds \<open>old\<close>.\<close>

definition unmarshal :: "parser \<Rightarrow> (json \<Rightarrow> 'a \<Rightarrow> 'a res) \<Rightarrow> string \<Rightarrow> 'a \<Rightarrow> 'a res" where
  "unmarshal parse un text old = (case parse text of None \<Rightarrow> Inl ErrJsonSyntax | Some j \<Rightarrow> un j old)"

lemma trim_slashes_clean: "s \<noteq> [] \<Longrightarrow> last (trim_slashes s) = CHR ''/'' \<Longrightarrow> trim_slashes s = []"
  unfolding trim_slashes_def by (metis (mono_tags, lifting) hd_dropWhile last_rev rev_is_Nil_conv)

lemma trim_slashes_idem [simp]: "trim_slashes (trim_slashes s) = trim_slashes s"
  by (simp add: trim_slashes_def)

end
