(* ===== verification/Json_Text.thy ===== *)
theory Json_Text
  imports Http
begin

text \<open>
  The text form of JSON, as \<open>json.Marshal\<close> writes it and \<open>json.Unmarshal\<close> reads it. The clients take
  the reader and the writer as arguments; the locale \<open>json_text\<close> is what they rely on, and the two
  functions below provide it for values whose strings are ASCII and whose numbers are JSON numbers.
  The reader takes its fuel from the length of the text, since every call consumes a character. The
  limit of the library on the depth of a value is not modelled.
\<close>

subsection \<open>Numbers\<close>

definition is_digit :: "char \<Rightarrow> bool" where
  "is_digit c \<longleftrightarrow> digit_val c \<noteq> None"

definition number_char :: "char \<Rightarrow> bool" where
  "number_char c \<longleftrightarrow> is_digit c \<or> c \<in> set ''+-.eE''"

definition valid_exp :: "string \<Rightarrow> bool" where
  "valid_exp s =
     (case s of [] \<Rightarrow> True
      | e # t \<Rightarrow> e \<in> set ''eE'' \<and>
         (let u = (case t of [] \<Rightarrow> [] | c # cs \<Rightarrow> if c \<in> set ''+-'' then cs else t) in u \<noteq> [] \<and> (\<forall>c \<in> set u. is_digit c)))"

definition valid_frac :: "string \<Rightarrow> bool" where
  "valid_frac s =
     (case s of [] \<Rightarrow> True
      | d # t \<Rightarrow> if d = CHR ''.'' then t \<noteq> [] \<and> is_digit (hd t) \<and> valid_exp (dropWhile is_digit t) else valid_exp s)"

definition valid_int :: "string \<Rightarrow> bool" where
  "valid_int s =
     (case s of [] \<Rightarrow> False
      | d # t \<Rightarrow> if d = CHR ''0'' then valid_frac t else is_digit d \<and> valid_frac (dropWhile is_digit t))"

definition valid_number :: "string \<Rightarrow> bool" where
  "valid_number s = valid_int (case s of [] \<Rightarrow> [] | c # cs \<Rightarrow> if c = CHR ''-'' then cs else s)"

subsection \<open>The writer\<close>

definition escape_char :: "char \<Rightarrow> string" where
  "escape_char c =
     (if c = quote \<or> c = CHR 0x5C then [CHR 0x5C, c]
      else if c = CHR 0x08 then [CHR 0x5C, CHR ''b''] else if c = CHR 0x0C then [CHR 0x5C, CHR ''f'']
      else if c = CHR 0x0A then [CHR 0x5C, CHR ''n''] else if c = CHR 0x0D then [CHR 0x5C, CHR ''r'']
      else if c = CHR 0x09 then [CHR 0x5C, CHR ''t'']
      else if of_char c < (32 :: nat) \<or> c \<in> set ''<>&'' then
        [CHR 0x5C, CHR ''u'', CHR ''0'', CHR ''0'', hex_digit (of_char c div 16), hex_digit (of_char c mod 16)]
      else [c])"

definition write_string :: "string \<Rightarrow> string" where
  "write_string s = quote # concat (map escape_char s) @ [quote]"

text \<open>The elements of an array or object, each after the first with a comma before it.\<close>

fun commas :: "string list \<Rightarrow> string" where
  "commas [] = []"
| "commas [x] = x"
| "commas (x # y # ys) = x @ CHR '','' # commas (y # ys)"

fun write_json :: "json \<Rightarrow> string" where
  "write_json JNull = ''null''"
| "write_json (JBool b) = (if b then ''true'' else ''false'')"
| "write_json (JNum lit) = lit"
| "write_json (JStr s) = write_string s"
| "write_json (JArr js) = CHR ''['' # commas (map write_json js) @ '']''"
| "write_json (JObj kvs) = CHR ''{'' # commas (map (\<lambda>(k, v). write_string k @ CHR '':'' # write_json v) kvs) @ ''}''"

subsection \<open>The reader\<close>

definition white :: "char \<Rightarrow> bool" where
  "white c \<longleftrightarrow> c \<in> {CHR '' '', CHR 0x09, CHR 0x0A, CHR 0x0D}"

definition skip_white :: "string \<Rightarrow> string" where
  "skip_white = dropWhile white"

text \<open>The raw text of a string literal up to its closing quote, and what follows.\<close>

fun scan_string :: "string \<Rightarrow> (string \<times> string) option" where
  "scan_string [] = None"
| "scan_string (c # cs) =
     (if c = quote then Some ([], cs)
      else if c \<noteq> CHR 0x5C then map_option (\<lambda>(b, r). (c # b, r)) (scan_string cs)
      else (case cs of [] \<Rightarrow> None | e # es \<Rightarrow> map_option (\<lambda>(b, r). (c # e # b, r)) (scan_string es)))"

definition read_string :: "string \<Rightarrow> (string \<times> string) option" where
  "read_string s =
     (case scan_string s of None \<Rightarrow> None
      | Some (b, r) \<Rightarrow> map_option (\<lambda>t. (t, r)) (json_unquote b))"

definition read_literal :: "string \<Rightarrow> json \<Rightarrow> string \<Rightarrow> (json \<times> string) option" where
  "read_literal lit j s = (if take (length lit) s = lit then Some (j, drop (length lit) s) else None)"

definition read_number :: "string \<Rightarrow> (json \<times> string) option" where
  "read_number s = (let lit = takeWhile number_char s in
     if valid_number lit then Some (JNum lit, dropWhile number_char s) else None)"

fun read_value :: "nat \<Rightarrow> string \<Rightarrow> (json \<times> string) option"
  and read_elements :: "nat \<Rightarrow> string \<Rightarrow> (json list \<times> string) option"
  and read_members :: "nat \<Rightarrow> string \<Rightarrow> ((string \<times> json) list \<times> string) option" where
  "read_value 0 s = None"
| "read_value (Suc n) s =
     (case skip_white s of [] \<Rightarrow> None
      | c # cs \<Rightarrow>
        if c = CHR ''['' then
          (case skip_white cs of [] \<Rightarrow> None
           | d # ds \<Rightarrow> if d = CHR '']'' then Some (JArr [], ds) else map_option (\<lambda>(js, r). (JArr js, r)) (read_elements n cs))
        else if c = CHR ''{'' then
          (case skip_white cs of [] \<Rightarrow> None
           | d # ds \<Rightarrow> if d = CHR ''}'' then Some (JObj [], ds) else map_option (\<lambda>(kvs, r). (JObj kvs, r)) (read_members n cs))
        else if c = quote then map_option (\<lambda>(t, r). (JStr t, r)) (read_string cs)
        else if c = CHR ''n'' then read_literal ''null'' JNull (c # cs)
        else if c = CHR ''t'' then read_literal ''true'' (JBool True) (c # cs)
        else if c = CHR ''f'' then read_literal ''false'' (JBool False) (c # cs)
        else read_number (c # cs))"
| "read_elements 0 s = None"
| "read_elements (Suc n) s =
     (case read_value n s of None \<Rightarrow> None
      | Some (j, r) \<Rightarrow>
        (case skip_white r of [] \<Rightarrow> None
         | d # ds \<Rightarrow> if d = CHR '']'' then Some ([j], ds)
                     else if d = CHR '','' then map_option (\<lambda>(js, r). (j # js, r)) (read_elements n ds)
                     else None))"
| "read_members 0 s = None"
| "read_members (Suc n) s =
     (case skip_white s of [] \<Rightarrow> None
      | q # cs \<Rightarrow>
        if q \<noteq> quote then None
        else (case read_string cs of None \<Rightarrow> None
              | Some (k, r) \<Rightarrow>
                (case skip_white r of [] \<Rightarrow> None
                 | e # es \<Rightarrow>
                   if e \<noteq> CHR '':'' then None
                   else (case read_value n es of None \<Rightarrow> None
                         | Some (v, r') \<Rightarrow>
                           (case skip_white r' of [] \<Rightarrow> None
                            | d # ds \<Rightarrow> if d = CHR ''}'' then Some ([(k, v)], ds)
                                        else if d = CHR '','' then map_option (\<lambda>(kvs, r). ((k, v) # kvs, r)) (read_members n ds)
                                        else None)))))"

definition read_json :: "string \<Rightarrow> json option" where
  "read_json s =
     (case read_value (Suc (length s)) s of None \<Rightarrow> None
      | Some (j, r) \<Rightarrow> if skip_white r = [] then Some j else None)"

subsection \<open>Reading what was written\<close>

definition ascii :: "string \<Rightarrow> bool" where
  "ascii s \<longleftrightarrow> (\<forall>c \<in> set s. of_char c < (128 :: nat))"

text \<open>The values that keep their text: ASCII strings and valid numbers, at every depth.\<close>

fun json_ok :: "json \<Rightarrow> bool" where
  "json_ok (JNum lit) = valid_number lit"
| "json_ok (JStr s) = ascii s"
| "json_ok (JArr js) = (\<forall>j \<in> set js. json_ok j)"
| "json_ok (JObj kvs) = (\<forall>(k, v) \<in> set kvs. ascii k \<and> json_ok v)"
| "json_ok _ = True"

lemma hex4_byte: "n < 256 \<Longrightarrow> hex4 (CHR ''0'') (CHR ''0'') (hex_digit (n div 16)) (hex_digit (n mod 16)) = Some n"
proof -
  assume "n < 256"
  then have "n div 16 < 16" by simp
  moreover have "hex_val (CHR ''0'') = Some 0" by (simp add: hex_val_def)
  ultimately show ?thesis by (simp add: hex4_def hex_val_digit)
qed

lemma utf8_ascii: "of_char c < (128 :: nat) \<Longrightarrow> utf8_bmp (of_char c) = [c]"
  by (simp add: utf8_bmp_def)

lemma append_one: "(@) [c] = (#) c"
  by (simp add: fun_eq_iff)

lemma unquote_escape:
  assumes "of_char c < (128 :: nat)"
  shows "json_unquote (escape_char c @ t) = map_option (\<lambda>s. c # s) (json_unquote t)"
proof -
  have "of_char c < (256 :: nat)" using assms by simp
  from hex4_byte [OF this] utf8_ascii [OF assms] show ?thesis
    by (auto simp: escape_char_def plain_char_def simple_escape_def quote_def option.map_comp o_def append_one)
qed

lemma scan_escape: "scan_string (escape_char c @ t) = map_option (\<lambda>(b, r). (escape_char c @ b, r)) (scan_string t)"
proof -
  have "hex_digit n \<noteq> quote \<and> hex_digit n \<noteq> CHR 0x5C" if "n < 16" for n
    using plain_hex_digit [OF that] by (simp add: plain_char_def quote_def)
  moreover have "(of_char c :: nat) div 16 < 16" using nat_of_char_less_256 [of c] by (intro less_mult_imp_div_less) simp
  ultimately show ?thesis
    by (cases "scan_string t") (auto simp: escape_char_def quote_def)
qed

lemma read_write_string:
  assumes "ascii s"
  shows "read_string (concat (map escape_char s) @ quote # r) = Some (s, r)"
proof -
  have "scan_string (concat (map escape_char s) @ quote # r) = Some (concat (map escape_char s), r)"
    by (induction s) (simp_all add: scan_escape)
  moreover have "json_unquote (concat (map escape_char s)) = Some s"
    using assms by (induction s) (simp_all add: unquote_escape ascii_def)
  ultimately show ?thesis by (simp add: read_string_def)
qed

lemma number_chars:
  assumes "valid_number lit" and "c \<in> set lit"
  shows "number_char c"
proof -
  have exp: "valid_exp s \<Longrightarrow> c \<in> set s \<Longrightarrow> number_char c" for s
    by (auto simp: valid_exp_def number_char_def Let_def split: list.splits if_splits)
  have digits: "c \<in> set s \<Longrightarrow> number_char c \<or> c \<in> set (dropWhile is_digit s)" for s
    by (induction s) (auto simp: number_char_def)
  have frac: "number_char c" if "valid_frac s" "c \<in> set s" for s
  proof (cases s)
    case (Cons d t)
    then have "c = CHR ''.'' \<or> c \<in> set t \<and> valid_exp (dropWhile is_digit t) \<or> valid_exp s"
      using that by (auto simp: valid_frac_def split: if_splits)
    then show ?thesis using exp [of "dropWhile is_digit t"] exp [of s] digits [of t] that(2) by (auto simp: number_char_def)
  qed (use that in simp)
  have int: "number_char c" if "valid_int s" "c \<in> set s" for s
  proof (cases s)
    case (Cons d t)
    have "is_digit (CHR ''0'')" by (simp add: is_digit_def digit_val_def)
    then have "is_digit d" "valid_frac t \<or> valid_frac (dropWhile is_digit t)"
      using that(1) by (auto simp: Cons valid_int_def split: if_splits)
    then show ?thesis using that(2) frac [of t] frac [of "dropWhile is_digit t"] digits [of t] by (auto simp: Cons number_char_def)
  qed (use that in simp)
  show ?thesis
  proof (cases lit)
    case (Cons d t)
    then show ?thesis using assms int [of t] int [of lit] by (auto simp: valid_number_def number_char_def split: if_splits)
  qed (use assms in simp)
qed

lemma number_head:
  assumes "valid_number lit"
  obtains c cs where "lit = c # cs" and "is_digit c \<or> c = CHR ''-''"
  using assms by (auto simp: valid_number_def valid_int_def is_digit_def digit_val_def split: list.splits if_splits)

text \<open>No value starts with a space or with what closes an array or an object.\<close>

lemma digit_plain: "is_digit c \<Longrightarrow> \<not> white c \<and> c \<notin> set ''[]{}ntf'' \<and> c \<noteq> quote"
  by (auto simp: is_digit_def digit_val_def white_def quote_def Let_def)

lemma number_start: "is_digit c \<or> c = CHR ''-'' \<Longrightarrow> \<not> white c \<and> c \<notin> set ''[]{}ntf'' \<and> c \<noteq> quote"
  by (elim disjE) (simp add: digit_plain del: list.set, simp add: white_def quote_def)

lemma write_head:
  assumes "json_ok j"
  shows "\<exists>c cs. write_json j = c # cs \<and> \<not> white c \<and> c \<noteq> CHR '']''"
proof (cases j)
  case (JNum lit)
  then have "valid_number lit" using assms by simp
  then obtain c cs where c: "lit = c # cs" "is_digit c \<or> c = CHR ''-''" by (rule number_head)
  then have "\<not> white c \<and> c \<noteq> CHR '']''" using number_start [of c] by simp
  then show ?thesis using c JNum by simp
qed (simp_all add: white_def write_string_def quote_def)

lemma read_write_number:
  assumes "valid_number lit" and "r = [] \<or> \<not> number_char (hd r)"
  shows "read_number (lit @ r) = Some (JNum lit, r)"
proof -
  have "\<forall>c \<in> set lit. number_char c" using number_chars [OF assms(1)] by blast
  then have "takeWhile number_char (lit @ r) = lit \<and> dropWhile number_char (lit @ r) = r"
    using assms(2) by (cases r) simp_all
  then show ?thesis using assms(1) by (simp add: read_number_def Let_def)
qed

text \<open>What may follow a value: nothing, or a character that is not part of a number.\<close>

definition ended :: "string \<Rightarrow> bool" where
  "ended r \<longleftrightarrow> r = [] \<or> \<not> number_char (hd r)"

definition reads_back :: "json \<Rightarrow> bool" where
  "reads_back j \<longleftrightarrow> (\<forall>n r. length (write_json j) < n \<longrightarrow> ended r \<longrightarrow> read_value n (write_json j @ r) = Some (j, r))"

lemma reads_backI:
  assumes "\<And>m r. length (write_json j) \<le> m \<Longrightarrow> ended r \<Longrightarrow> read_value (Suc m) (write_json j @ r) = Some (j, r)"
  shows "reads_back j"
  unfolding reads_back_def using assms by (metis Suc_le_eq Suc_le_D Suc_le_mono)

lemma ended_Cons: "c \<in> set '',]}'' \<Longrightarrow> ended (c # r)"
  by (auto simp: ended_def number_char_def is_digit_def digit_val_def)

lemma skip_white_Cons [simp]: "\<not> white c \<Longrightarrow> skip_white (c # cs) = c # cs"
  by (simp add: skip_white_def)

lemma not_white [simp]: "\<not> white (CHR '','')" "\<not> white (CHR '']'')" "\<not> white (CHR ''}'')" "\<not> white (CHR ''['')"
    "\<not> white (CHR ''{'')" "\<not> white (CHR '':'')" "\<not> white quote"
  by (simp_all add: white_def quote_def)

lemma quote_plain: "quote \<noteq> CHR ''[''" "quote \<noteq> CHR '']''" "quote \<noteq> CHR ''{''" "quote \<noteq> CHR ''}''"
  by (simp_all add: quote_def)

lemma read_write_elements:
  assumes "\<forall>j \<in> set js. reads_back j" and "js \<noteq> []" and "length (commas (map write_json js)) + 1 < n"
  shows "read_elements n (commas (map write_json js) @ CHR '']'' # r) = Some (js, r)"
  using assms
proof (induction "map write_json js" arbitrary: js n rule: commas.induct)
  case (2 x)
  then obtain j m where "js = [j]" "n = Suc m" by (cases n) auto
  moreover have "ended (CHR '']'' # r)" by (simp add: ended_Cons)
  ultimately show ?case using 2 by (simp add: reads_back_def)
next
  case (3 x y ys)
  obtain j k js' m where js: "js = j # k # js'" "n = Suc m" using "3.hyps"(2) "3.prems"(3) by (cases n) auto
  let ?rest = "commas (map write_json (k # js'))"
  have "read_value m (write_json j @ CHR '','' # ?rest @ CHR '']'' # r) = Some (j, CHR '','' # ?rest @ CHR '']'' # r)"
    using "3.prems"(1,3) js ended_Cons [of "CHR '',''"] by (simp add: reads_back_def)
  moreover have "read_elements m (?rest @ CHR '']'' # r) = Some (k # js', r)"
    using "3.hyps"(1) [of "k # js'" m] "3.hyps"(2) "3.prems" js by simp
  ultimately show ?case using js by simp
qed simp

definition write_member :: "string \<times> json \<Rightarrow> string" where
  "write_member kv = write_string (fst kv) @ CHR '':'' # write_json (snd kv)"

lemma read_write_member:
  assumes "ascii k" and "reads_back v" and "length (write_member (k, v)) \<le> m" and "d = CHR '','' \<or> d = CHR ''}''"
  shows "read_members (Suc m) (write_member (k, v) @ d # r) =
    (if d = CHR ''}'' then Some ([(k, v)], r) else map_option (\<lambda>(kvs, r). ((k, v) # kvs, r)) (read_members m r))"
proof -
  have "length (write_json v) < m" using assms(3) by (simp add: write_member_def)
  moreover have "ended (d # r)" using assms(4) by (auto intro: ended_Cons)
  ultimately have "read_value m (write_json v @ d # r) = Some (v, d # r)" using assms(2) by (simp add: reads_back_def)
  then show ?thesis
    using assms(4) read_write_string [OF assms(1), of "CHR '':'' # write_json v @ d # r"]
    by (auto simp: write_member_def write_string_def)
qed

lemma read_write_members:
  assumes "\<forall>(k, v) \<in> set kvs. ascii k \<and> reads_back v" and "kvs \<noteq> []" and "length (commas (map write_member kvs)) < n"
  shows "read_members n (commas (map write_member kvs) @ CHR ''}'' # r) = Some (kvs, r)"
  using assms
proof (induction "map write_member kvs" arbitrary: kvs n rule: commas.induct)
  case (2 x)
  then obtain k v m where "kvs = [(k, v)]" "n = Suc m" by (cases n) auto
  then show ?case using 2 read_write_member [of k v m "CHR ''}''" r] by simp
next
  case (3 x y ys)
  obtain k v kv kvs' m where js: "kvs = (k, v) # kv # kvs'" "n = Suc m"
    using "3.hyps"(2) "3.prems"(3) by (cases n) auto
  have "read_members m (commas (map write_member (kv # kvs')) @ CHR ''}'' # r) = Some (kv # kvs', r)"
    using "3.hyps"(1) [of "kv # kvs'" m] "3.hyps"(2) "3.prems" js by simp
  then show ?case using "3.prems" js read_write_member [of k v m "CHR '',''" "commas (map write_member (kv # kvs')) @ CHR ''}'' # r"]
    by simp
qed simp

lemma commas_head:
  assumes "x \<noteq> []"
  shows "\<exists>cs. commas (x # xs) = hd x # cs"
  using assms by (cases xs; cases x) auto

lemma json_reads_back: "json_ok j \<Longrightarrow> reads_back j"
proof (induction j)
  case (JNum lit)
  then have lit: "valid_number lit" by simp
  then obtain c cs where c: "lit = c # cs" "is_digit c \<or> c = CHR ''-''" by (rule number_head)
  note plain = number_start [OF c(2)]
  show ?case
  proof (rule reads_backI)
    fix m r assume "ended r"
    then have "read_number (lit @ r) = Some (JNum lit, r)" using read_write_number [OF lit] by (simp add: ended_def)
    then show "read_value (Suc m) (write_json (JNum lit) @ r) = Some (JNum lit, r)" using c(1) plain by simp
  qed
next
  case (JStr s)
  then show ?case using read_write_string [of s] quote_plain by (intro reads_backI) (simp add: write_string_def)
next
  case (JArr js)
  then have ok: "\<forall>j \<in> set js. json_ok j" and parts: "\<forall>j \<in> set js. reads_back j" by auto
  show ?case
  proof (rule reads_backI)
    fix m r assume m: "length (write_json (JArr js)) \<le> m"
    show "read_value (Suc m) (write_json (JArr js) @ r) = Some (JArr js, r)"
    proof (cases js)
      case (Cons j js')
      obtain c cs where c: "write_json j = c # cs" "\<not> white c" "c \<noteq> CHR '']''" using write_head ok Cons by force
      obtain ds where "commas (map write_json js) = c # ds" using commas_head [of "write_json j" "map write_json js'"] c Cons by auto
      then show ?thesis using read_write_elements [OF parts, of m r] Cons c m by simp
    qed simp
  qed
next
  case (JObj kvs)
  then have parts: "\<forall>(k, v) \<in> set kvs. ascii k \<and> reads_back v" by fastforce
  have "(\<lambda>(k, v). write_string k @ CHR '':'' # write_json v) = write_member" by (auto simp: write_member_def)
  then have text_eq: "write_json (JObj kvs) = CHR ''{'' # commas (map write_member kvs) @ ''}''" by simp
  show ?case
  proof (rule reads_backI)
    fix m r assume m: "length (write_json (JObj kvs)) \<le> m"
    show "read_value (Suc m) (write_json (JObj kvs) @ r) = Some (JObj kvs, r)"
    proof (cases kvs)
      case (Cons kv kvs')
      obtain cs where "commas (map write_member kvs) = quote # cs"
        using commas_head [of "write_member kv" "map write_member kvs'"] Cons by (auto simp: write_member_def write_string_def)
      then show ?thesis using read_write_members [OF parts, of m r] Cons m quote_plain unfolding text_eq by simp
    qed simp
  qed
qed (rule reads_backI, auto simp: read_literal_def white_def quote_def)+

subsection \<open>The contract\<close>

text \<open>The reader gives back what the writer wrote, also with the line end that an encoder adds.\<close>

definition newline :: string where "newline = [CHR 0x0A]"

locale json_text =
  fixes print :: "json \<Rightarrow> string" and parse :: parser
  assumes parse_print: "json_ok j \<Longrightarrow> parse (print j) = Some j"
    and parse_line: "json_ok j \<Longrightarrow> parse (print j @ newline) = Some j"
begin

lemma unmarshal_line: "json_ok j \<Longrightarrow> unmarshal parse un (print j @ newline) zero = un j zero"
  by (simp add: unmarshal_def parse_line)

lemma unmarshal_print: "json_ok j \<Longrightarrow> unmarshal parse un (print j) zero = un j zero"
  by (simp add: unmarshal_def parse_print)

lemma print_inject: "json_ok j \<Longrightarrow> json_ok k \<Longrightarrow> print j = print k \<longleftrightarrow> j = k"
  by (metis option.inject parse_print)

end

lemma read_write_json:
  assumes "json_ok j" and "set r \<subseteq> {CHR 0x0A}"
  shows "read_json (write_json j @ r) = Some j"
proof -
  have white: "skip_white r = []" "ended r"
    using assms(2) by (auto simp: skip_white_def white_def ended_def number_char_def is_digit_def digit_val_def dest!: hd_in_set)
  have "reads_back j" using assms(1) by (rule json_reads_back)
  then have "read_value (Suc (length (write_json j @ r))) (write_json j @ r) = Some (j, r)"
    using white(2) by (simp add: reads_back_def del: read_value.simps)
  then show ?thesis using white(1) by (simp add: read_json_def del: read_value.simps)
qed

interpretation go_json: json_text write_json read_json
proof
  fix j assume ok: "json_ok j"
  show "read_json (write_json j) = Some j" using read_write_json [OF ok, of "[]"] by simp
  show "read_json (write_json j @ newline) = Some j" using read_write_json [OF ok, of newline] by (simp add: newline_def)
qed

end
