(* ===== verification/Wire.thy ===== *)
theory Wire
  imports Block Json_Text
begin

text \<open>
  The rest of the decoding of \<open>internal/chain/block.go\<close>: the block index and the mempool entries a node
  sends beside the bodies. Then the way back: what \<open>json.Marshal\<close> writes for each struct, by its
  tags and by the \<open>MarshalJSON\<close> methods of the sources, and that every struct reads back from it. A slice without elements
  is written as an empty array.
\<close>

subsection \<open>The block index and the mempool\<close>

definition tx_info_fields :: "('z tx_info_scheme) fields" where
  "tx_info_fields =
    [(''txid'', \<lambda>j s. bindE (Hash_UnmarshalJSON j) (\<lambda>x. Inr (s\<lparr>tiTxid := x\<rparr>))),
     (''size'', \<lambda>j s. bindE (un_uint j (tiSize s)) (\<lambda>x. Inr (s\<lparr>tiSize := x\<rparr>))),
     (''raw'', \<lambda>j s. bindE (Bytes_UnmarshalJSON (Some j)) (\<lambda>x. Inr (s\<lparr>tiRaw := x\<rparr>))),
     (''skipped'', \<lambda>j s. bindE (un_bool j (tiSkipped s)) (\<lambda>x. Inr (s\<lparr>tiSkipped := x\<rparr>)))]"

definition zero_tx_info :: tx_info where
  "zero_tx_info = \<lparr>tiTxid = zero_hash, tiSize = 0, tiRaw = [], tiSkipped = False\<rparr>"

text \<open>The embedded struct lends its fields to the entry.\<close>

definition mempool_tx_fields :: "(string \<Rightarrow> bytes option) \<Rightarrow> mempool_tx fields" where
  "mempool_tx_fields b58 = tx_info_fields @
    [(''tx'', \<lambda>j s. bindE (un_struct (transaction_fields b58) j (mtTx s)) (\<lambda>x. Inr (s\<lparr>mtTx := x\<rparr>)))]"

definition zero_mempool_tx :: mempool_tx where
  "zero_mempool_tx = \<lparr>tiTxid = zero_hash, tiSize = 0, tiRaw = [], tiSkipped = False, mtTx = zero_transaction\<rparr>"

definition zero_out_point :: out_point where
  "zero_out_point = \<lparr>opKind = KindRegular, opSource = zero_hash, opVout = 0\<rparr>"

definition deposit_fields :: "(string \<Rightarrow> bytes option) \<Rightarrow> deposit fields" where
  "deposit_fields b58 =
    [(''outpoint'', \<lambda>j s. bindE (OutPoint_UnmarshalJSON j) (\<lambda>x. Inr (s\<lparr>dpOutPoint := x\<rparr>))),
     (''output'', \<lambda>j s. bindE (un_output b58 j (dpOutput s)) (\<lambda>x. Inr (s\<lparr>dpOutput := x\<rparr>)))]"

definition bundle_spend_fields :: "bundle_spend fields" where
  "bundle_spend_fields =
    [(''outpoint'', \<lambda>j s. bindE (OutPoint_UnmarshalJSON j) (\<lambda>x. Inr (s\<lparr>bnOutPoint := x\<rparr>))),
     (''m6id'', \<lambda>j s. bindE (BitcoinHash_UnmarshalJSON j) (\<lambda>x. Inr (s\<lparr>bnM6id := x\<rparr>)))]"

definition market_utxo_fields :: "(string \<Rightarrow> bytes option) \<Rightarrow> market_utxo fields" where
  "market_utxo_fields b58 =
    [(''outpoint'', \<lambda>j s. bindE (OutPoint_UnmarshalJSON j) (\<lambda>x. Inr (s\<lparr>muOutPoint := x\<rparr>))),
     (''output'', \<lambda>j s. bindE (un_output b58 j (muOutput s)) (\<lambda>x. Inr (s\<lparr>muOutput := x\<rparr>))),
     (''reason'', \<lambda>j s. bindE (un_string j (muReason s)) (\<lambda>x. Inr (s\<lparr>muReason := x\<rparr>)))]"

definition un_market :: "(string \<Rightarrow> bytes option) \<Rightarrow> json \<Rightarrow> market_utxo res" where
  "un_market b58 j = un_struct (market_utxo_fields b58) j \<lparr>muOutPoint = zero_out_point, muOutput = zero_output, muReason = []\<rparr>"

definition block_index_fields :: "(string \<Rightarrow> bytes option) \<Rightarrow> block_index fields" where
  "block_index_fields b58 =
    [(''txs'', \<lambda>j s. bindE (un_slice (\<lambda>j. un_struct tx_info_fields j zero_tx_info) j) (\<lambda>x. Inr (s\<lparr>biTxs := x\<rparr>))),
     (''deposits'', \<lambda>j s. bindE (un_slice (\<lambda>j. un_struct (deposit_fields b58) j \<lparr>dpOutPoint = zero_out_point, dpOutput = zero_output\<rparr>) j)
        (\<lambda>x. Inr (s\<lparr>biDeposits := x\<rparr>))),
     (''bundle_spends'', \<lambda>j s. bindE (un_slice (\<lambda>j. un_struct bundle_spend_fields j \<lparr>bnOutPoint = zero_out_point, bnM6id = zero_hash\<rparr>) j)
        (\<lambda>x. Inr (s\<lparr>biBundleSpends := x\<rparr>))),
     (''market_creates'', \<lambda>j s. bindE (un_slice (un_market b58) j) (\<lambda>x. Inr (s\<lparr>biMarketCreates := x\<rparr>))),
     (''market_deletes'', \<lambda>j s. bindE (un_slice (un_market b58) j) (\<lambda>x. Inr (s\<lparr>biMarketDeletes := x\<rparr>)))]"

definition zero_block_index :: block_index where
  "zero_block_index = \<lparr>biTxs = [], biDeposits = [], biBundleSpends = [], biMarketCreates = [], biMarketDeletes = []\<rparr>"

definition un_block_index :: "(string \<Rightarrow> bytes option) \<Rightarrow> json \<Rightarrow> block_index \<Rightarrow> block_index res" where
  "un_block_index b58 = un_struct (block_index_fields b58)"

definition un_mempool :: "(string \<Rightarrow> bytes option) \<Rightarrow> json \<Rightarrow> mempool_tx list res" where
  "un_mempool b58 = un_slice (\<lambda>j. un_struct (mempool_tx_fields b58) j zero_mempool_tx)"

subsection \<open>What \<open>json.Marshal\<close> writes\<close>

text \<open>The members of a struct in the order of its fields; the first field that fails fails the whole.\<close>

definition put_struct :: "(string \<times> json res) list \<Rightarrow> json res" where
  "put_struct kvs = bindE (mapE (\<lambda>(k, r). bindE r (\<lambda>j. Inr (k, j))) kvs) (\<lambda>ms. Inr (JObj ms))"

definition put_slice :: "('a \<Rightarrow> json res) \<Rightarrow> 'a list \<Rightarrow> json res" where
  "put_slice put xs = bindE (mapE put xs) (\<lambda>js. Inr (JArr js))"

definition put_raw :: "raw_message \<Rightarrow> json res" where
  "put_raw raw = Inr (case raw of None \<Rightarrow> JNull | Some j \<Rightarrow> j)"

definition put_output :: "(bytes \<Rightarrow> string) \<Rightarrow> tx_output \<Rightarrow> json res" where
  "put_output enc o' = put_struct
    [(''address'', Inr (Address_MarshalJSON enc (outAddress o'))), (''content'', put_raw (outContent o'))]"

definition put_transaction :: "(bytes \<Rightarrow> string) \<Rightarrow> transaction \<Rightarrow> json res" where
  "put_transaction enc t = put_struct
    [(''inputs'', put_slice Input_MarshalJSON (trInputs t)), (''outputs'', put_slice (put_output enc) (trOutputs t))]"

definition Coinbase_MarshalJSON :: "(bytes \<Rightarrow> string) \<Rightarrow> coinbase \<Rightarrow> json res" where
  "Coinbase_MarshalJSON enc c =
     (if \<not> cbKeyedByTxid c then put_slice (put_output enc) (cbOutputs c)
      else put_struct [(''memo'', Inr (Bytes_MarshalJSON (cbMemo c))), (''outputs'', put_slice (put_output enc) (cbOutputs c))])"

definition put_authorization :: "authorization \<Rightarrow> json res" where
  "put_authorization a = put_struct
    [(''verifying_key'', Inr (ByteString_MarshalJSON (auVerifyingKey a))), (''signature'', Inr (ByteString_MarshalJSON (auSignature a)))]"

definition put_body :: "(bytes \<Rightarrow> string) \<Rightarrow> body \<Rightarrow> json res" where
  "put_body enc b = put_struct
    [(''coinbase'', Coinbase_MarshalJSON enc (bdCoinbase b)),
     (''transactions'', put_slice (put_transaction enc) (bdTransactions b)),
     (''authorizations'', put_slice put_authorization (bdAuthorizations b))]"

definition put_header :: "header \<Rightarrow> json res" where
  "put_header h = put_struct
    [(''merkle_root'', Inr (Hash_MarshalJSON (hMerkleRoot h))),
     (''prev_side_hash'', Inr (case hPrevSideHash h of None \<Rightarrow> JNull | Some p \<Rightarrow> Hash_MarshalJSON p)),
     (''prev_main_hash'', Inr (BitcoinHash_MarshalJSON (hPrevMainHash h)))]"

definition put_block :: "(bytes \<Rightarrow> string) \<Rightarrow> block \<Rightarrow> json res" where
  "put_block enc b = put_struct [(''header'', put_header (bkHeader b)), (''body'', put_body enc (bkBody b))]"

definition tx_info_members :: "('z tx_info_scheme) \<Rightarrow> (string \<times> json res) list" where
  "tx_info_members i =
    [(''txid'', Inr (Hash_MarshalJSON (tiTxid i))), (''size'', Inr (j_uint (tiSize i))),
     (''raw'', Inr (Bytes_MarshalJSON (tiRaw i))), (''skipped'', Inr (JBool (tiSkipped i)))]"

definition put_mempool_tx :: "(bytes \<Rightarrow> string) \<Rightarrow> mempool_tx \<Rightarrow> json res" where
  "put_mempool_tx enc m = put_struct (tx_info_members m @ [(''tx'', put_transaction enc (mtTx m))])"

definition put_deposit :: "(bytes \<Rightarrow> string) \<Rightarrow> deposit \<Rightarrow> json res" where
  "put_deposit enc d = put_struct
    [(''outpoint'', OutPoint_MarshalJSON (dpOutPoint d)), (''output'', put_output enc (dpOutput d))]"

definition put_bundle_spend :: "bundle_spend \<Rightarrow> json res" where
  "put_bundle_spend s = put_struct
    [(''outpoint'', OutPoint_MarshalJSON (bnOutPoint s)), (''m6id'', Inr (BitcoinHash_MarshalJSON (bnM6id s)))]"

definition put_market_utxo :: "(bytes \<Rightarrow> string) \<Rightarrow> market_utxo \<Rightarrow> json res" where
  "put_market_utxo enc u = put_struct
    [(''outpoint'', OutPoint_MarshalJSON (muOutPoint u)), (''output'', put_output enc (muOutput u)), (''reason'', Inr (JStr (muReason u)))]"

definition put_block_index :: "(bytes \<Rightarrow> string) \<Rightarrow> block_index \<Rightarrow> json res" where
  "put_block_index enc i = put_struct
    [(''txs'', put_slice (\<lambda>t. put_struct (tx_info_members t)) (biTxs i)),
     (''deposits'', put_slice (put_deposit enc) (biDeposits i)),
     (''bundle_spends'', put_slice put_bundle_spend (biBundleSpends i)),
     (''market_creates'', put_slice (put_market_utxo enc) (biMarketCreates i)),
     (''market_deletes'', put_slice (put_market_utxo enc) (biMarketDeletes i))]"

subsection \<open>Reading back\<close>

text \<open>What was written is a value that keeps its text, and it reads back.\<close>

definition carries :: "json res \<Rightarrow> (json \<Rightarrow> 'a res) \<Rightarrow> 'a \<Rightarrow> bool" where
  "carries p get x \<longleftrightarrow> (\<exists>j. p = Inr j \<and> j \<noteq> JNull \<and> json_ok j \<and> get j = Inr x)"

named_theorems carries_rules \<open>values that read back from what was written\<close>

lemma carriesI: "p = Inr j \<Longrightarrow> j \<noteq> JNull \<Longrightarrow> json_ok j \<Longrightarrow> get j = Inr x \<Longrightarrow> carries p get x"
  by (auto simp: carries_def)

lemma carriesE:
  assumes "carries p get x"
  obtains j where "p = Inr j" and "j \<noteq> JNull" and "json_ok j" and "get j = Inr x"
  using assms by (auto simp: carries_def)

lemma carries_slice [carries_rules]:
  assumes "\<And>x. x \<in> set xs \<Longrightarrow> carries (put x) get x"
  shows "carries (put_slice put xs) (un_slice get) xs"
proof -
  have "\<exists>js. mapE put xs = Inr js \<and> (\<forall>j \<in> set js. json_ok j) \<and> mapE get js = Inr xs"
    using assms by (induction xs) (fastforce elim!: carriesE)+
  then show ?thesis by (auto simp: put_slice_def intro!: carriesI)
qed

lemma ascii_hex [simp]: "ascii (hex_encode bs)"
proof -
  have "(of_char (hex_digit n) :: nat) < 128" if "n < 16" for n
  proof -
    have "\<forall>c \<in> set ''0123456789abcdef''. (of_char c :: nat) < 128" by simp
    then show ?thesis using nth_mem [of n "''0123456789abcdef''"] that by (simp add: hex_digit_def del: list.set)
  qed
  then show ?thesis by (auto simp: ascii_def dest!: hex_encode_chars)
qed

lemma ascii_Nil [simp]: "ascii []" and ascii_Cons [simp]: "ascii (c # s) \<longleftrightarrow> of_char c < (128 :: nat) \<and> ascii s"
  by (simp_all add: ascii_def)

lemma ascii_append [simp]: "ascii (s @ t) \<longleftrightarrow> ascii s \<and> ascii t"
  by (auto simp: ascii_def)

lemma ascii_uint [simp]: "ascii (format_uint n)"
  using format_uint_digits [of _ n] by (force simp: ascii_def digit_val_def Let_def split: if_splits)

text \<open>A number that the program formats is a number of JSON.\<close>

lemma format_uint_head: "\<exists>c cs. format_uint n = c # cs \<and> is_digit c \<and> (c = CHR ''0'' \<longrightarrow> cs = []) \<and> (\<forall>d \<in> set cs. is_digit d)"
proof (induction n rule: format_uint.induct)
  case (1 n)
  have digit: "is_digit (hex_digit k)" "hex_digit k = CHR ''0'' \<Longrightarrow> k = 0" if "k < 10" for k
    using digit_val_hex_digit [OF that] by (auto simp: is_digit_def digit_val_def)
  show ?case
  proof (cases "n < 10")
    case True
    then show ?thesis using digit by (simp add: format_uint.simps [of n])
  next
    case False
    then obtain c cs where c: "format_uint (n div 10) = c # cs" "is_digit c" "c = CHR ''0'' \<longrightarrow> cs = []" "\<forall>d \<in> set cs. is_digit d"
      using 1 by blast
    have "c \<noteq> CHR ''0''"
    proof
      assume "c = CHR ''0''"
      then have "format_uint (n div 10) = ''0''" using c by simp
      then have "parse_digits (n div 10) 0 ''0'' = Inr (n div 10)" using parse_digits_format [of "n div 10" "n div 10"] by simp
      then have "n div 10 = 0" by (simp add: digit_val_def)
      then show False using False by simp
    qed
    then show ?thesis using False c digit(1) [of "n mod 10"] by (auto simp: format_uint.simps [of n])
  qed
qed

lemma valid_number_format [simp]: "valid_number (format_uint n)"
proof -
  obtain c cs where c: "format_uint n = c # cs" "is_digit c" "c = CHR ''0'' \<longrightarrow> cs = []" "\<forall>d \<in> set cs. is_digit d"
    using format_uint_head by blast
  then have "dropWhile is_digit cs = []" "c \<noteq> CHR ''-''" by (auto simp: is_digit_def digit_val_def)
  then show ?thesis using c by (cases "c = CHR ''0''") (simp_all add: valid_number_def valid_int_def valid_frac_def del: dropWhile_eq_Nil_conv)
qed

lemma json_ok_leaf [simp]: "json_ok (j_uint w)" "json_ok (Hash_MarshalJSON h)" "json_ok (BitcoinHash_MarshalJSON h)" "json_ok (Bytes_MarshalJSON b)"
  by (simp_all add: j_uint_def Hash_MarshalJSON_def Hash_String_def BitcoinHash_MarshalJSON_def BitcoinHash_String_def
      Bytes_MarshalJSON_def Bytes_String_def)

lemma not_null_leaf [simp]: "BitcoinHash_MarshalJSON h \<noteq> JNull" "Bytes_MarshalJSON b \<noteq> JNull"
  by (simp_all add: BitcoinHash_MarshalJSON_def Bytes_MarshalJSON_def)

lemma decodeHex_hex [simp]: "decodeHex (hex_encode bs) = Inr bs"
proof -
  have "hex_encode bs ! 1 \<noteq> CHR ''x''" if "Suc 0 < length (hex_encode bs)"
  proof
    assume "hex_encode bs ! 1 = CHR ''x''"
    then have "CHR ''x'' \<in> set (hex_encode bs)" using that by (metis One_nat_def nth_mem)
    then obtain n where "n < 16" "CHR ''x'' = hex_digit n" by (auto dest: hex_encode_chars)
    then have "hex_val (CHR ''x'') = Some n" by (simp add: hex_val_digit)
    then show False by (simp add: hex_val_def)
  qed
  then have "take (Suc (Suc 0)) (hex_encode bs) \<noteq> ''0x''"
    by (cases "hex_encode bs"; cases "tl (hex_encode bs)") auto
  then show ?thesis by (simp add: decodeHex_def trim_prefix_def)
qed

lemma carries_bytes: "Bytes_UnmarshalJSON (Some (Bytes_MarshalJSON bs)) = Inr bs"
  by (simp add: Bytes_MarshalJSON_def Bytes_String_def)

text \<open>The structs a node can send, and what a reader keeps of a byte string: its text, and the bytes when the text is hex.\<close>

definition b58_pair :: "(bytes \<Rightarrow> string) \<Rightarrow> (string \<Rightarrow> bytes option) \<Rightarrow> bool" where
  "b58_pair enc dec \<longleftrightarrow> (\<forall>a. wf_address a \<longrightarrow> dec (enc a) = Some a \<and> ascii (enc a))"

definition wire_byte_string :: "byte_string \<Rightarrow> bool" where
  "wire_byte_string b \<longleftrightarrow> bsText b \<noteq> [] \<and> ascii (bsText b)
     \<and> bsBytes b = (case decodeHex (bsText b) of Inl _ \<Rightarrow> [] | Inr raw \<Rightarrow> raw)"

definition wire_output :: "tx_output \<Rightarrow> bool" where
  "wire_output o' \<longleftrightarrow> wf_address (outAddress o') \<and> (case outContent o' of None \<Rightarrow> False | Some j \<Rightarrow> json_ok j)"

definition wire_transaction :: "transaction \<Rightarrow> bool" where
  "wire_transaction t \<longleftrightarrow> (\<forall>i \<in> set (trInputs t). wire_out_point (inOutPoint i)) \<and> (\<forall>o' \<in> set (trOutputs t). wire_output o')"

definition wire_coinbase :: "coinbase \<Rightarrow> bool" where
  "wire_coinbase c \<longleftrightarrow> (\<forall>o' \<in> set (cbOutputs c). wire_output o') \<and> (cbKeyedByTxid c \<or> cbMemo c = [])"

definition wire_header :: "header \<Rightarrow> bool" where
  "wire_header h \<longleftrightarrow> wf_hash (hMerkleRoot h) \<and> wf_hash (hPrevMainHash h)
     \<and> (case hPrevSideHash h of None \<Rightarrow> True | Some p \<Rightarrow> wf_hash p)"

definition wire_body :: "body \<Rightarrow> bool" where
  "wire_body b \<longleftrightarrow> wire_coinbase (bdCoinbase b) \<and> (\<forall>t \<in> set (bdTransactions b). wire_transaction t)
     \<and> (\<forall>a \<in> set (bdAuthorizations b). wire_byte_string (auVerifyingKey a) \<and> wire_byte_string (auSignature a))"

definition wire_block :: "block \<Rightarrow> bool" where
  "wire_block b \<longleftrightarrow> wire_header (bkHeader b) \<and> wire_body (bkBody b)"

definition wire_block_index :: "block_index \<Rightarrow> bool" where
  "wire_block_index i \<longleftrightarrow> (\<forall>t \<in> set (biTxs i). wf_hash (tiTxid t))
     \<and> (\<forall>d \<in> set (biDeposits i). wire_out_point (dpOutPoint d) \<and> wire_output (dpOutput d))
     \<and> (\<forall>s \<in> set (biBundleSpends i). wire_out_point (bnOutPoint s) \<and> wf_hash (bnM6id s))
     \<and> (\<forall>u \<in> set (biMarketCreates i @ biMarketDeletes i). wire_out_point (muOutPoint u) \<and> wire_output (muOutput u) \<and> ascii (muReason u))"

definition wire_mempool_tx :: "mempool_tx \<Rightarrow> bool" where
  "wire_mempool_tx m \<longleftrightarrow> wf_hash (tiTxid m) \<and> wire_transaction (mtTx m)"

lemmas struct_simps = put_struct_def store_member_def find_field_def

lemma OutPoint_object:
  assumes "OutPoint_MarshalJSON p = Inr j"
  shows "json_ok j \<and> (\<exists>kvs. j = JObj kvs)"
  using assms
  by (auto simp: OutPoint_MarshalJSON_def BitcoinHash_String_def split: if_splits prod.splits)

lemma carries_out_point [carries_rules]: "wire_out_point p \<Longrightarrow> carries (OutPoint_MarshalJSON p) OutPoint_UnmarshalJSON p"
  using OutPoint_reads_back [of p] by (auto simp: bindE_eq_Inr dest: OutPoint_object intro!: carriesI)

lemma carries_input [carries_rules]:
  assumes "wire_out_point (inOutPoint i)"
  shows "carries (Input_MarshalJSON i) Input_UnmarshalJSON i"
proof -
  obtain j where j: "OutPoint_MarshalJSON (inOutPoint i) = Inr j" "OutPoint_UnmarshalJSON j = Inr (inOutPoint i)"
    using carries_out_point [OF assms] by (auto elim: carriesE)
  from OutPoint_object [OF j(1)] obtain kvs where "j = JObj kvs" "json_ok j" by blast
  then show ?thesis using j
    by (cases "inLeafHash i = []") (auto intro!: carriesI simp: Input_MarshalJSON_def decodePair_def carries_bytes)
qed

lemma carries_output [carries_rules]:
  assumes "b58_pair enc dec" and "wire_output o'"
  shows "carries (put_output enc o') (\<lambda>j. un_output dec j old) o'"
proof -
  obtain j where "outContent o' = Some j" "json_ok j" "wf_address (outAddress o')"
    using assms(2) by (auto simp: wire_output_def split: option.splits)
  moreover have "dec (enc (outAddress o')) = Some (outAddress o')" "ascii (enc (outAddress o'))"
    using assms(1) calculation(3) by (auto simp: b58_pair_def)
  ultimately show ?thesis
    by (cases o') (auto intro!: carriesI simp: put_output_def struct_simps put_raw_def un_output_def output_fields_def
        Address_MarshalJSON_def Address_String_def Address_UnmarshalJSON_def ParseAddress_def wf_address_def)
qed

lemma carries_transaction [carries_rules]:
  assumes "b58_pair enc dec" and "wire_transaction t"
  shows "carries (put_transaction enc t) (\<lambda>j. un_struct (transaction_fields dec) j old) t"
proof -
  have "carries (put_slice Input_MarshalJSON (trInputs t)) (un_slice Input_UnmarshalJSON) (trInputs t)"
    and "carries (put_slice (put_output enc) (trOutputs t)) (un_slice (\<lambda>j. un_output dec j zero_output)) (trOutputs t)"
    using assms by (auto simp: wire_transaction_def intro!: carries_rules)
  then show ?thesis
    by (cases t) (auto elim!: carriesE intro!: carriesI simp: put_transaction_def struct_simps transaction_fields_def)
qed

lemma carries_coinbase [carries_rules]:
  assumes "b58_pair enc dec" and "wire_coinbase c"
  shows "carries (Coinbase_MarshalJSON enc c) (Coinbase_UnmarshalJSON dec) c"
proof -
  have "carries (put_slice (put_output enc) (cbOutputs c)) (un_slice (\<lambda>j. un_output dec j zero_output)) (cbOutputs c)"
    using assms by (auto simp: wire_coinbase_def intro!: carries_rules)
  then obtain js where js: "mapE (put_output enc) (cbOutputs c) = Inr js" "json_ok (JArr js)"
      "mapE (\<lambda>j. un_output dec j zero_output) js = Inr (cbOutputs c)"
    by (auto elim!: carriesE simp: put_slice_def bindE_eq_Inr)
  show ?thesis
  proof (cases "cbKeyedByTxid c")
    case True
    then show ?thesis using js
      by (cases c) (auto intro!: carriesI simp: Coinbase_MarshalJSON_def put_slice_def struct_simps coinbase_object_fields_def carries_bytes)
  next
    case False
    then show ?thesis using js assms(2)
      by (cases c) (auto intro!: carriesI simp: Coinbase_MarshalJSON_def put_slice_def wire_coinbase_def)
  qed
qed

lemma byte_string_reads_back:
  assumes "wire_byte_string b"
  shows "ByteString_UnmarshalJSON (Some (ByteString_MarshalJSON b)) = Inr b" and "json_ok (ByteString_MarshalJSON b)"
  using assms by (cases b; auto simp: wire_byte_string_def ByteString_MarshalJSON_def split: sum.splits)+

lemma carries_authorization [carries_rules]:
  assumes "wire_byte_string (auVerifyingKey a)" and "wire_byte_string (auSignature a)"
  shows "carries (put_authorization a) (\<lambda>j. un_struct authorization_fields j old) a"
  using assms by (cases a) (auto intro!: carriesI simp: put_authorization_def struct_simps authorization_fields_def byte_string_reads_back)

lemma carries_body [carries_rules]:
  assumes "b58_pair enc dec" and "wire_body b"
  shows "carries (put_body enc b) (\<lambda>j. un_struct (body_fields dec) j old) b"
proof -
  have "carries (Coinbase_MarshalJSON enc (bdCoinbase b)) (Coinbase_UnmarshalJSON dec) (bdCoinbase b)"
    and "carries (put_slice (put_transaction enc) (bdTransactions b))
      (un_slice (\<lambda>j. un_struct (transaction_fields dec) j zero_transaction)) (bdTransactions b)"
    and "carries (put_slice put_authorization (bdAuthorizations b)) (un_slice (\<lambda>j. un_struct authorization_fields j
          \<lparr>auVerifyingKey = zero_byte_string, auSignature = zero_byte_string\<rparr>)) (bdAuthorizations b)"
    using assms by (auto simp: wire_body_def intro!: carries_rules)
  then show ?thesis
    by (cases b) (auto elim!: carriesE intro!: carriesI simp: put_body_def struct_simps body_fields_def)
qed

lemma carries_header [carries_rules]:
  assumes "wire_header h"
  shows "carries (put_header h) (\<lambda>j. un_struct header_fields j old) h"
  using assms by (cases h)
    (auto intro!: carriesI simp: put_header_def struct_simps header_fields_def wire_header_def un_hash_ptr_def un_ptr_def split: option.splits)

lemma carries_block [carries_rules]:
  assumes "b58_pair enc dec" and "wire_block b"
  shows "carries (put_block enc b) (\<lambda>j. un_struct (block_fields dec) j old) b"
proof -
  have "carries (put_header (bkHeader b)) (\<lambda>j. un_struct header_fields j (bkHeader old)) (bkHeader b)"
    and "carries (put_body enc (bkBody b)) (\<lambda>j. un_struct (body_fields dec) j (bkBody old)) (bkBody b)"
    using assms by (auto simp: wire_block_def intro!: carries_rules)
  then show ?thesis
    by (cases b) (auto elim!: carriesE intro!: carriesI simp: put_block_def struct_simps block_fields_def)
qed

lemma carries_tx_info [carries_rules]:
  "wf_hash (tiTxid i) \<Longrightarrow> carries (put_struct (tx_info_members i)) (\<lambda>j. un_struct tx_info_fields j old) (i :: tx_info)"
  by (cases i) (auto intro!: carriesI simp: struct_simps tx_info_members_def tx_info_fields_def carries_bytes)

lemma carries_mempool_tx [carries_rules]:
  assumes "b58_pair enc dec" and "wire_mempool_tx m"
  shows "carries (put_mempool_tx enc m) (\<lambda>j. un_struct (mempool_tx_fields dec) j old) m"
proof -
  have "carries (put_transaction enc (mtTx m)) (\<lambda>j. un_struct (transaction_fields dec) j (mtTx old)) (mtTx m)"
    using assms by (auto simp: wire_mempool_tx_def intro!: carries_rules)
  then show ?thesis using assms(2)
    by (cases m) (auto elim!: carriesE intro!: carriesI simp: put_mempool_tx_def struct_simps tx_info_members_def mempool_tx_fields_def
        tx_info_fields_def carries_bytes wire_mempool_tx_def)
qed

lemma carries_deposit [carries_rules]:
  assumes "b58_pair enc dec" and "wire_out_point (dpOutPoint d)" and "wire_output (dpOutput d)"
  shows "carries (put_deposit enc d) (\<lambda>j. un_struct (deposit_fields dec) j old) d"
  using carries_out_point [OF assms(2)] carries_output [OF assms(1,3), of "dpOutput old"]
  by (cases d) (auto elim!: carriesE intro!: carriesI simp: put_deposit_def struct_simps deposit_fields_def)

lemma carries_bundle_spend [carries_rules]:
  assumes "wire_out_point (bnOutPoint s)" and "wf_hash (bnM6id s)"
  shows "carries (put_bundle_spend s) (\<lambda>j. un_struct bundle_spend_fields j old) s"
  using carries_out_point [OF assms(1)] assms(2)
  by (cases s) (auto elim!: carriesE intro!: carriesI simp: put_bundle_spend_def struct_simps bundle_spend_fields_def)

lemma carries_market_utxo [carries_rules]:
  assumes "b58_pair enc dec" and "wire_out_point (muOutPoint u)" and "wire_output (muOutput u)" and "ascii (muReason u)"
  shows "carries (put_market_utxo enc u) (un_market dec) u"
  using carries_out_point [OF assms(2)] carries_output [OF assms(1,3), of zero_output] assms(4)
  by (cases u) (auto elim!: carriesE intro!: carriesI simp: put_market_utxo_def un_market_def struct_simps market_utxo_fields_def)

lemma carries_block_index [carries_rules]:
  assumes "b58_pair enc dec" and "wire_block_index i"
  shows "carries (put_block_index enc i) (\<lambda>j. un_block_index dec j old) i"
proof -
  have "carries (put_slice (\<lambda>t. put_struct (tx_info_members t)) (biTxs i)) (un_slice (\<lambda>j. un_struct tx_info_fields j zero_tx_info)) (biTxs i)"
    and "carries (put_slice (put_deposit enc) (biDeposits i))
      (un_slice (\<lambda>j. un_struct (deposit_fields dec) j \<lparr>dpOutPoint = zero_out_point, dpOutput = zero_output\<rparr>)) (biDeposits i)"
    and "carries (put_slice put_bundle_spend (biBundleSpends i))
      (un_slice (\<lambda>j. un_struct bundle_spend_fields j \<lparr>bnOutPoint = zero_out_point, bnM6id = zero_hash\<rparr>)) (biBundleSpends i)"
    and "carries (put_slice (put_market_utxo enc) (biMarketCreates i)) (un_slice (un_market dec)) (biMarketCreates i)"
    and "carries (put_slice (put_market_utxo enc) (biMarketDeletes i)) (un_slice (un_market dec)) (biMarketDeletes i)"
    using assms by (auto simp: wire_block_index_def intro!: carries_rules)
  then show ?thesis
    by (cases i) (auto elim!: carriesE intro!: carriesI simp: put_block_index_def un_block_index_def struct_simps block_index_fields_def)
qed

end
