(* ===== verification/Action.thy ===== *)
theory Action
  imports Prelude
begin

text \<open>
  Code that threads a state and can fail, keeping the state it reached when it does: a call of the sync
  loop changes the database before a later call fails. \<open>bindA\<close> is a call followed by
  \<open>if err != nil { return err }\<close>. A contract \<open>triple P m Q E\<close> says that from a state in \<open>P\<close> the
  action ends in \<open>Q\<close> of its result, or fails in a state of \<open>E\<close>; every action is a total
  function, so it does end.
\<close>

type_synonym ('s, 'a) act = "'s \<Rightarrow> 'a res \<times> 's"

definition retA :: "'a \<Rightarrow> ('s, 'a) act" where
  "retA x s = (Inr x, s)"

definition failA :: "error \<Rightarrow> ('s, 'a) act" where
  "failA e s = (Inl e, s)"

definition bindA :: "('s, 'a) act \<Rightarrow> ('a \<Rightarrow> ('s, 'b) act) \<Rightarrow> ('s, 'b) act" where
  "bindA m f s = (case m s of (Inl e, s') \<Rightarrow> (Inl e, s') | (Inr x, s') \<Rightarrow> f x s')"

definition liftA :: "'a res \<Rightarrow> ('s, 'a) act" where
  "liftA r s = (r, s)"

lemma bindA_retA [simp]: "bindA (retA x) f = f x"
  by (simp add: bindA_def retA_def fun_eq_iff)

lemma bindA_failA [simp]: "bindA (failA e) f = failA e"
  by (simp add: bindA_def failA_def fun_eq_iff)

lemma liftA_Inr: "liftA (Inr x) = retA x"
  by (simp add: liftA_def retA_def fun_eq_iff)

lemma bindA_cong [fundef_cong]:
  "m s = m' s' \<Longrightarrow> (\<And>x t. m' s' = (Inr x, t) \<Longrightarrow> f x t = f' x t) \<Longrightarrow> bindA m f s = bindA m' f' s'"
  by (auto simp: bindA_def split: sum.splits prod.splits)

definition triple :: "('s \<Rightarrow> bool) \<Rightarrow> ('s, 'a) act \<Rightarrow> ('a \<Rightarrow> 's \<Rightarrow> bool) \<Rightarrow> ('s \<Rightarrow> bool) \<Rightarrow> bool" where
  "triple P m Q E \<longleftrightarrow> (\<forall>s. P s \<longrightarrow> (case m s of (Inl e, s') \<Rightarrow> E s' | (Inr x, s') \<Rightarrow> Q x s'))"

lemma tripleI:
  assumes "\<And>s x s'. P s \<Longrightarrow> m s = (Inr x, s') \<Longrightarrow> Q x s'" and "\<And>s e s'. P s \<Longrightarrow> m s = (Inl e, s') \<Longrightarrow> E s'"
  shows "triple P m Q E"
  using assms by (auto simp: triple_def split: sum.splits prod.splits)

lemma triple_InrD: "triple P m Q E \<Longrightarrow> P s \<Longrightarrow> m s = (Inr x, s') \<Longrightarrow> Q x s'"
  by (auto simp: triple_def split: sum.splits prod.splits)

lemma triple_InlD: "triple P m Q E \<Longrightarrow> P s \<Longrightarrow> m s = (Inl e, s') \<Longrightarrow> E s'"
  by (auto simp: triple_def split: sum.splits prod.splits)

lemma triple_ret: "(\<And>s. P s \<Longrightarrow> Q x s) \<Longrightarrow> triple P (retA x) Q E"
  by (auto simp: triple_def retA_def)

lemma triple_fail: "(\<And>s. P s \<Longrightarrow> E s) \<Longrightarrow> triple P (failA e) Q E"
  by (auto simp: triple_def failA_def)

lemma triple_lift: "(\<And>s x. P s \<Longrightarrow> r = Inr x \<Longrightarrow> Q x s) \<Longrightarrow> (\<And>s. P s \<Longrightarrow> E s) \<Longrightarrow> triple P (liftA r) Q E"
  by (cases r) (auto simp: triple_def liftA_def)

lemma triple_bind:
  assumes "triple P m R E" and "\<And>x. triple (R x) (f x) Q E"
  shows "triple P (bindA m f) Q E"
proof (rule tripleI)
  fix s x s' assume "P s" "bindA m f s = (Inr x, s')"
  then show "Q x s'" using assms
    by (auto simp: bindA_def split: sum.splits prod.splits dest: triple_InrD)
next
  fix s e s' assume "P s" "bindA m f s = (Inl e, s')"
  then show "E s'" using assms
    by (auto simp: bindA_def split: sum.splits prod.splits dest: triple_InrD triple_InlD)
qed

lemma triple_conseq:
  assumes "triple P m Q E" and "\<And>s. P' s \<Longrightarrow> P s" and "\<And>x s. Q x s \<Longrightarrow> Q' x s" and "\<And>s. E s \<Longrightarrow> E' s"
  shows "triple P' m Q' E'"
  using assms by (intro tripleI) (blast dest: triple_InrD triple_InlD)+

lemma triple_if: "(A \<Longrightarrow> triple P m Q E) \<Longrightarrow> triple (\<lambda>s. P s \<and> A) m Q E"
  by (auto simp: triple_def)

lemma triple_state: "(\<And>s. P s \<Longrightarrow> triple (\<lambda>t. t = s) m Q E) \<Longrightarrow> triple P m Q E"
  by (auto simp: triple_def)

text \<open>A loop over a list that stops at the first \<open>False\<close>, and reports whether it reached the end.\<close>

fun whileA :: "('x \<Rightarrow> ('s, bool) act) \<Rightarrow> 'x list \<Rightarrow> ('s, bool) act" where
  "whileA body [] = retA True"
| "whileA body (x # xs) = bindA (body x) (\<lambda>go. if go then whileA body xs else retA False)"

text \<open>A loop over a list for its effect.\<close>

fun eachA :: "('x \<Rightarrow> ('s, unit) act) \<Rightarrow> 'x list \<Rightarrow> ('s, unit) act" where
  "eachA body [] = retA ()"
| "eachA body (x # xs) = bindA (body x) (\<lambda>_. eachA body xs)"

lemma triple_eachA:
  assumes "\<And>x. x \<in> set xs \<Longrightarrow> triple I (body x) (\<lambda>_. I) I"
  shows "triple I (eachA body xs) (\<lambda>_. I) I"
  using assms by (induction xs) (auto intro!: triple_ret triple_bind)

end
