(* ===== verification/Mempool.thy ===== *)
theory Mempool
  imports Store_Read Prepare
begin

text \<open>
  The unconfirmed set: \<open>internal/store/mempool.go\<close>. A pass replaces the whole snapshot in one
  transaction, and the reads join it with the confirmed outputs. The time of a pass is the argument
  \<open>now\<close>.
\<close>

subsection \<open>Replacing the snapshot\<close>

definition mempool_tx_row_of :: "(bytes \<Rightarrow> int option) \<Rightarrow> int \<Rightarrow> s_mempool_tx \<Rightarrow> mempool_tx_row" where
  "mempool_tx_row_of seen now t =
     \<lparr>mrTxid = smTxid t, mrIndex = int32_of (smIndex t), mrSizeBytes = int32_of (smSizeBytes t), mrFeeSats = 0,
      mrRaw = smRaw t, mrFirstSeen = (case seen (smTxid t) of Some at' \<Rightarrow> at' | None \<Rightarrow> now)\<rparr>"

definition insert_mempool_tx :: "pg \<Rightarrow> (bytes \<Rightarrow> int option) \<Rightarrow> int \<Rightarrow> s_mempool_tx \<Rightarrow> db \<Rightarrow> db res" where
  "insert_mempool_tx pg seen now t d = exec pg (SInsertMempoolTx (smTxid t))
     (if smTxid t \<in> mrTxid ` set (dbMempoolTxs d) then Inl ErrUnique
      else Inr (d\<lparr>dbMempoolTxs := dbMempoolTxs d @ [mempool_tx_row_of seen now t]\<rparr>))"

text \<open>A missing content is a \<open>NULL\<close>, which the column refuses.\<close>

definition mempool_output_row :: "pg \<Rightarrow> s_output \<Rightarrow> coin_row res" where
  "mempool_output_row pg c =
     (case soContent c of None \<Rightarrow> Inl ErrDatabase
      | Some j \<Rightarrow> bindE (to_jsonb pg (Some j)) (\<lambda>j'. Inr
        \<lparr>orOutpoint = create_key c, orKind = opKind (soOutPoint c), orSource = opSource (soOutPoint c),
         orVout = int32_of_u32 (opVout (soOutPoint c)), orAddress = soAddress c,
         orScripthash = ScriptHash (soAddress c), orValueSats = soValueSats c, orContent = j',
         orContentType = soContentType c\<rparr>))"

definition insert_mempool_output :: "pg \<Rightarrow> s_output \<Rightarrow> db \<Rightarrow> db res" where
  "insert_mempool_output pg c d = exec pg (SInsertMempoolOutput (create_key c))
     (bindE (mempool_output_row pg c) (\<lambda>r.
       Inr (d\<lparr>dbMempoolOutputs := insert_new orOutpoint [r] (dbMempoolOutputs d)\<rparr>)))"

definition mempool_spend_row :: "spend \<Rightarrow> mempool_spend_row" where
  "mempool_spend_row s = \<lparr>msOutpoint = spend_key s, msSource = spSource s, msKind = spKind s,
     msVin = int32_of_u32 (spVin s)\<rparr>"

definition insert_mempool_spend :: "pg \<Rightarrow> spend \<Rightarrow> db \<Rightarrow> db res" where
  "insert_mempool_spend pg s d = exec pg (SInsertMempoolSpend (spend_key s))
     (Inr (d\<lparr>dbMempoolSpends := insert_new msOutpoint [mempool_spend_row s] (dbMempoolSpends d)\<rparr>))"

text \<open>The sum over \<open>mempool_spends s JOIN t ON t.outpoint = s.outpoint\<close>.\<close>

definition sum_joined :: "('z coin_row_scheme \<Rightarrow> bool) \<Rightarrow> mempool_spend_row list \<Rightarrow> 'z coin_row_scheme list \<Rightarrow> int" where
  "sum_joined P ss t = sum_list (map (\<lambda>s. sum_values (\<lambda>r. P r \<and> orOutpoint r = msOutpoint s) t) ss)"

definition mempool_fee :: "db \<Rightarrow> bytes \<Rightarrow> int" where
  "mempool_fee d txid =
     (let ss = filter (\<lambda>s. msSource s = txid \<and> msKind s = SpendRegular) (dbMempoolSpends d)
      in max (sum_joined (\<lambda>_. True) ss (dbOutputs d) + sum_joined (\<lambda>_. True) ss (dbMempoolOutputs d)
              - sum_values (outputs_of txid) (dbMempoolOutputs d)) 0)"

definition setMempoolFees :: "pg \<Rightarrow> db \<Rightarrow> db res" where
  "setMempoolFees pg d = exec pg SMempoolFees
     (bindE (mapE (\<lambda>t. bindE (to_bigint (mempool_fee d (mrTxid t))) (\<lambda>v. Inr (t\<lparr>mrFeeSats := v\<rparr>))) (dbMempoolTxs d))
       (\<lambda>txs. Inr (d\<lparr>dbMempoolTxs := txs\<rparr>)))"

text \<open>The rows the pass read first: a later row of the same txid overwrites an earlier one in the map.\<close>

definition first_seen :: "db \<Rightarrow> bytes \<Rightarrow> int option" where
  "first_seen d = map_of (rev (map (\<lambda>r. (mrTxid r, mrFirstSeen r)) (dbMempoolTxs d)))"

definition replace_tx :: "pg \<Rightarrow> int \<Rightarrow> s_mempool \<Rightarrow> db \<Rightarrow> (unit \<times> db) res" where
  "replace_tx pg now pool d =
     bindE (exec pg SReadSeen (Inr (first_seen d))) (\<lambda>seen.
     bindE (exec pg SClearSpends (Inr (d\<lparr>dbMempoolSpends := []\<rparr>))) (\<lambda>d.
     bindE (exec pg SClearOutputs (Inr (d\<lparr>dbMempoolOutputs := []\<rparr>))) (\<lambda>d.
     bindE (exec pg SClearTxs (Inr (d\<lparr>dbMempoolTxs := []\<rparr>))) (\<lambda>d.
     bindE (foldE (insert_mempool_tx pg seen now) (smTxs pool) d) (\<lambda>d.
     bindE (foldE (insert_mempool_output pg) (smCreates pool) d) (\<lambda>d.
     bindE (foldE (insert_mempool_spend pg) (smSpends pool) d) (\<lambda>d.
     bindE (setMempoolFees pg d) (\<lambda>d. Inr ((), d)))))))))"

definition ReplaceMempool :: "pg \<Rightarrow> int \<Rightarrow> s_mempool \<Rightarrow> db \<Rightarrow> unit res \<times> db" where
  "ReplaceMempool pg now pool d = inTx pg (replace_tx pg now pool) d"

subsection \<open>Reads\<close>

definition mempool_funded :: "string \<Rightarrow> bytes \<Rightarrow> db \<Rightarrow> coin_row list" where
  "mempool_funded column key d = filter (\<lambda>r. key_column column r = key) (dbMempoolOutputs d)"

text \<open>\<open>mempool_spends s JOIN t ON t.outpoint = s.outpoint WHERE t.column = key\<close>.\<close>

definition join_spends :: "string \<Rightarrow> bytes \<Rightarrow> mempool_spend_row list \<Rightarrow> 'z coin_row_scheme list
    \<Rightarrow> (mempool_spend_row \<times> 'z coin_row_scheme) list" where
  "join_spends column key ss t =
     concat (map (\<lambda>s. map (Pair s) (filter (\<lambda>r. orOutpoint r = msOutpoint s \<and> key_column column r = key) t)) ss)"

definition mempool_spent :: "string \<Rightarrow> bytes \<Rightarrow> db \<Rightarrow> (bytes \<times> int) list" where
  "mempool_spent column key d =
     map (\<lambda>(s, r). (msSource s, orValueSats r)) (join_spends column key (dbMempoolSpends d) (dbOutputs d))
     @ map (\<lambda>(s, r). (msSource s, orValueSats r)) (join_spends column key (dbMempoolSpends d) (dbMempoolOutputs d))"

definition MempoolStats :: "pg \<Rightarrow> string \<Rightarrow> bytes \<Rightarrow> db \<Rightarrow> txo_stats res" where
  "MempoolStats pg column key d =
     bindE (checkKeyColumn column) (\<lambda>_. exec pg (SQuery ''mempool stats'')
       (let funded = mempool_funded column key d; spent = mempool_spent column key d
        in bindE (to_bigint (sum_list (map orValueSats funded))) (\<lambda>fundedSum.
           bindE (to_bigint (sum_list (map snd spent))) (\<lambda>spentSum. Inr
             \<lparr>tsFundedCount = int (length funded), tsFundedSum = fundedSum,
              tsSpentCount = int (length spent), tsSpentSum = spentSum,
              tsTxCount = int (length (remdups (map orSource funded @ map fst spent)))\<rparr>))))"

definition MempoolSpentOutpoints :: "pg \<Rightarrow> db \<Rightarrow> (bytes \<Rightarrow> bool) res" where
  "MempoolSpentOutpoints pg d = exec pg (SQuery ''mempool spends'') (Inr (\<lambda>k. k \<in> set (map msOutpoint (dbMempoolSpends d))))"

text \<open>The \<open>vout\<close> column is scanned into a \<open>uint32\<close>, which refuses a negative number.\<close>

definition scan_mempool_utxo :: "coin_row \<Rightarrow> utxo res" where
  "scan_mempool_utxo r =
     (if orVout r < 0 then Inl ErrNumericRange
      else Inr \<lparr>utOutPoint = \<lparr>opKind = orKind r, opSource = copy_into 32 (orSource r), opVout = word_of_int (orVout r)\<rparr>,
        utValueSats = orValueSats r, utHeight = 0, utBlockHash = zero_hash, utBlockTime = None,
        utContentType = orContentType r, utContent = orContent r, utHeightExact = False, utUnconfirmed = True\<rparr>)"

definition MempoolUTXOs :: "pg \<Rightarrow> string \<Rightarrow> bytes \<Rightarrow> db \<Rightarrow> utxo list res" where
  "MempoolUTXOs pg column key d =
     bindE (checkKeyColumn column) (\<lambda>_. exec pg (SQuery ''mempool utxos'')
       (mapE scan_mempool_utxo (sort_key orVout
         (filter (\<lambda>r. key_column column r = key \<and> orOutpoint r \<notin> set (map msOutpoint (dbMempoolSpends d)))
           (dbMempoolOutputs d)))))"

definition newest_seen :: "mempool_tx_row list \<Rightarrow> mempool_tx_row list" where
  "newest_seen = sort_key (\<lambda>t. - mrFirstSeen t)"

definition MempoolTxids :: "pg \<Rightarrow> db \<Rightarrow> hash list res" where
  "MempoolTxids pg d = exec pg (SQuery ''mempool txids'')
     (Inr (map (\<lambda>t. copy_into 32 (mrTxid t)) (newest_seen (dbMempoolTxs d))))"

definition MempoolSummary :: "pg \<Rightarrow> db \<Rightarrow> (int \<times> int \<times> int) res" where
  "MempoolSummary pg d = exec pg (SQuery ''mempool summary'')
     (bindE (to_bigint (sum_list (map mrSizeBytes (dbMempoolTxs d)))) (\<lambda>vsize.
      bindE (to_bigint (sum_list (map mrFeeSats (dbMempoolTxs d)))) (\<lambda>fees.
        Inr (int (length (dbMempoolTxs d)), vsize, fees))))"

definition MempoolTxidsFor :: "pg \<Rightarrow> string \<Rightarrow> bytes \<Rightarrow> db \<Rightarrow> hash list res" where
  "MempoolTxidsFor pg column key d =
     bindE (checkKeyColumn column) (\<lambda>_. exec pg (SQuery ''mempool txids for'')
       (let ids = map orSource (mempool_funded column key d) @ map fst (mempool_spent column key d)
        in Inr (map (\<lambda>t. copy_into 32 (mrTxid t))
             (newest_seen (filter (\<lambda>t. mrTxid t \<in> set ids) (dbMempoolTxs d))))))"

text \<open>\<open>mempoolCoins\<close>, one row; the height and the spend of an unconfirmed coin stay empty.\<close>

definition mempool_coin :: "'z coin_row_scheme \<Rightarrow> coin" where
  "mempool_coin r =
     \<lparr>ccOutPoint = row_out_point r, ccAddress = copy_into 20 (orAddress r), ccValueSats = orValueSats r,
      ccContent = orContent r, ccContentType = orContentType r, ccHeight = 0, ccSpentSource = None,
      ccSpentKind = None, ccSpentHeight = None\<rparr>"

text \<open>The coins a mempool transaction spends, each with the input position that orders them.\<close>

definition spent_coins :: "hash \<Rightarrow> mempool_spend_row list \<Rightarrow> 'z coin_row_scheme list \<Rightarrow> (int \<times> coin) list" where
  "spent_coins txid ss t =
     concat (map (\<lambda>s. map (\<lambda>r. (msVin s, mempool_coin r)) (filter (\<lambda>r. orOutpoint r = msOutpoint s) t))
       (filter (\<lambda>s. msSource s = txid \<and> msKind s = SpendRegular) ss))"

definition MempoolTxRow :: "pg \<Rightarrow> hash \<Rightarrow> db \<Rightarrow> tx_detail res" where
  "MempoolTxRow pg txid d =
     bindE (exec pg (SQuery ''mempool tx'') (case find (\<lambda>t. mrTxid t = txid) (dbMempoolTxs d) of
         None \<Rightarrow> Inl ErrNotFound | Some t \<Rightarrow> Inr t)) (\<lambda>t.
     bindE (exec pg (SQuery ''mempool tx inputs'') (Inr (map snd (sort_key fst
         (spent_coins txid (dbMempoolSpends d) (dbOutputs d)
          @ spent_coins txid (dbMempoolSpends d) (dbMempoolOutputs d)))))) (\<lambda>vin.
     bindE (exec pg (SQuery ''mempool tx outputs'') (Inr (map mempool_coin (sort_key orVout
         (filter (outputs_of txid) (dbMempoolOutputs d)))))) (\<lambda>vout. Inr
       \<lparr>twTxid = txid, twHeight = 0, twIndex = mrIndex t, twSizeBytes = mrSizeBytes t, twFeeSats = mrFeeSats t,
        twRaw = mrRaw t, twBlock = None, twVin = vin, twVout = vout, twUnconfirmed = True\<rparr>)))"

record mempool_entry =
  meTxid :: hash
  meFeeSats :: int
  meSizeBytes :: int
  meValueSats :: int

definition MempoolRecent :: "pg \<Rightarrow> int \<Rightarrow> db \<Rightarrow> mempool_entry list res" where
  "MempoolRecent pg limit d = exec pg (SQuery ''mempool recent'')
     (bindE (limit_rows limit (newest_seen (dbMempoolTxs d))) (mapE (\<lambda>t.
       bindE (to_bigint (sum_values (outputs_of (mrTxid t)) (dbMempoolOutputs d))) (\<lambda>v. Inr
         \<lparr>meTxid = copy_into 32 (mrTxid t), meFeeSats = mrFeeSats t, meSizeBytes = mrSizeBytes t, meValueSats = v\<rparr>))))"

subsection \<open>The effect of a pass\<close>

lemma first_seen_row:
  assumes "t \<in> set (dbMempoolTxs d)" and "distinct (map mrTxid (dbMempoolTxs d))"
  shows "first_seen d (mrTxid t) = Some (mrFirstSeen t)"
  unfolding first_seen_def using assms by (intro map_of_is_SomeI) (auto simp: comp_def rev_map [symmetric])

lemma foldE_mempool_txs:
  assumes "foldE (insert_mempool_tx pg seen now) ts d = Inr d'" and "distinct (map mrTxid (dbMempoolTxs d))"
  shows "d' = d\<lparr>dbMempoolTxs := dbMempoolTxs d @ map (mempool_tx_row_of seen now) ts\<rparr>
    \<and> distinct (map mrTxid (dbMempoolTxs d'))"
  using assms
proof (induction ts arbitrary: d)
  case (Cons t ts)
  then obtain d1 where d1: "insert_mempool_tx pg seen now t d = Inr d1" "foldE (insert_mempool_tx pg seen now) ts d1 = Inr d'"
    by (auto simp: bindE_eq_Inr)
  then have eq: "d1 = d\<lparr>dbMempoolTxs := dbMempoolTxs d @ [mempool_tx_row_of seen now t]\<rparr>"
    and new: "smTxid t \<notin> mrTxid ` set (dbMempoolTxs d)"
    by (auto simp: insert_mempool_tx_def exec_eq_Inr split: if_splits)
  have "distinct (map mrTxid (dbMempoolTxs d1))" using Cons.prems(2) new by (simp add: eq mempool_tx_row_of_def)
  from Cons.IH [OF d1(2) this] show ?case unfolding eq by (intro conjI) (elim conjE, simp)+
qed simp

lemma insert_mempool_output_Inr:
  "insert_mempool_output pg c d = Inr d' \<Longrightarrow> \<exists>r. mempool_output_row pg c = Inr r
     \<and> d' = d\<lparr>dbMempoolOutputs := insert_new orOutpoint [r] (dbMempoolOutputs d)\<rparr>"
  by (auto simp: bindE_eq_Inr insert_mempool_output_def exec_eq_Inr)

lemma insert_mempool_spend_Inr:
  "insert_mempool_spend pg s d = Inr d' \<Longrightarrow>
     d' = d\<lparr>dbMempoolSpends := insert_new msOutpoint [mempool_spend_row s] (dbMempoolSpends d)\<rparr>"
  by (auto simp: insert_mempool_spend_def exec_eq_Inr)

lemma foldE_mempool_outputs:
  assumes "foldE (insert_mempool_output pg) cs d = Inr d'"
  shows "\<exists>rows. mapE (mempool_output_row pg) cs = Inr rows
    \<and> d' = d\<lparr>dbMempoolOutputs := insert_new orOutpoint rows (dbMempoolOutputs d)\<rparr>"
  using assms
proof (induction cs arbitrary: d)
  case (Cons c cs)
  then obtain r where r: "mempool_output_row pg c = Inr r"
    and rest: "foldE (insert_mempool_output pg) cs (d\<lparr>dbMempoolOutputs := insert_new orOutpoint [r] (dbMempoolOutputs d)\<rparr>) = Inr d'"
    by (auto simp: bindE_eq_Inr dest!: insert_mempool_output_Inr)
  from Cons.IH [OF rest] r show ?case by auto
qed simp

lemma foldE_mempool_spends:
  "foldE (insert_mempool_spend pg) ss d = Inr d'
    \<Longrightarrow> d' = d\<lparr>dbMempoolSpends := insert_new msOutpoint (map mempool_spend_row ss) (dbMempoolSpends d)\<rparr>"
proof (induction ss arbitrary: d)
  case (Cons s ss)
  then have "foldE (insert_mempool_spend pg) ss
      (d\<lparr>dbMempoolSpends := insert_new msOutpoint [mempool_spend_row s] (dbMempoolSpends d)\<rparr>) = Inr d'"
    by (auto simp: bindE_eq_Inr dest!: insert_mempool_spend_Inr)
  from Cons.IH [OF this] show ?case by simp
qed simp

definition with_fee :: "db \<Rightarrow> mempool_tx_row \<Rightarrow> mempool_tx_row" where
  "with_fee d t = t\<lparr>mrFeeSats := mempool_fee d (mrTxid t)\<rparr>"

lemma setMempoolFees_Inr:
  assumes "setMempoolFees pg d = Inr d'"
  shows "d' = d\<lparr>dbMempoolTxs := map (with_fee d) (dbMempoolTxs d)\<rparr>"
proof -
  obtain txs where m: "mapE (\<lambda>t. bindE (to_bigint (mempool_fee d (mrTxid t))) (\<lambda>v. Inr (t\<lparr>mrFeeSats := v\<rparr>))) (dbMempoolTxs d) = Inr txs"
    and d': "d' = d\<lparr>dbMempoolTxs := txs\<rparr>"
    using assms by (auto simp: setMempoolFees_def exec_eq_Inr bindE_eq_Inr)
  have "map id txs = map (with_fee d) (dbMempoolTxs d)"
    by (rule mapE_map_eq [OF m]) (auto simp: with_fee_def to_bigint_def bindE_eq_Inr split: if_splits)
  then show ?thesis by (simp add: d')
qed

lemma mempool_fee_tx_update [simp]: "mempool_fee (d\<lparr>dbMempoolTxs := x\<rparr>) t = mempool_fee d t"
  by (simp add: mempool_fee_def)

lemma replace_tx_Inr:
  assumes "replace_tx pg now pool d = Inr (u, d')"
  obtains rows where "mapE (mempool_output_row pg) (smCreates pool) = Inr rows"
    "dbMempoolOutputs d' = insert_new orOutpoint rows []"
    "dbMempoolSpends d' = insert_new msOutpoint (map mempool_spend_row (smSpends pool)) []"
    "dbMempoolTxs d' = map (with_fee d') (map (mempool_tx_row_of (first_seen d) now) (smTxs pool))"
    "distinct (map mrTxid (dbMempoolTxs d'))" "chain_tables d' = chain_tables d"
proof -
  let ?d0 = "d\<lparr>dbMempoolSpends := [], dbMempoolOutputs := [], dbMempoolTxs := []\<rparr>"
  obtain d1 d2 d3 where steps: "foldE (insert_mempool_tx pg (first_seen d) now) (smTxs pool) ?d0 = Inr d1"
    "foldE (insert_mempool_output pg) (smCreates pool) d1 = Inr d2"
    "foldE (insert_mempool_spend pg) (smSpends pool) d2 = Inr d3" "setMempoolFees pg d3 = Inr d'"
    using assms by (auto simp: replace_tx_def bindE_eq_Inr exec_eq_Inr)
  have "distinct (map mrTxid (dbMempoolTxs ?d0))" by simp
  note txs = foldE_mempool_txs [OF steps(1) this]
  have d1: "d1 = ?d0\<lparr>dbMempoolTxs := map (mempool_tx_row_of (first_seen d) now) (smTxs pool)\<rparr>"
    using txs [THEN conjunct1] by simp
  note d1 = d1 txs [THEN conjunct2]
  obtain rows where rows: "mapE (mempool_output_row pg) (smCreates pool) = Inr rows"
    and d2: "d2 = d1\<lparr>dbMempoolOutputs := insert_new orOutpoint rows (dbMempoolOutputs d1)\<rparr>"
    using foldE_mempool_outputs [OF steps(2)] by blast
  have d3: "d3 = d2\<lparr>dbMempoolSpends := insert_new msOutpoint (map mempool_spend_row (smSpends pool)) (dbMempoolSpends d2)\<rparr>"
    using steps(3) by (rule foldE_mempool_spends)
  have d': "d' = d3\<lparr>dbMempoolTxs := map (with_fee d3) (dbMempoolTxs d3)\<rparr>" using steps(4) by (rule setMempoolFees_Inr)
  have "map mrTxid (dbMempoolTxs d') = map mrTxid (dbMempoolTxs d1)"
    by (simp add: d' d3 d2 with_fee_def comp_def)
  then have "distinct (map mrTxid (dbMempoolTxs d'))" using d1(2) by simp
  moreover have fee: "with_fee d' = with_fee d3" by (simp add: d' with_fee_def fun_eq_iff)
  have "dbMempoolTxs d' = map (with_fee d3) (dbMempoolTxs d3)" by (simp add: d')
  then have "dbMempoolTxs d' = map (with_fee d') (map (mempool_tx_row_of (first_seen d) now) (smTxs pool))"
    by (simp only: fee) (simp add: d3 d2 d1(1))
  moreover have "dbMempoolOutputs d' = insert_new orOutpoint rows []"
    "dbMempoolSpends d' = insert_new msOutpoint (map mempool_spend_row (smSpends pool)) []"
    "chain_tables d' = chain_tables d"
    by (simp_all add: d' d3 d2 d1(1) chain_tables_def)
  ultimately show ?thesis by (intro that [OF rows])
qed

lemma mempool_fee_nonneg: "0 \<le> mempool_fee d t"
  by (simp add: mempool_fee_def Let_def)

lemma wf_db_replace_tx:
  assumes "replace_tx pg now pool d = Inr (u, d')" and "wf_db d"
  shows "wf_db d'"
  using assms(1)
proof (rule replace_tx_Inr)
  fix rows
  assume "dbMempoolOutputs d' = insert_new orOutpoint rows []"
    and "dbMempoolSpends d' = insert_new msOutpoint (map mempool_spend_row (smSpends pool)) []"
    and "dbMempoolTxs d' = map (with_fee d') (map (mempool_tx_row_of (first_seen d) now) (smTxs pool))"
    and "distinct (map mrTxid (dbMempoolTxs d'))" and chain: "chain_tables d' = chain_tables d"
  then have "wf_mempool d'"
    unfolding wf_mempool_def by (auto simp: with_fee_def mempool_fee_nonneg intro: distinct_insert_new)
  then show ?thesis
    using assms(2) chain by (simp add: wf_db_def wf_blocks_def wf_txs_def wf_outputs_def chain_tables_def)
qed

lemma wf_db_ReplaceMempool: "wf_db d \<Longrightarrow> wf_db (snd (ReplaceMempool pg now pool d))"
  by (cases "ReplaceMempool pg now pool d")
     (auto simp: ReplaceMempool_def elim!: inTx_cases dest: wf_db_replace_tx)

subsection \<open>Joined sums\<close>

text \<open>A join on distinct keys counts each row at most once.\<close>

lemma sum_list_concat: "sum_list (map f (concat xss)) = sum_list (map (\<lambda>xs. sum_list (map f xs)) xss)" for f :: "'a \<Rightarrow> int"
  by (induction xss) auto

lemma join_sum:
  fixes t :: "'z coin_row_scheme list"
  assumes "distinct (map msOutpoint ss)"
  shows "sum_list (map (\<lambda>s. sum_list (map orValueSats (filter (\<lambda>r. orOutpoint r = msOutpoint s \<and> P r) t))) ss)
    = sum_list (map orValueSats (filter (\<lambda>r. orOutpoint r \<in> set (map msOutpoint ss) \<and> P r) t))"
  using assms
proof (induction ss)
  case (Cons s ss)
  let ?S = "set (map msOutpoint ss)"
  have new: "msOutpoint s \<notin> ?S" using Cons.prems by auto
  have "sum_list (map orValueSats (filter (\<lambda>r. orOutpoint r \<in> insert (msOutpoint s) ?S \<and> P r) t))
      = sum_list (map orValueSats (filter (\<lambda>r. orOutpoint r = msOutpoint s \<and> P r) t))
        + sum_list (map orValueSats (filter (\<lambda>r. orOutpoint r \<in> ?S \<and> P r) t))"
    using new by (induction t) auto
  then show ?case using Cons by simp
qed simp

lemma join_spends_sum:
  fixes t :: "'z coin_row_scheme list"
  assumes "distinct (map msOutpoint ss)"
  shows "sum_list (map snd (map (\<lambda>(s, r). (msSource s, orValueSats r)) (join_spends column key ss t)))
    = sum_list (map orValueSats (filter (\<lambda>r. orOutpoint r \<in> set (map msOutpoint ss) \<and> key_column column r = key) t))"
proof -
  have "sum_list (map snd (map (\<lambda>(s, r). (msSource s, orValueSats r)) (join_spends column key ss t)))
      = sum_list (map (\<lambda>s. sum_list (map orValueSats (filter (\<lambda>r. orOutpoint r = msOutpoint s \<and> key_column column r = key) t))) ss)"
    by (simp add: join_spends_def sum_list_concat comp_def split_def)
  then show ?thesis by (simp only: join_sum [OF assms])
qed

text \<open>The values of rows, of which some are taken out.\<close>

lemma sum_rows_without:
  fixes t :: "'z coin_row_scheme list"
  shows "sum_list (map orValueSats (filter P t)) - sum_list (map orValueSats (filter (\<lambda>r. K r \<and> P r) t))
    = sum_list (map orValueSats (filter (\<lambda>r. P r \<and> \<not> K r) t))"
  by (induction t) auto

lemma scan_mempool_values:
  assumes "mapE scan_mempool_utxo rows = Inr us"
  shows "map utValueSats us = map orValueSats rows"
  by (rule mapE_map_eq [OF assms]) (auto simp: scan_mempool_utxo_def split: if_splits)

lemma MempoolUTXOs_sum:
  assumes "MempoolUTXOs pg column key d = Inr us"
  shows "sum_list (map utValueSats us) = sum_list (map orValueSats
     (filter (\<lambda>r. key_column column r = key \<and> orOutpoint r \<notin> set (map msOutpoint (dbMempoolSpends d))) (dbMempoolOutputs d)))"
proof -
  have "mapE scan_mempool_utxo (sort_key orVout (filter (\<lambda>r. key_column column r = key
      \<and> orOutpoint r \<notin> set (map msOutpoint (dbMempoolSpends d))) (dbMempoolOutputs d))) = Inr us"
    using assms by (auto simp: MempoolUTXOs_def bindE_eq_Inr exec_eq_Inr)
  from scan_mempool_values [OF this] show ?thesis by (simp only: sum_list_sort_key)
qed

lemma balance_sum:
  assumes "Stats pg column key d = Inr s"
  shows "tsFundedSum s - tsSpentSum s
    = sum_list (map orValueSats (filter (\<lambda>r. key_column column r = key \<and> orSpentSource r = None) (dbOutputs d)))"
proof -
  let ?mine = "filter (\<lambda>r. key_column column r = key) (dbOutputs d)"
  have "tsFundedSum s = sum_list (map orValueSats ?mine)"
    "tsSpentSum s = sum_list (map orValueSats (filter (\<lambda>r. orSpentSource r \<noteq> None) ?mine))"
    using assms by (auto simp: Stats_def Let_def bindE_eq_Inr exec_eq_Inr to_bigint_def split: if_splits)
  moreover have "filter (\<lambda>r. orSpentSource r = None) ?mine
      = filter (\<lambda>r. key_column column r = key \<and> orSpentSource r = None) (dbOutputs d)"
    by (simp add: conj_commute)
  ultimately show ?thesis
    using sum_list_filter_split [of orValueSats ?mine "\<lambda>r. orSpentSource r \<noteq> None"] by simp
qed

lemma UTXOs_sum_filter:
  assumes "wf_db d" and "UTXOs pg column key d = Inr us"
  shows "sum_list (map utValueSats (filter (\<lambda>u. Q (Key (utOutPoint u))) us)) = sum_list (map orValueSats
     (filter (\<lambda>r. key_column column r = key \<and> orSpentSource r = None \<and> Q (orOutpoint r)) (dbOutputs d)))"
proof -
  let ?rows = "filter (\<lambda>r. key_column column r = key \<and> orSpentSource r = None) (dbOutputs d)"
  let ?k = "\<lambda>p. (- orHeight (fst p), orVout (fst p))"
  have us: "us = map scan_utxo (sort_key ?k (join_blocks d ?rows))"
    using assms(2) by (auto simp: UTXOs_def bindE_eq_Inr exec_eq_Inr newest_first_def)
  have join: "map fst (join_blocks d ?rows) = ?rows" using assms(1) by (intro join_blocks_all) auto
  have wf: "Key (row_out_point r) = orOutpoint r" if "r \<in> set ?rows" for r
    using that assms(1) by (auto simp: wf_db_def wf_outputs_def Key_row_out_point)
  have "filter (\<lambda>u. Q (Key (utOutPoint u))) us
      = map scan_utxo (filter (\<lambda>p. Q (Key (row_out_point (fst p)))) (sort_key ?k (join_blocks d ?rows)))"
    by (simp add: us filter_map comp_def scan_utxo_fst)
  also have "\<dots> = map scan_utxo (sort_key ?k (filter (\<lambda>p. Q (Key (row_out_point (fst p)))) (join_blocks d ?rows)))"
    by (simp only: filter_sort)
  finally have "sum_list (map utValueSats (filter (\<lambda>u. Q (Key (utOutPoint u))) us))
      = sum_list (map (\<lambda>p. orValueSats (fst p)) (filter (\<lambda>p. Q (Key (row_out_point (fst p)))) (join_blocks d ?rows)))"
    by (simp add: comp_def scan_utxo_fst sum_list_sort_key)
  also have "\<dots> = sum_list (map orValueSats (filter (\<lambda>r. Q (Key (row_out_point r))) (map fst (join_blocks d ?rows))))"
    by (simp add: filter_map comp_def)
  also have "\<dots> = sum_list (map orValueSats (filter (\<lambda>r. Q (orOutpoint r)) ?rows))"
    unfolding join using wf by (metis (mono_tags, lifting) filter_cong)
  finally show ?thesis by (simp add: conj_ac)
qed

subsection \<open>Properties\<close>

text \<open>
  C9. Every write of the store keeps the index well-formed, whatever block, snapshot or height it is
  given and whatever fails in between: distinct heights, hashes, txids and outpoints, transactions and
  outputs that belong to indexed blocks, spends recorded completely or not at all, and fees that are
  not negative.
\<close>

theorem store_invariant:
  assumes "wf_db d"
  shows "wf_db (snd (Apply pg b d)) \<and> wf_db (snd (Rollback pg h d)) \<and> wf_db (snd (Init pg c n d))
    \<and> wf_db (snd (SetMainHeight pg h m d)) \<and> wf_db (snd (ReplaceMempool pg now pool d))"
  using assms by (intro conjI wf_db_Apply wf_db_Rollback wf_db_Init wf_db_SetMainHeight wf_db_ReplaceMempool)

theorem store_invariant_witness:
  "wf_db (snd (Rollback ex_pg 0 (snd (Apply ex_pg ex_block1 ex_db0))))"
  using store_invariant [OF store_invariant [OF ex_db0_wf, THEN conjunct1, of ex_pg ex_block1]] by blast


definition ex_pool :: s_mempool where
  "ex_pool = \<lparr>smTxs = [\<lparr>smTxid = ex_hash 42, smIndex = 0, smSizeBytes = 99, smRaw = []\<rparr>],
     smCreates = [ex_output KindRegular (ex_hash 42) 25],
     smSpends = [\<lparr>spOutPoint = \<lparr>opKind = KindRegular, opSource = ex_hash 41, opVout = 0\<rparr>,
       spSource = ex_hash 42, spKind = SpendRegular, spVin = 0\<rparr>]\<rparr>"

definition ex_mempool_db :: db where
  "ex_mempool_db = snd (ReplaceMempool ex_pg 1000 ex_pool ex_db1)"

lemma ex_keys42 [simp]:
  "Key \<lparr>opKind = KindRegular, opSource = ex_hash 42, opVout = 0\<rparr> \<noteq> Key \<lparr>opKind = KindRegular, opSource = ex_hash 41, opVout = 0\<rparr>"
  "Key \<lparr>opKind = KindRegular, opSource = ex_hash 41, opVout = 0\<rparr> \<noteq> Key \<lparr>opKind = KindRegular, opSource = ex_hash 42, opVout = 0\<rparr>"
  "Key \<lparr>opKind = KindCoinbase, opSource = ex_hash 40, opVout = 0\<rparr> \<noteq> Key \<lparr>opKind = KindRegular, opSource = ex_hash 42, opVout = 0\<rparr>"
  by (simp_all add: Key_eq_iff wf_out_point_def wf_hash_def)

lemmas replace_defs = insert_mempool_tx_def mempool_tx_row_of_def insert_mempool_output_def
  mempool_output_row_def insert_mempool_spend_def mempool_spend_row_def to_jsonb_def

definition ex_unpriced :: db where
  "ex_unpriced = ex_db1\<lparr>
     dbMempoolTxs := [\<lparr>mrTxid = ex_hash 42, mrIndex = 0, mrSizeBytes = 99, mrFeeSats = 0, mrRaw = [], mrFirstSeen = 1000\<rparr>],
     dbMempoolOutputs := [\<lparr>orOutpoint = Key \<lparr>opKind = KindRegular, opSource = ex_hash 42, opVout = 0\<rparr>,
      orKind = KindRegular, orSource = ex_hash 42, orVout = 0, orAddress = replicate 20 7,
      orScripthash = ScriptHash (replicate 20 7), orValueSats = 25, orContent = JNull, orContentType = ''bitcoin''\<rparr>],
     dbMempoolSpends := [\<lparr>msOutpoint = Key \<lparr>opKind = KindRegular, opSource = ex_hash 41, opVout = 0\<rparr>,
       msSource = ex_hash 42, msKind = SpendRegular, msVin = 0\<rparr>]\<rparr>"

lemma ex_fee: "mempool_fee ex_unpriced (ex_hash 42) = 5"
  by (simp add: mempool_fee_def sum_joined_def sum_values_def outputs_of_def ex_unpriced_def ex_db1_outputs)

lemma ex_fees: "setMempoolFees ex_pg ex_unpriced = Inr (ex_unpriced\<lparr>dbMempoolTxs := map (\<lambda>t. t\<lparr>mrFeeSats := 5\<rparr>) (dbMempoolTxs ex_unpriced)\<rparr>)"
proof -
  have "mrTxid t = ex_hash 42" if "t \<in> set (dbMempoolTxs ex_unpriced)" for t
    using that by (simp add: ex_unpriced_def)
  then show ?thesis by (simp add: setMempoolFees_def) (simp add: ex_unpriced_def ex_fee [unfolded ex_unpriced_def, simplified] to_bigint_def)
qed

lemma ex_inserts:
  "bindE (foldE (insert_mempool_tx ex_pg (\<lambda>_. None) 1000) (smTxs ex_pool) (ex_db1\<lparr>dbMempoolSpends := [], dbMempoolOutputs := [], dbMempoolTxs := []\<rparr>)) (\<lambda>d.
   bindE (foldE (insert_mempool_output ex_pg) (smCreates ex_pool) d) (\<lambda>d.
     foldE (insert_mempool_spend ex_pg) (smSpends ex_pool) d)) = Inr ex_unpriced"
  by (simp add: replace_defs ex_pool_def ex_output_def ex_unpriced_def int32_of_def)

lemma ex_db1_mempool: "dbMempoolTxs ex_db1 = []"
  using apply_block1 by (rule apply_tx_Inr) (simp add: ex_db0_eq)

lemma ex_replace: "ReplaceMempool ex_pg 1000 ex_pool ex_db1 = (Inr (), ex_mempool_db)"
  and ex_mempool_db_eq: "ex_mempool_db = ex_unpriced\<lparr>dbMempoolTxs := map (\<lambda>t. t\<lparr>mrFeeSats := 5\<rparr>) (dbMempoolTxs ex_unpriced)\<rparr>"
proof -
  have "first_seen ex_db1 = (\<lambda>_. None)" by (simp add: first_seen_def ex_db1_mempool fun_eq_iff)
  then have "replace_tx ex_pg 1000 ex_pool ex_db1
      = bindE (bindE (foldE (insert_mempool_tx ex_pg (\<lambda>_. None) 1000) (smTxs ex_pool) (ex_db1\<lparr>dbMempoolSpends := [], dbMempoolOutputs := [], dbMempoolTxs := []\<rparr>)) (\<lambda>d.
         bindE (foldE (insert_mempool_output ex_pg) (smCreates ex_pool) d) (\<lambda>d.
           foldE (insert_mempool_spend ex_pg) (smSpends ex_pool) d))) (\<lambda>d. bindE (setMempoolFees ex_pg d) (\<lambda>d. Inr ((), d)))"
    by (simp add: replace_tx_def bindE_assoc)
  then have "replace_tx ex_pg 1000 ex_pool ex_db1
      = Inr ((), ex_unpriced\<lparr>dbMempoolTxs := map (\<lambda>t. t\<lparr>mrFeeSats := 5\<rparr>) (dbMempoolTxs ex_unpriced)\<rparr>)"
    by (simp only: ex_inserts bindE_Inr ex_fees)
  then show "ReplaceMempool ex_pg 1000 ex_pool ex_db1 = (Inr (), ex_mempool_db)"
    and "ex_mempool_db = ex_unpriced\<lparr>dbMempoolTxs := map (\<lambda>t. t\<lparr>mrFeeSats := 5\<rparr>) (dbMempoolTxs ex_unpriced)\<rparr>"
    by (simp_all add: ReplaceMempool_def inTx_no_fault ex_mempool_db_def)
qed


lemma unconfirmed_balance_sum:
  assumes "wf_db d" and "Stats pg1 column key d = Inr s" and "MempoolStats pg2 column key d = Inr m"
    and "UTXOs pg3 column key d = Inr us" and "MempoolUTXOs pg4 column key d = Inr pending"
    and "MempoolSpentOutpoints pg5 d = Inr spent"
    and "\<forall>r \<in> set (dbOutputs d). orOutpoint r \<in> msOutpoint ` set (dbMempoolSpends d) \<longrightarrow> orSpentSource r = None"
  shows "sum_list (map utValueSats (filter (\<lambda>u. \<not> spent (Key (utOutPoint u))) us @ pending))
    = tsFundedSum s - tsSpentSum s + tsFundedSum m - tsSpentSum m"
proof -
  let ?K = "\<lambda>k. k \<in> set (map msOutpoint (dbMempoolSpends d))" and ?P = "\<lambda>r. key_column column r = key"
  let ?sum = "\<lambda>P t. sum_list (map orValueSats (filter P t))"
  have dist: "distinct (map msOutpoint (dbMempoolSpends d))" using assms(1) by (simp add: wf_db_def wf_mempool_def)
  have spent: "spent = ?K" using assms(6) by (auto simp: MempoolSpentOutpoints_def exec_eq_Inr)
  have s: "tsFundedSum s - tsSpentSum s = ?sum (\<lambda>r. ?P r \<and> orSpentSource r = None) (dbOutputs d)"
    using UTXOs_sum_filter [OF assms(1,4), of "\<lambda>_. True"] balance_sum [OF assms(2)] by simp
  have m: "tsFundedSum m = sum_list (map orValueSats (mempool_funded column key d))"
    "tsSpentSum m = sum_list (map snd (mempool_spent column key d))"
    using assms(3) by (auto simp: MempoolStats_def Let_def bindE_eq_Inr exec_eq_Inr to_bigint_def split: if_splits)
  have "tsSpentSum m = ?sum (\<lambda>r. ?K (orOutpoint r) \<and> ?P r) (dbOutputs d) + ?sum (\<lambda>r. ?K (orOutpoint r) \<and> ?P r) (dbMempoolOutputs d)"
    unfolding m(2) mempool_spent_def by (simp only: map_append sum_list_append join_spends_sum [OF dist])
  moreover have "filter (\<lambda>r. ?K (orOutpoint r) \<and> ?P r) (dbOutputs d)
      = filter (\<lambda>r. ?K (orOutpoint r) \<and> (?P r \<and> orSpentSource r = None)) (dbOutputs d)"
    using assms(7) by (intro filter_cong) auto
  moreover have "?sum (\<lambda>r. ?P r \<and> orSpentSource r = None) (dbOutputs d)
        - ?sum (\<lambda>r. ?K (orOutpoint r) \<and> (?P r \<and> orSpentSource r = None)) (dbOutputs d)
      = ?sum (\<lambda>r. (?P r \<and> orSpentSource r = None) \<and> \<not> ?K (orOutpoint r)) (dbOutputs d)"
    "?sum ?P (dbMempoolOutputs d) - ?sum (\<lambda>r. ?K (orOutpoint r) \<and> ?P r) (dbMempoolOutputs d)
      = ?sum (\<lambda>r. ?P r \<and> \<not> ?K (orOutpoint r)) (dbMempoolOutputs d)"
    by (rule sum_rows_without)+
  moreover have "sum_list (map utValueSats (filter (\<lambda>u. \<not> ?K (Key (utOutPoint u))) us))
      = ?sum (\<lambda>r. ?P r \<and> orSpentSource r = None \<and> \<not> ?K (orOutpoint r)) (dbOutputs d)"
    by (rule UTXOs_sum_filter [OF assms(1,4)])
  ultimately show ?thesis
    using s m(1) MempoolUTXOs_sum [OF assms(5)] unfolding spent mempool_funded_def
    by (simp only: map_append sum_list_append conj_assoc)
qed


lemma ex_mempool_fields:
  "dbOutputs ex_mempool_db = dbOutputs ex_db1"
  "map msOutpoint (dbMempoolSpends ex_mempool_db) = [Key \<lparr>opKind = KindRegular, opSource = ex_hash 41, opVout = 0\<rparr>]"
  "dbMempoolOutputs ex_mempool_db = [\<lparr>orOutpoint = Key \<lparr>opKind = KindRegular, opSource = ex_hash 42, opVout = 0\<rparr>,
      orKind = KindRegular, orSource = ex_hash 42, orVout = 0, orAddress = replicate 20 7,
      orScripthash = ScriptHash (replicate 20 7), orValueSats = 25, orContent = JNull, orContentType = ''bitcoin''\<rparr>]"
  by (simp_all add: ex_mempool_db_eq ex_unpriced_def)

lemma ex_mempool_wf: "wf_db ex_mempool_db"
  using wf_db_ReplaceMempool [OF ex_db1_wf, of ex_pg 1000 ex_pool] by (simp add: ex_replace)

lemma ex_mempool_spend: "\<exists>sp. dbMempoolSpends ex_mempool_db = [sp] \<and> msOutpoint sp = Key \<lparr>opKind = KindRegular, opSource = ex_hash 41, opVout = 0\<rparr>"
  using ex_mempool_fields(2) by (cases "dbMempoolSpends ex_mempool_db") auto

lemma ex_mempool_spends:
  "\<forall>r \<in> set (dbOutputs ex_mempool_db). orOutpoint r \<in> msOutpoint ` set (dbMempoolSpends ex_mempool_db) \<longrightarrow> orSpentSource r = None"
  using ex_mempool_spend by (auto simp: ex_mempool_fields(1) ex_db1_outputs)

lemma ex_mempool_reads:
  "\<exists>s m us pending spent.
     Stats ex_pg ColumnAddress (replicate 20 7) ex_mempool_db = Inr s
     \<and> MempoolStats ex_pg ColumnAddress (replicate 20 7) ex_mempool_db = Inr m
     \<and> UTXOs ex_pg ColumnAddress (replicate 20 7) ex_mempool_db = Inr us
     \<and> MempoolUTXOs ex_pg ColumnAddress (replicate 20 7) ex_mempool_db = Inr pending
     \<and> MempoolSpentOutpoints ex_pg ex_mempool_db = Inr spent"
proof -
  obtain sp where sp: "dbMempoolSpends ex_mempool_db = [sp]" "msOutpoint sp = Key \<lparr>opKind = KindRegular, opSource = ex_hash 41, opVout = 0\<rparr>"
    using ex_mempool_spend by blast
  obtain s where 1: "Stats ex_pg ColumnAddress (replicate 20 7) ex_mempool_db = Inr s"
    by (simp add: Stats_def checkKeyColumn_def key_column_def ex_mempool_fields(1) ex_db1_outputs to_bigint_def Let_def)
  obtain m where 2: "MempoolStats ex_pg ColumnAddress (replicate 20 7) ex_mempool_db = Inr m"
    by (simp add: MempoolStats_def checkKeyColumn_def mempool_funded_def mempool_spent_def join_spends_def key_column_def
        ex_mempool_fields(1) sp ex_mempool_fields(3) ex_db1_outputs to_bigint_def Let_def)
  obtain us where 3: "UTXOs ex_pg ColumnAddress (replicate 20 7) ex_mempool_db = Inr us"
    by (simp add: UTXOs_def checkKeyColumn_def)
  obtain pending where 4: "MempoolUTXOs ex_pg ColumnAddress (replicate 20 7) ex_mempool_db = Inr pending"
    by (simp add: MempoolUTXOs_def checkKeyColumn_def key_column_def sp ex_mempool_fields(3) scan_mempool_utxo_def)
  obtain spent where 5: "MempoolSpentOutpoints ex_pg ex_mempool_db = Inr spent"
    by (simp add: MempoolSpentOutpoints_def)
  show ?thesis using 1 2 3 4 5 by blast
qed


subsection \<open>A snapshot that a block overtook\<close>

lemma mempool_row_of_create:
  assumes "mempool_output_row pg c = Inr r"
  shows "orOutpoint r = create_key c" and "orAddress r = soAddress c"
    and "wf_out_point (soOutPoint c) \<Longrightarrow> scan_mempool_utxo r = Inr u \<Longrightarrow> utOutPoint u = soOutPoint c"
  using assms
  by (auto simp: mempool_output_row_def scan_mempool_utxo_def bindE_eq_Inr int32_of_u32_def wf_out_point_def
      split: option.splits if_splits)

lemma UTXOs_lists:
  assumes "wf_db d" and "UTXOs pg ColumnAddress a d = Inr us" and "utxos d (Key p) = Some (a, v)" and "wf_out_point p"
  shows "p \<in> utOutPoint ` set us"
proof -
  let ?rows = "filter (\<lambda>r. key_column ColumnAddress r = a \<and> orSpentSource r = None) (dbOutputs d)"
  have wf: "wf_outputs d" using assms(1) by (simp add: wf_db_def)
  have us: "us = map scan_utxo (newest_first (join_blocks d ?rows))"
    using assms(2) by (auto simp: UTXOs_def bindE_eq_Inr exec_eq_Inr)
  have join: "fst ` set (join_blocks d ?rows) = set ?rows"
    using assms(1) join_blocks_all [of d ?rows] by (metis (no_types, lifting) filter_is_subset list.set_map)
  obtain r where r: "r \<in> set ?rows" "orOutpoint r = Key p"
  proof -
    have "(Key p, v) \<in> (\<lambda>r. (orOutpoint r, orValueSats r)) ` set ?rows" unfolding utxos_rows [OF wf] using assms(3) by simp
    then show thesis by (rule imageE) (use that in auto)
  qed
  then have "Key (row_out_point r) = Key p" using wf by (auto simp: wf_outputs_def Key_row_out_point)
  then have "row_out_point r = p" using assms(4) by (subst (asm) Key_eq_iff) (simp_all add: wf_out_point_def row_out_point_def)
  moreover have "row_out_point r \<in> utOutPoint ` set us"
    using r(1) unfolding join [symmetric] by (auto simp: us newest_first_def image_image scan_utxo_fst)
  ultimately show ?thesis by simp
qed

lemma MempoolUTXOs_lists:
  assumes "replace_tx pg now pool d = Inr (u, d')" and "MempoolUTXOs pg' ColumnAddress (soAddress c) d' = Inr pending"
    and "distinct (map create_key (smCreates pool))" and "c \<in> set (smCreates pool)"
    and "wf_out_point (soOutPoint c)" and "create_key c \<notin> spend_key ` set (smSpends pool)"
  shows "soOutPoint c \<in> utOutPoint ` set pending"
  using assms(1)
proof (rule replace_tx_Inr)
  fix rows
  assume rows: "mapE (mempool_output_row pg) (smCreates pool) = Inr rows"
    and outs: "dbMempoolOutputs d' = insert_new orOutpoint rows []"
    and spends: "dbMempoolSpends d' = insert_new msOutpoint (map mempool_spend_row (smSpends pool)) []"
  have "map orOutpoint rows = map create_key (smCreates pool)"
    by (rule mapE_map_eq [OF rows]) (rule mempool_row_of_create(1))
  then have outs: "dbMempoolOutputs d' = rows"
    using assms(3) insert_new_fresh [of orOutpoint rows "[]"] by (simp add: outs)
  obtain r where r: "r \<in> set rows" "mempool_output_row pg c = Inr r"
    using rows assms(4) by (rule mapE_setI)
  have free: "orOutpoint r \<notin> msOutpoint ` set (dbMempoolSpends d')"
    using assms(6) by (simp add: spends keys_insert_new image_image mempool_spend_row_def mempool_row_of_create(1) [OF r(2)])
  let ?rows = "filter (\<lambda>r. key_column ColumnAddress r = soAddress c \<and> orOutpoint r \<notin> set (map msOutpoint (dbMempoolSpends d'))) rows"
  have list: "mapE scan_mempool_utxo (sort_key orVout ?rows) = Inr pending"
    using assms(2) by (auto simp: MempoolUTXOs_def bindE_eq_Inr exec_eq_Inr outs)
  have "r \<in> set (sort_key orVout ?rows)"
    using r(1) free by (simp add: key_column_def mempool_row_of_create(2) [OF r(2)])
  with list obtain x where "x \<in> set pending" "scan_mempool_utxo r = Inr x" by (rule mapE_setI)
  then show ?thesis using mempool_row_of_create(3) [OF r(2) assms(5)] by force
qed

text \<open>
  C28. A block takes its coins out of the unconfirmed set, but \<open>ReplaceMempool\<close> does not look at the confirmed
  tables. When the mempool loop has read the node before a block and writes after it, a coin of the block that is
  unspent in both is back in the unconfirmed set, and the lists of confirmed and of unconfirmed coins
  both have it until the next snapshot.
\<close>

theorem stale_snapshot_counts_twice:
  assumes "wf_db d" and "Apply pg b d = (Inr n, d1)" and "ReplaceMempool pg' now pool d1 = (Inr (), d2)"
    and "UTXOs pg1 ColumnAddress (soAddress c) d2 = Inr us" and "MempoolUTXOs pg2 ColumnAddress (soAddress c) d2 = Inr pending"
    and "distinct (map create_key (smCreates pool))" and "c \<in> set (smCreates pool)" and "c \<in> set (sbCreates b)"
    and "wf_out_point (soOutPoint c)" and "create_key c \<notin> spend_key ` set (smSpends pool)"
    and "utxos d1 (create_key c) = Some (soAddress c, v)"
  shows "create_key c \<notin> orOutpoint ` set (dbMempoolOutputs d1)
    \<and> soOutPoint c \<in> utOutPoint ` set us \<and> soOutPoint c \<in> utOutPoint ` set pending"
proof (intro conjI)
  have tx: "apply_tx pg b d = Inr (n, d1)" using assms(2) by (auto simp: Apply_def elim: inTx_cases)
  have replace: "replace_tx pg' now pool d1 = Inr ((), d2)" using assms(3) by (auto simp: ReplaceMempool_def elim: inTx_cases)
  show "create_key c \<notin> orOutpoint ` set (dbMempoolOutputs d1)"
    using tx
  proof (rule apply_tx_Inr)
    assume "dbMempoolOutputs d1 = filter (\<lambda>r. orOutpoint r \<notin> create_key ` set (sbCreates b)) (dbMempoolOutputs d)"
    then show ?thesis using imageI [OF assms(8), of create_key] by auto
  qed
  have "wf_db d2" using wf_db_replace_tx [OF replace wf_db_apply_tx [OF tx assms(1)]] .
  moreover have "utxos d2 = utxos d1" using replace by (rule replace_tx_Inr) (simp add: chain_tables_def utxos_def)
  ultimately show "soOutPoint c \<in> utOutPoint ` set us" using assms(4,9,11) by (intro UTXOs_lists [of d2 pg1]) simp_all
  show "soOutPoint c \<in> utOutPoint ` set pending" using replace assms(5-7,9,10) by (rule MempoolUTXOs_lists)
qed

definition ex_stale :: s_mempool where
  "ex_stale = \<lparr>smTxs = [\<lparr>smTxid = ex_hash 41, smIndex = 0, smSizeBytes = 99, smRaw = []\<rparr>],
     smCreates = sbCreates ex_block1, smSpends = []\<rparr>"

lemma ex_stale_replace: "\<exists>d2. ReplaceMempool ex_pg 1000 ex_stale ex_db1 = (Inr (), d2) \<and> dbMempoolSpends d2 = []
    \<and> dbMempoolOutputs d2 = [\<lparr>orOutpoint = Key \<lparr>opKind = KindRegular, opSource = ex_hash 41, opVout = 0\<rparr>,
      orKind = KindRegular, orSource = ex_hash 41, orVout = 0, orAddress = replicate 20 7,
      orScripthash = ScriptHash (replicate 20 7), orValueSats = 30, orContent = JNull, orContentType = ''bitcoin''\<rparr>]"
  by (simp add: ReplaceMempool_def inTx_no_fault replace_tx_def replace_defs ex_stale_def ex_block1_def ex_output_def
      int32_of_def setMempoolFees_def mempool_fee_def sum_joined_def sum_values_def outputs_of_def to_bigint_def)

theorem stale_snapshot_counts_twice_witness:
  "\<exists>d2 us pending. ReplaceMempool ex_pg 1000 ex_stale (snd (Apply ex_pg ex_block1 ex_db0)) = (Inr (), d2)
     \<and> UTXOs ex_pg ColumnAddress (replicate 20 7) d2 = Inr us \<and> MempoolUTXOs ex_pg ColumnAddress (replicate 20 7) d2 = Inr pending
     \<and> (\<exists>p. p \<in> utOutPoint ` set us \<and> p \<in> utOutPoint ` set pending)"
proof -
  let ?c = "ex_output KindRegular (ex_hash 41) 30"
  obtain d2 where d2: "ReplaceMempool ex_pg 1000 ex_stale ex_db1 = (Inr (), d2)" "dbMempoolSpends d2 = []"
    "dbMempoolOutputs d2 = [\<lparr>orOutpoint = Key \<lparr>opKind = KindRegular, opSource = ex_hash 41, opVout = 0\<rparr>,
      orKind = KindRegular, orSource = ex_hash 41, orVout = 0, orAddress = replicate 20 7,
      orScripthash = ScriptHash (replicate 20 7), orValueSats = 30, orContent = JNull, orContentType = ''bitcoin''\<rparr>]"
    using ex_stale_replace by blast
  obtain us where us: "UTXOs ex_pg ColumnAddress (soAddress ?c) d2 = Inr us" by (simp add: UTXOs_def checkKeyColumn_def)
  obtain pending where pending: "MempoolUTXOs ex_pg ColumnAddress (soAddress ?c) d2 = Inr pending"
    by (simp add: MempoolUTXOs_def checkKeyColumn_def key_column_def d2(2,3) scan_mempool_utxo_def ex_output_def)
  have "Apply ex_pg ex_block1 ex_db0 = (Inr 0, ex_db1)" by (simp add: Apply_def inTx_no_fault apply_block1)
  moreover have "utxos ex_db1 (create_key ?c) = Some (soAddress ?c, 30)"
    by (simp add: utxos_def ex_db1_outputs coin_of_def ex_output_def)
  ultimately have "soOutPoint ?c \<in> utOutPoint ` set us \<and> soOutPoint ?c \<in> utOutPoint ` set pending"
    using stale_snapshot_counts_twice [OF ex_db0_wf _ d2(1) us pending, of ex_pg ex_block1 0 30]
    by (simp add: ex_stale_def ex_block1_def wf_out_point_def wf_hash_def ex_output_def)
  then have "\<exists>p. p \<in> utOutPoint ` set us \<and> p \<in> utOutPoint ` set pending" by (rule exI)
  moreover have "soAddress ?c = replicate 20 7" by (simp add: ex_output_def)
  ultimately show ?thesis using d2(1) us pending unfolding ex_db1_def [symmetric] by metis
qed

end
