(* ===== verification/Sync.thy ===== *)
theory Sync
  imports Action Mempool
begin

text \<open>
  The sync loop: \<open>internal/index/sync.go\<close>, \<open>mempool_sync.go\<close>, \<open>broadcast.go\<close> and
  \<open>withdrawals.go\<close>, over the node methods of \<open>internal/chain/node.go\<close>.

  The node, the mainchain enforcer, the clock and Postgres are not this program: what they answer is
  the argument \<open>env\<close>, which gives a moment for every call, so that a node that reorganizes, a
  database that loses a connection or a context that ends between two calls of one pass are all
  covered. A call reads the moment of the current tick and moves to the next one. The state is the
  database, the tick, and how often the code dropped the node connection.

  The mempool loop runs beside the sync loop on the same database. Every transaction of it that Postgres
  serializes between two calls is in the moment of the second, so a pass meets them in every possible order.
\<close>

record node =
  ndCount :: "u32 res"
  ndHashAt :: "u32 \<Rightarrow> hash option res"
  ndBlock :: "hash \<Rightarrow> block option res"
  ndIndex :: "hash \<Rightarrow> block_index res"
  ndMempool :: "mempool_tx list res"
  ndSubmit :: "raw_message \<Rightarrow> hash res"
  ndPending :: "raw_message res"
  ndLastFailed :: "u32 option res"

record moment =
  moNode :: node
  moGetNode :: "unit res"
  moGetStore :: "unit res"
  moPg :: pg
  moTime :: "bitcoin_hash \<Rightarrow> int res"
  moHeight :: "string \<Rightarrow> u32 option res"
  moNow :: int
  moCancelled :: bool
  moOthers :: "(pg \<times> int \<times> s_mempool) list"

type_synonym env = "nat \<Rightarrow> moment"

record syst =
  syDb :: db
  syClock :: nat
  syDrops :: nat

text \<open>
  The fields of a \<open>Syncer\<close> that do not change in a run: its decoder, whether it has a source of block times and one of mainchain
  heights. The two connections are part of the environment, and the hash function is that of the library.
\<close>

record config =
  cfDecoder :: decoder
  cfTimes :: bool
  cfHeights :: bool
  cfBlake3 :: "bytes \<Rightarrow> hash"

text \<open>A new syncer has no source of heights until the command gives it one.\<close>

definition NewSyncer :: "(bytes \<Rightarrow> hash) \<Rightarrow> decoder \<Rightarrow> bool \<Rightarrow> config" where
  "NewSyncer blake3 decoder withTimes = \<lparr>cfDecoder = decoder, cfTimes = withTimes, cfHeights = False, cfBlake3 = blake3\<rparr>"

definition tick :: "syst \<Rightarrow> syst" where
  "tick s = s\<lparr>syClock := Suc (syClock s)\<rparr>"

text \<open>One call to something outside the database.\<close>

definition ask :: "env \<Rightarrow> (moment \<Rightarrow> 'a res) \<Rightarrow> (syst, 'a) act" where
  "ask env f s = (f (env (syClock s)), tick s)"

text \<open>One call of the store that reads, and one that writes, after what the other loop did in the meantime.\<close>

definition meddle :: "moment \<Rightarrow> db \<Rightarrow> db" where
  "meddle m d = fold (\<lambda>(pg, now, pool) d. snd (ReplaceMempool pg now pool d)) (moOthers m) d"

definition meddled :: "env \<Rightarrow> syst \<Rightarrow> syst" where
  "meddled env s = s\<lparr>syDb := meddle (env (syClock s)) (syDb s)\<rparr>"

definition store_read :: "env \<Rightarrow> (pg \<Rightarrow> db \<Rightarrow> 'a res) \<Rightarrow> (syst, 'a) act" where
  "store_read env q s = (q (moPg (env (syClock s))) (syDb (meddled env s)), tick (meddled env s))"

definition store_write :: "env \<Rightarrow> (pg \<Rightarrow> db \<Rightarrow> 'a res \<times> db) \<Rightarrow> (syst, 'a) act" where
  "store_write env w s =
     (case w (moPg (env (syClock s))) (syDb (meddled env s)) of (r, d) \<Rightarrow> (r, tick (s\<lparr>syDb := d\<rparr>)))"

definition drop_node :: "(syst, unit) act" where
  "drop_node s = (Inr (), s\<lparr>syDrops := Suc (syDrops s)\<rparr>)"

text \<open>\<open>if ctx.Err() != nil { return ctx.Err() }\<close>.\<close>

definition check_ctx :: "env \<Rightarrow> (syst, unit) act" where
  "check_ctx env = ask env (\<lambda>m. if moCancelled m then Inl ErrCancelled else Inr ())"

subsection \<open>The node\<close>

definition TipHeight :: "node \<Rightarrow> u32 res" where
  "TipHeight nd = bindE (ndCount nd) (\<lambda>count. if count = 0 then Inl ErrEmptyChain else Inr (count - 1))"

definition BlockHashAt :: "env \<Rightarrow> u32 \<Rightarrow> (syst, hash option) act" where
  "BlockHashAt env height = ask env (\<lambda>m. ndHashAt (moNode m) height)"

definition GetBlock :: "env \<Rightarrow> hash \<Rightarrow> (syst, block option) act" where
  "GetBlock env hash = ask env (\<lambda>m. ndBlock (moNode m) hash)"

definition GetBlockIndex :: "env \<Rightarrow> hash \<Rightarrow> (syst, block_index) act" where
  "GetBlockIndex env hash = ask env (\<lambda>m. ndIndex (moNode m) hash)"

subsection \<open>One block\<close>

text \<open>A failed read of the mainchain height leaves it empty.\<close>

definition mainHeight :: "config \<Rightarrow> env \<Rightarrow> bitcoin_hash \<Rightarrow> (syst, u32 option) act" where
  "mainHeight cf env mainHash =
     (if \<not> cfHeights cf then retA None
      else ask env (\<lambda>m. case moHeight m (BitcoinHash_String mainHash) of Inl e \<Rightarrow> Inr None | Inr h \<Rightarrow> Inr h))"

definition blockTime :: "config \<Rightarrow> env \<Rightarrow> bitcoin_hash \<Rightarrow> (syst, int option) act" where
  "blockTime cf env mainHash =
     (if \<not> cfTimes cf then retA None
      else ask env (\<lambda>m. bindE (moTime m mainHash) (\<lambda>t. Inr (Some t))))"

definition applyHeight :: "config \<Rightarrow> env \<Rightarrow> u32 \<Rightarrow> (syst, bool) act" where
  "applyHeight cf env height =
     bindA (BlockHashAt env height) (\<lambda>found.
       case found of None \<Rightarrow> retA False
       | Some hash \<Rightarrow>
         bindA (GetBlock env hash) (\<lambda>blk.
           case blk of None \<Rightarrow> failA ErrNoHeader
           | Some block \<Rightarrow>
             bindA (GetBlockIndex env hash) (\<lambda>blockIndex.
             bindA (blockTime cf env (hPrevMainHash (bkHeader block))) (\<lambda>time.
             bindA (liftA (Prepare (cfBlake3 cf) height hash block blockIndex (cfDecoder cf) time)) (\<lambda>write.
             bindA (mainHeight cf env (hPrevMainHash (bkHeader block))) (\<lambda>main.
             bindA (store_write env (\<lambda>pg. Apply pg (write\<lparr>sbMainHeight := main\<rparr>))) (\<lambda>unknown.
               retA True)))))))"

subsection \<open>The fork\<close>

text \<open>
  The walk down of \<open>findFork\<close>, over the two lookups it compares: the highest height below \<open>n\<close>
  where both name the same hash.
\<close>

fun fork_scan :: "(u32 \<Rightarrow> ('s, hash option) act) \<Rightarrow> (u32 \<Rightarrow> ('s, hash option) act) \<Rightarrow> nat \<Rightarrow> ('s, u32 option) act" where
  "fork_scan ours theirs 0 = retA None"
| "fork_scan ours theirs (Suc n) =
     bindA (ours (of_nat n)) (\<lambda>mine.
       case mine of None \<Rightarrow> fork_scan ours theirs n
       | Some hash \<Rightarrow>
         bindA (theirs (of_nat n)) (\<lambda>other.
           if other = Some hash then retA (Some (of_nat n)) else fork_scan ours theirs n))"

definition store_HashAt :: "env \<Rightarrow> u32 \<Rightarrow> (syst, hash option) act" where
  "store_HashAt env height = store_read env (\<lambda>pg. HashAt pg height)"

definition store_Rollback :: "env \<Rightarrow> u32 \<Rightarrow> (syst, unit) act" where
  "store_Rollback env height = store_write env (\<lambda>pg. Rollback pg height)"

definition findFork :: "env \<Rightarrow> u32 \<Rightarrow> (syst, u32) act" where
  "findFork env from' =
     bindA (fork_scan (store_HashAt env) (BlockHashAt env) (unat from')) (\<lambda>found.
       case found of Some height \<Rightarrow> retA height
       | None \<Rightarrow> bindA (store_Rollback env 0) (\<lambda>_. retA 0))"

definition resolveStart :: "env \<Rightarrow> (syst, u32) act" where
  "resolveStart env =
     bindA (store_read env Tip) (\<lambda>tip.
       case tip of None \<Rightarrow> retA 0
       | Some (height, tipHash) \<Rightarrow>
         bindA (BlockHashAt env height) (\<lambda>nodeHash.
           if nodeHash = Some tipHash then retA (height + 1)
           else bindA (findFork env height) (\<lambda>fork.
                bindA (store_Rollback env fork) (\<lambda>_. retA (fork + 1)))))"

subsection \<open>One pass\<close>

abbreviation backfillHeightsPerPass :: int where "backfillHeightsPerPass \<equiv> 20"

definition backfillMainHeights :: "config \<Rightarrow> env \<Rightarrow> (syst, unit) act" where
  "backfillMainHeights cf env =
     (if \<not> cfHeights cf then retA ()
      else bindA (store_read env (\<lambda>pg. BlocksMissingMainHeight pg backfillHeightsPerPass)) (\<lambda>blocks.
        eachA (\<lambda>b. bindA (mainHeight cf env (bwMainHash b)) (\<lambda>height.
            case height of None \<Rightarrow> retA ()
            | Some h \<Rightarrow> bindA (store_write env (\<lambda>pg. SetMainHeight pg (bwHeight b) h)) (\<lambda>_. check_ctx env))) blocks))"

text \<open>
  \<open>for height := next; height <= nodeTip; height++\<close>. The node tip is at most \<open>2 ^ 32 - 2\<close>, so the
  counter reaches it without wrapping around.
\<close>

definition heights :: "u32 \<Rightarrow> u32 \<Rightarrow> u32 list" where
  "heights next nodeTip = map of_nat [unat next ..< Suc (unat nodeTip)]"

definition applyHeights :: "config \<Rightarrow> env \<Rightarrow> u32 list \<Rightarrow> (syst, bool) act" where
  "applyHeights cf env = whileA (\<lambda>height. bindA (applyHeight cf env height) (\<lambda>applied.
     if applied then bindA (check_ctx env) (\<lambda>_. retA True) else retA False))"

text \<open>\<open>errors.Is(err, chain.ErrEmptyChain)\<close> ends the pass; any other error drops the node.\<close>

definition read_tip :: "env \<Rightarrow> (syst, u32 option) act" where
  "read_tip env s =
     (case ask env (\<lambda>m. TipHeight (moNode m)) s of
        (Inr tip, t) \<Rightarrow> (Inr (Some tip), t)
      | (Inl ErrEmptyChain, t) \<Rightarrow> (Inr None, t)
      | (Inl e, t) \<Rightarrow> bindA drop_node (\<lambda>_. failA e) t)"

definition Once :: "config \<Rightarrow> env \<Rightarrow> (syst, unit) act" where
  "Once cf env =
     bindA (ask env moGetNode) (\<lambda>_.
     bindA (ask env moGetStore) (\<lambda>_.
     bindA (read_tip env) (\<lambda>tip.
       case tip of None \<Rightarrow> retA ()
       | Some nodeTip \<Rightarrow>
         bindA (resolveStart env) (\<lambda>next.
         bindA (applyHeights cf env (heights next nodeTip)) (\<lambda>done.
           if done then backfillMainHeights cf env else retA ())))))"

subsection \<open>The mempool pass, broadcasts and withdrawals\<close>

text \<open>A failed call drops the node connection and returns the error.\<close>

definition ask_or_drop :: "env \<Rightarrow> (moment \<Rightarrow> 'a res) \<Rightarrow> (syst, 'a) act" where
  "ask_or_drop env f s =
     (case ask env f s of (Inr x, t) \<Rightarrow> (Inr x, t) | (Inl e, t) \<Rightarrow> bindA drop_node (\<lambda>_. failA e) t)"

definition MempoolOnce :: "config \<Rightarrow> env \<Rightarrow> (syst, unit) act" where
  "MempoolOnce cf env =
     bindA (ask env moGetNode) (\<lambda>_.
     bindA (ask env moGetStore) (\<lambda>_.
     bindA (ask_or_drop env (\<lambda>m. ndMempool (moNode m))) (\<lambda>txs.
     bindA (liftA (PrepareMempool txs (cfDecoder cf))) (\<lambda>pool.
     bindA (ask env (\<lambda>m. Inr (moNow m))) (\<lambda>now.
       store_write env (\<lambda>pg. ReplaceMempool pg now pool))))))"

definition Broadcast :: "env \<Rightarrow> raw_message \<Rightarrow> (syst, hash) act" where
  "Broadcast env tx = bindA (ask env moGetNode) (\<lambda>_. ask_or_drop env (\<lambda>m. ndSubmit (moNode m) tx))"

definition Pending :: "env \<Rightarrow> (syst, raw_message) act" where
  "Pending env = bindA (ask env moGetNode) (\<lambda>_. ask_or_drop env (\<lambda>m. ndPending (moNode m)))"

definition LastFailedHeight :: "env \<Rightarrow> (syst, u32 option) act" where
  "LastFailedHeight env = bindA (ask env moGetNode) (\<lambda>_. ask_or_drop env (\<lambda>m. ndLastFailed (moNode m)))"

end
