(* ===== verification/Sync_Inv.thy ===== *)
theory Sync_Inv
  imports Sync
begin

text \<open>
  What every call of the sync loop keeps. \<open>chain_index\<close> is the interface the loop relies on: an index
  with a chain of hashes, a lookup by height and a rollback to a height it holds. The walk to the fork is
  proved once for every such index and the store interprets it. On top of it are the contracts of one
  block, of the loop over the heights, of the start of a pass and of a whole pass, each for every answer
  of the node, Postgres and the enforcer.
\<close>

definition agree :: "hash list \<Rightarrow> hash list \<Rightarrow> nat \<Rightarrow> bool" where
  "agree c c' i \<longleftrightarrow> i < length c \<and> i < length c' \<and> c ! i = c' ! i"

definition lookup_hash :: "hash list \<Rightarrow> u32 \<Rightarrow> hash option" where
  "lookup_hash c h = (if unat h < length c then Some (c ! unat h) else None)"

lemma unat_of_nat_small: "n < 2 ^ 32 \<Longrightarrow> unat (of_nat n :: u32) = n"
  by (simp add: unat_of_nat)

lemma unat_plus_one: "unat w < 2 ^ 32 - 1 \<Longrightarrow> unat (w + 1 :: u32) = Suc (unat w)"
  by (simp add: unat_word_ariths)

locale chain_index =
  fixes inv :: "'s \<Rightarrow> bool" and chain :: "'s \<Rightarrow> hash list"
    and hash_at :: "u32 \<Rightarrow> ('s, hash option) act" and rollback :: "u32 \<Rightarrow> ('s, unit) act"
  assumes bounded: "inv s \<Longrightarrow> length (chain s) \<le> 2 ^ 31"
    and hash_at: "unat h < 2 ^ 31 \<Longrightarrow> triple (\<lambda>s. inv s \<and> chain s = c) (hash_at h)
        (\<lambda>r s. (inv s \<and> chain s = c) \<and> r = lookup_hash c h) inv"
    and rollback: "unat h < length c \<Longrightarrow> triple (\<lambda>s. inv s \<and> chain s = c) (rollback h)
        (\<lambda>_ s. inv s \<and> chain s = take (Suc (unat h)) c) inv"
begin

text \<open>Whatever the other side answers, the fork is below the start and inside the chain.\<close>

lemma fork_scan_below:
  assumes "n \<le> 2 ^ 31"
    and "\<And>h. triple (\<lambda>s. inv s \<and> chain s = c) (theirs h) (\<lambda>_ s. inv s \<and> chain s = c) inv"
  shows "triple (\<lambda>s. inv s \<and> chain s = c) (fork_scan hash_at theirs n)
    (\<lambda>r s. (inv s \<and> chain s = c) \<and> (\<forall>h. r = Some h \<longrightarrow> unat h < n \<and> unat h < length c)) inv"
  using assms(1)
proof (induction n)
  case 0
  show ?case by (auto intro: triple_ret)
next
  case (Suc n)
  have n: "unat (of_nat n :: u32) = n" using Suc.prems by (intro unat_of_nat_small) simp
  have rest: "triple (\<lambda>s. inv s \<and> chain s = c) (fork_scan hash_at theirs n)
      (\<lambda>r s. (inv s \<and> chain s = c) \<and> (\<forall>h. r = Some h \<longrightarrow> unat h < Suc n \<and> unat h < length c)) inv"
    by (rule triple_conseq [OF Suc.IH]) (use Suc.prems in auto)
  show ?case
    unfolding fork_scan.simps
  proof (rule triple_bind [OF hash_at])
    show "unat (of_nat n :: u32) < 2 ^ 31" using Suc.prems n by simp
    fix mine
    show "triple (\<lambda>s. (inv s \<and> chain s = c) \<and> mine = lookup_hash c (of_nat n))
        (case mine of None \<Rightarrow> fork_scan hash_at theirs n
         | Some hash \<Rightarrow> bindA (theirs (of_nat n)) (\<lambda>other. if other = Some hash then retA (Some (of_nat n)) else fork_scan hash_at theirs n))
        (\<lambda>r s. (inv s \<and> chain s = c) \<and> (\<forall>h. r = Some h \<longrightarrow> unat h < Suc n \<and> unat h < length c)) inv"
    proof (rule triple_if)
      assume mine: "mine = lookup_hash c (of_nat n)"
      show "triple (\<lambda>s. inv s \<and> chain s = c)
        (case mine of None \<Rightarrow> fork_scan hash_at theirs n
         | Some hash \<Rightarrow> bindA (theirs (of_nat n)) (\<lambda>other. if other = Some hash then retA (Some (of_nat n)) else fork_scan hash_at theirs n))
        (\<lambda>r s. (inv s \<and> chain s = c) \<and> (\<forall>h. r = Some h \<longrightarrow> unat h < Suc n \<and> unat h < length c)) inv"
      proof (cases mine)
        case (Some hash)
        then have "n < length c" using mine by (auto simp: lookup_hash_def n split: if_splits)
        then have "triple (\<lambda>s. inv s \<and> chain s = c) (if other = Some hash then retA (Some (of_nat n)) else fork_scan hash_at theirs n)
            (\<lambda>r s. (inv s \<and> chain s = c) \<and> (\<forall>h. r = Some h \<longrightarrow> unat h < Suc n \<and> unat h < length c)) inv" for other
          using rest by (auto simp: n intro: triple_ret)
        then show ?thesis unfolding Some option.case by (rule triple_bind [OF assms(2)])
      next
        case None
        then show ?thesis using rest by simp
      qed
    qed
  qed
qed

text \<open>Against a chain that stands still, the fork is the highest common height below the start.\<close>

lemma fork_scan_highest:
  assumes "n \<le> 2 ^ 31"
    and theirs: "\<And>h. triple (\<lambda>s. inv s \<and> chain s = c) (theirs h)
        (\<lambda>r s. (inv s \<and> chain s = c) \<and> r = lookup_hash c' h) inv"
  shows "triple (\<lambda>s. inv s \<and> chain s = c) (fork_scan hash_at theirs n)
    (\<lambda>r s. (inv s \<and> chain s = c) \<and> (case r of
        Some h \<Rightarrow> unat h < n \<and> agree c c' (unat h) \<and> (\<forall>i < n. unat h < i \<longrightarrow> \<not> agree c c' i)
      | None \<Rightarrow> \<forall>i < n. \<not> agree c c' i)) inv"
  using assms(1)
proof (induction n)
  case 0
  show ?case by (auto intro: triple_ret)
next
  case (Suc n)
  let ?Q = "\<lambda>n r s. (inv s \<and> chain s = c) \<and> (case r of
        Some h \<Rightarrow> unat h < n \<and> agree c c' (unat h) \<and> (\<forall>i < n. unat h < i \<longrightarrow> \<not> agree c c' i)
      | None \<Rightarrow> \<forall>i < n. \<not> agree c c' i)"
  have n: "unat (of_nat n :: u32) = n" using Suc.prems by (intro unat_of_nat_small) simp
  have rest: "triple (\<lambda>s. inv s \<and> chain s = c) (fork_scan hash_at theirs n) (?Q (Suc n)) inv" if "\<not> agree c c' n"
    by (rule triple_conseq [OF Suc.IH]) (use Suc.prems that in \<open>auto split: option.splits simp: less_Suc_eq\<close>)
  show ?case
    unfolding fork_scan.simps
  proof (rule triple_bind [OF hash_at])
    show "unat (of_nat n :: u32) < 2 ^ 31" using Suc.prems n by simp
    fix mine
    show "triple (\<lambda>s. (inv s \<and> chain s = c) \<and> mine = lookup_hash c (of_nat n))
        (case mine of None \<Rightarrow> fork_scan hash_at theirs n
         | Some hash \<Rightarrow> bindA (theirs (of_nat n)) (\<lambda>other. if other = Some hash then retA (Some (of_nat n)) else fork_scan hash_at theirs n))
        (?Q (Suc n)) inv"
    proof (rule triple_if)
      assume mine: "mine = lookup_hash c (of_nat n)"
      show "triple (\<lambda>s. inv s \<and> chain s = c)
        (case mine of None \<Rightarrow> fork_scan hash_at theirs n
         | Some hash \<Rightarrow> bindA (theirs (of_nat n)) (\<lambda>other. if other = Some hash then retA (Some (of_nat n)) else fork_scan hash_at theirs n))
        (?Q (Suc n)) inv"
      proof (cases mine)
        case None
        then have "\<not> agree c c' n" using mine by (auto simp: agree_def lookup_hash_def n split: if_splits)
        then show ?thesis using rest None by simp
      next
        case (Some hash)
        then have hash: "n < length c" "hash = c ! n" using mine by (auto simp: lookup_hash_def n split: if_splits)
        show ?thesis unfolding Some option.case
        proof (rule triple_bind [OF theirs], rule triple_if)
          fix other assume other: "other = lookup_hash c' (of_nat n)"
          have "other = Some hash \<longleftrightarrow> agree c c' n"
            using hash by (auto simp: other agree_def lookup_hash_def n split: if_splits)
          then show "triple (\<lambda>s. inv s \<and> chain s = c)
              (if other = Some hash then retA (Some (of_nat n)) else fork_scan hash_at theirs n) (?Q (Suc n)) inv"
            using rest by (auto simp: n intro: triple_ret)
        qed
      qed
    qed
  qed
qed

end

subsection \<open>The store as a chain index\<close>

definition good :: "syst \<Rightarrow> bool" where
  "good s \<longleftrightarrow> wf_db (syDb s) \<and> level (syDb s) \<and> length (dbBlocks (syDb s)) \<le> 2 ^ 31"

abbreviation chain_of :: "syst \<Rightarrow> hash list" where
  "chain_of s \<equiv> hashes (syDb s)"

lemma tick_simps [simp]: "syDb (tick s) = syDb s" "good (tick s) = good s"
  by (simp_all add: tick_def good_def)

lemma chain_tables_good:
  assumes "good s" and "wf_db d" and "chain_tables d = chain_tables (syDb s)"
  shows "good (s\<lparr>syDb := d\<rparr>) \<and> hashes d = chain_of s"
proof -
  have same: "dbBlocks d = dbBlocks (syDb s)" "dbSync d = dbSync (syDb s)" using assms(3) by (simp_all add: chain_tables_def)
  then have "level d = level (syDb s)" by (simp only: level_def)
  then show ?thesis using assms(1,2) same by (simp add: good_def hashes_def)
qed

lemma ReplaceMempool_chain: "chain_tables (snd (ReplaceMempool pg now pool d)) = chain_tables d"
proof -
  obtain r d' where d: "ReplaceMempool pg now pool d = (r, d')" by fastforce
  from d [unfolded ReplaceMempool_def] have "chain_tables d' = chain_tables d"
    by (cases rule: inTx_cases) (auto elim: replace_tx_Inr)
  then show ?thesis using d by simp
qed

lemma ReplaceMempool_good:
  assumes "good s" and "ReplaceMempool pg now pool (syDb s) = (r, d)"
  shows "good (s\<lparr>syDb := d\<rparr>) \<and> hashes d = chain_of s"
proof (rule chain_tables_good [OF assms(1)])
  have "wf_db (syDb s)" using assms(1) by (simp add: good_def)
  from wf_db_ReplaceMempool [OF this, of pg now pool] show "wf_db d" using assms(2) by simp
  from ReplaceMempool_chain [of pg now pool "syDb s"] show "chain_tables d = chain_tables (syDb s)" using assms(2) by simp
qed

text \<open>What the other loop does is invisible to this one.\<close>

lemma meddled_good: "good s \<Longrightarrow> good (meddled env s)" and chain_of_meddled [simp]: "chain_of (meddled env s) = chain_of s"
proof -
  have "good (s\<lparr>syDb := fold (\<lambda>(pg, now, pool) d. snd (ReplaceMempool pg now pool d)) rs (syDb s)\<rparr>)" if "good s" for rs s
    using that
  proof (induction rs arbitrary: s)
    case (Cons r rs)
    obtain pg now pool where r: "r = (pg, now, pool)" by (cases r)
    obtain u d where d: "ReplaceMempool pg now pool (syDb s) = (u, d)" by fastforce
    show ?case using Cons.IH [of "s\<lparr>syDb := d\<rparr>"] ReplaceMempool_good [OF Cons.prems d] by (simp add: r d)
  qed simp
  then show "good s \<Longrightarrow> good (meddled env s)" by (simp add: meddled_def meddle_def)
  have "hashes (fold (\<lambda>(pg, now, pool) d. snd (ReplaceMempool pg now pool d)) rs d) = hashes d" for rs d
  proof (induction rs arbitrary: d)
    case (Cons r rs)
    obtain pg now pool where r: "r = (pg, now, pool)" by (cases r)
    have "hashes (snd (ReplaceMempool pg now pool d)) = hashes d"
      using ReplaceMempool_chain [of pg now pool d] by (simp add: chain_tables_def hashes_def)
    then show ?case using Cons.IH by (simp add: r)
  qed simp
  then show "chain_of (meddled env s) = chain_of s" by (simp add: meddled_def meddle_def)
qed

lemma good_drop [simp]: "good (s\<lparr>syDrops := n\<rparr>) = good s"
  by (simp add: good_def)

text \<open>
  What is assumed of the node at every moment: it counts at most \<open>2 ^ 31\<close> blocks, which the height
  column can hold, and a hash has 32 bytes.
\<close>

definition wf_env :: "env \<Rightarrow> bool" where
  "wf_env env \<longleftrightarrow> (\<forall>t. (\<forall>c. ndCount (moNode (env t)) = Inr c \<longrightarrow> unat c \<le> 2 ^ 31)
     \<and> (\<forall>h x. ndHashAt (moNode (env t)) h = Inr (Some x) \<longrightarrow> wf_hash x))"

definition node_says :: "env \<Rightarrow> u32 \<Rightarrow> hash option \<Rightarrow> bool" where
  "node_says env h r \<longleftrightarrow> (\<exists>t. ndHashAt (moNode (env t)) h = Inr r)"

text \<open>
  Where the blocks of a chain come from: each was at its height in \<open>c0\<close>, or the node named it for that
  height. A pass that starts on \<open>c0\<close> keeps the index well-formed, level and derived from \<open>c0\<close>.
\<close>

definition derived :: "env \<Rightarrow> hash list \<Rightarrow> hash list \<Rightarrow> bool" where
  "derived env c0 c \<longleftrightarrow> (\<forall>j < length c. agree c c0 j \<or> node_says env (of_nat j) (Some (c ! j)))"

definition traced :: "env \<Rightarrow> hash list \<Rightarrow> syst \<Rightarrow> bool" where
  "traced env c0 s \<longleftrightarrow> good s \<and> derived env c0 (chain_of s)"

abbreviation on_chain :: "env \<Rightarrow> hash list \<Rightarrow> hash list \<Rightarrow> syst \<Rightarrow> bool" where
  "on_chain env c0 c s \<equiv> traced env c0 s \<and> chain_of s = c"

lemma derived_refl [simp]: "derived env c c"
  by (simp add: derived_def agree_def)

lemma derived_take: "derived env c0 c \<Longrightarrow> derived env c0 (take n c)"
  by (auto simp: derived_def agree_def)

lemma derived_snoc:
  assumes "derived env c0 c" and "node_says env (of_nat (length c)) (Some x)"
  shows "derived env c0 (c @ [x])"
  using assms by (auto simp: derived_def agree_def nth_append less_Suc_eq)

lemma traced_good: "traced env c0 s \<Longrightarrow> good s"
  by (simp add: traced_def)

lemma traced_same: "traced env c0 (s\<lparr>syDb := syDb s\<rparr>) = traced env c0 s"
  by simp

lemma traced_tick [simp]: "traced env c0 (tick s) = traced env c0 s"
  by (simp add: traced_def)

lemma traced_meddled: "traced env c0 s \<Longrightarrow> traced env c0 (meddled env' s)"
  by (simp add: traced_def meddled_good)

lemma triple_ask:
  assumes "\<And>s. P s \<Longrightarrow> P (tick s)" and "\<And>s. P s \<Longrightarrow> E (tick s)"
  shows "triple P (ask env f) (\<lambda>r s. P s \<and> (\<exists>t. f (env t) = Inr r)) E"
  using assms by (intro tripleI) (auto simp: ask_def)

lemma triple_read:
  "triple (on_chain env c0 c) (store_read env q)
     (\<lambda>r s. (traced env c0 s \<and> chain_of s = c) \<and> (\<exists>pg. q pg (syDb s) = Inr r)) (traced env c0)"
  by (intro tripleI) (auto simp: store_read_def traced_meddled)

lemma store_HashAt_triple:
  assumes "unat h < 2 ^ 31"
  shows "triple (on_chain env c0 c) (store_HashAt env h)
     (\<lambda>r s. (traced env c0 s \<and> chain_of s = c) \<and> r = lookup_hash c h) (traced env c0)"
proof (rule triple_conseq [OF triple_read [of env c0 c "\<lambda>pg. HashAt pg h", folded store_HashAt_def]])
  fix r s assume "(traced env c0 s \<and> chain_of s = c) \<and> (\<exists>pg. HashAt pg h (syDb s) = Inr r)"
  then show "(traced env c0 s \<and> chain_of s = c) \<and> r = lookup_hash c h"
    using HashAt_level [OF _ assms] by (auto simp: traced_def good_def exec_eq_Inr lookup_hash_def)
qed simp_all

lemma store_write_triple:
  assumes "\<And>pg s r d. P s \<Longrightarrow> w pg (syDb s) = (Inr r, d) \<Longrightarrow> Q r (tick (s\<lparr>syDb := d\<rparr>))"
    and "\<And>pg s e d. P s \<Longrightarrow> w pg (syDb s) = (Inl e, d) \<Longrightarrow> E (tick (s\<lparr>syDb := d\<rparr>))"
    and stable: "\<And>s. P s \<Longrightarrow> P (meddled env s)"
  shows "triple P (store_write env w) Q E"
proof (rule tripleI)
  fix s r s' assume P: "P s" and w: "store_write env w s = (Inr r, s')"
  obtain d where d: "w (moPg (env (syClock s))) (syDb (meddled env s)) = (Inr r, d)" "s' = tick (meddled env s\<lparr>syDb := d\<rparr>)"
    using w by (auto simp: store_write_def meddled_def split: prod.splits)
  show "Q r s'" unfolding d(2) by (rule assms(1) [OF stable [OF P] d(1)])
next
  fix s e s' assume P: "P s" and w: "store_write env w s = (Inl e, s')"
  obtain d where d: "w (moPg (env (syClock s))) (syDb (meddled env s)) = (Inl e, d)" "s' = tick (meddled env s\<lparr>syDb := d\<rparr>)"
    using w by (auto simp: store_write_def meddled_def split: prod.splits)
  show "E s'" unfolding d(2) by (rule assms(2) [OF stable [OF P] d(1)])
qed

lemma rolled_back_traced:
  assumes "on_chain env c0 c s" and "i < length c"
  shows "on_chain env c0 (take (Suc i) c) (s\<lparr>syDb := rolled_back (int i) (syDb s)\<rparr>)"
proof -
  have i: "i < length (dbBlocks (syDb s))" using assms by (auto simp: hashes_def)
  have "length (dbBlocks (rolled_back (int i) (syDb s))) \<le> length (dbBlocks (syDb s))"
    by (simp add: rolled_back_tables)
  then show ?thesis
    using assms(1) level_rolled_back [OF _ i] derived_take [of env c0 c]
    by (auto simp: traced_def good_def wf_db_rolled_back)
qed

lemma store_Rollback_triple:
  assumes "unat h < length c" and "length c \<le> 2 ^ 31"
  shows "triple (on_chain env c0 c) (store_Rollback env h) (\<lambda>_. on_chain env c0 (take (Suc (unat h)) c)) (traced env c0)"
  unfolding store_Rollback_def
proof (rule store_write_triple)
  have h: "int32_of_u32 h = int (unat h)" using assms by (intro int32_of_u32_small) simp
  {
    fix pg s r d assume s: "on_chain env c0 c s" and "Rollback pg h (syDb s) = (Inr r, d)"
    then have "d = rolled_back (int (unat h)) (syDb s)"
      using rollback_tx_Inr unfolding Rollback_def h [symmetric] by (blast dest: inTx_eq_Inr)
    then show "on_chain env c0 (take (Suc (unat h)) c) (tick (s\<lparr>syDb := d\<rparr>))"
      using rolled_back_traced [OF s assms(1)] by (simp only: traced_tick tick_simps)
  next
    fix pg s e d assume s: "on_chain env c0 c s" and "Rollback pg h (syDb s) = (Inl e, d)"
    then have "d = syDb s \<or> d = rolled_back (int (unat h)) (syDb s)"
      unfolding Rollback_def h [symmetric] by (auto elim!: inTx_cases dest: rollback_tx_Inr)
    then show "traced env c0 (tick (s\<lparr>syDb := d\<rparr>))"
      using rolled_back_traced [OF s assms(1)] s by (elim disjE) (simp_all only: traced_tick tick_simps traced_same)
  }
qed (simp add: traced_meddled)

lemma good_bounded: "good s \<Longrightarrow> length (chain_of s) \<le> 2 ^ 31"
  by (simp add: good_def hashes_def)

lemma traced_bounded: "traced env c0 s \<Longrightarrow> length (chain_of s) \<le> 2 ^ 31"
  by (auto simp: traced_def dest: good_bounded)

interpretation sync_index: chain_index "traced env c0" chain_of "store_HashAt env" "store_Rollback env" for env c0
proof
  fix h :: u32 and c :: "hash list"
  assume "unat h < length c"
  then show "triple (on_chain env c0 c) (store_Rollback env h) (\<lambda>_ s. traced env c0 s \<and> chain_of s = take (Suc (unat h)) c) (traced env c0)"
    using store_Rollback_triple [of h c env c0] traced_bounded by (cases "length c \<le> 2 ^ 31") (auto simp: triple_def)
qed (use traced_bounded store_HashAt_triple in auto)

subsection \<open>One block\<close>

lemma triple_ask_chain:
  "triple (on_chain env c0 c) (ask env f) (\<lambda>r s. on_chain env c0 c s \<and> (\<exists>t. f (env t) = Inr r)) (traced env c0)"
  by (rule triple_ask) auto

lemma triple_ask_keep: "triple (on_chain env c0 c) (ask env f) (\<lambda>r s. on_chain env c0 c s) (traced env c0)"
  by (rule triple_conseq [OF triple_ask_chain]) auto

lemma BlockHashAt_triple:
  "triple (on_chain env c0 c) (BlockHashAt env h) (\<lambda>r s. on_chain env c0 c s \<and> node_says env h r) (traced env c0)"
  unfolding BlockHashAt_def node_says_def by (rule triple_ask_chain)

lemma BlockHashAt_keep: "triple (on_chain env c0 c) (BlockHashAt env h) (\<lambda>_. on_chain env c0 c) (traced env c0)"
  unfolding BlockHashAt_def by (rule triple_ask_keep)

lemma mainHeight_triple: "triple (on_chain env c0 c) (mainHeight cf env x) (\<lambda>r s. on_chain env c0 c s) (traced env c0)"
  unfolding mainHeight_def by (auto intro: triple_ask_keep triple_ret)

lemma blockTime_triple: "triple (on_chain env c0 c) (blockTime cf env x) (\<lambda>r s. on_chain env c0 c s) (traced env c0)"
  unfolding blockTime_def by (auto intro: triple_ask_keep triple_ret)

lemma apply_tx_traced:
  assumes "apply_tx pg w (syDb s) = Inr (u, d)" and "on_chain env c0 c s"
    and "unat (sbHeight w) = length c" and "length c < 2 ^ 31" and "wf_hash (sbHash w)"
    and named: "node_says env (sbHeight w) (Some (sbHash w))"
  shows "on_chain env c0 (c @ [sbHash w]) (s\<lparr>syDb := d\<rparr>)"
proof -
  have len: "unat (sbHeight w) = length (dbBlocks (syDb s))" "length c = length (dbBlocks (syDb s))"
    using assms(2,3) by (auto simp: hashes_def)
  have l: "level d" "hashes d = hashes (syDb s) @ [sbHash w]"
    using level_apply_tx [OF assms(1) _ len(1) _ assms(5)] assms(2,3,4) by (auto simp: traced_def good_def)
  have "length (hashes d) \<le> 2 ^ 31" using l(2) assms(2,4) by simp
  then have "good (s\<lparr>syDb := d\<rparr>)"
    using l assms(2) wf_db_apply_tx [OF assms(1)] by (auto simp: traced_def good_def hashes_def)
  moreover have "derived env c0 (c @ [sbHash w])"
  proof (rule derived_snoc)
    have "sbHeight w = of_nat (length c)" by (simp flip: assms(3))
    then show "node_says env (of_nat (length c)) (Some (sbHash w))" using named by simp
  qed (use assms(2) in \<open>auto simp: traced_def\<close>)
  ultimately show ?thesis using l(2) assms(2) by (auto simp: traced_def)
qed

lemma Apply_triple:
  assumes "unat (sbHeight w) = length c" and "length c < 2 ^ 31" and "wf_hash (sbHash w)"
    and named: "node_says env (sbHeight w) (Some (sbHash w))"
  shows "triple (on_chain env c0 c) (store_write env (\<lambda>pg. Apply pg w)) (\<lambda>_ s. on_chain env c0 (c @ [sbHash w]) s) (traced env c0)"
proof (rule store_write_triple)
  fix pg s u d assume s: "on_chain env c0 c s" and "Apply pg w (syDb s) = (Inr u, d)"
  then have "apply_tx pg w (syDb s) = Inr (u, d)" unfolding Apply_def by (blast dest: inTx_eq_Inr)
  from apply_tx_traced [OF this s assms] show "on_chain env c0 (c @ [sbHash w]) (tick (s\<lparr>syDb := d\<rparr>))" by simp
next
  fix pg s e d assume s: "on_chain env c0 c s" and "Apply pg w (syDb s) = (Inl e, d)"
  then show "traced env c0 (tick (s\<lparr>syDb := d\<rparr>))"
    unfolding Apply_def using apply_tx_traced [OF _ s assms] by (auto elim!: inTx_cases)
qed (simp add: traced_meddled)

lemma Prepare_head:
  assumes "Prepare b3 h x blk bi dec bt = Inr w"
  shows "sbHeight w = h" and "sbHash w = x"
  using assms by (auto elim: Prepare_Inr)

text \<open>After one block the index holds it, under a hash the node named for that height.\<close>

definition applied_post :: "env \<Rightarrow> hash list \<Rightarrow> hash list \<Rightarrow> u32 \<Rightarrow> bool \<Rightarrow> syst \<Rightarrow> bool" where
  "applied_post env c0 c h r s \<longleftrightarrow>
     (if r then \<exists>x. node_says env h (Some x) \<and> on_chain env c0 (c @ [x]) s else on_chain env c0 c s \<and> node_says env h None)"

lemma applyHeight_triple:
  assumes env: "wf_env env" and h: "unat h = length c" "length c < 2 ^ 31"
  shows "triple (on_chain env c0 c) (applyHeight cf env h) (applied_post env c0 c h) (traced env c0)"
  unfolding applyHeight_def
proof (rule triple_bind [OF BlockHashAt_triple], rule triple_if)
  fix found assume found: "node_says env h found"
  show "triple (on_chain env c0 c) (case found of None \<Rightarrow> retA False
       | Some hash \<Rightarrow>
         bindA (GetBlock env hash) (\<lambda>blk.
           case blk of None \<Rightarrow> failA ErrNoHeader
           | Some block \<Rightarrow>
             bindA (GetBlockIndex env hash) (\<lambda>blockIndex.
             bindA (blockTime cf env (hPrevMainHash (bkHeader block))) (\<lambda>time.
             bindA (liftA (Prepare (cfBlake3 cf) h hash block blockIndex (cfDecoder cf) time)) (\<lambda>write.
             bindA (mainHeight cf env (hPrevMainHash (bkHeader block))) (\<lambda>main.
             bindA (store_write env (\<lambda>pg. Apply pg (write\<lparr>sbMainHeight := main\<rparr>))) (\<lambda>unknown.
               retA True))))))) (applied_post env c0 c h) (traced env c0)"
  proof (cases found)
    case None
    then show ?thesis using found by (auto simp: applied_post_def intro: triple_ret)
  next
    case (Some x)
    have x: "wf_hash x" using env found Some by (auto simp: wf_env_def node_says_def)
    have written: "triple (on_chain env c0 c) (bindA (liftA (Prepare (cfBlake3 cf) h x blk bi (cfDecoder cf) bt)) (\<lambda>write.
             bindA (mainHeight cf env m) (\<lambda>main.
             bindA (store_write env (\<lambda>pg. Apply pg (write\<lparr>sbMainHeight := main\<rparr>))) (\<lambda>unknown.
               retA True)))) (applied_post env c0 c h) (traced env c0)" for blk bi bt m
    proof (rule triple_bind [OF triple_lift, where R = "\<lambda>w s. on_chain env c0 c s \<and> sbHeight w = h \<and> sbHash w = x"])
      fix w
      show "triple (\<lambda>s. on_chain env c0 c s \<and> sbHeight w = h \<and> sbHash w = x) (bindA (mainHeight cf env m) (\<lambda>main.
             bindA (store_write env (\<lambda>pg. Apply pg (w\<lparr>sbMainHeight := main\<rparr>))) (\<lambda>unknown. retA True))) (applied_post env c0 c h) (traced env c0)"
      proof (rule triple_if, rule triple_bind [OF mainHeight_triple])
        fix main assume w: "sbHeight w = h \<and> sbHash w = x"
        have "triple (on_chain env c0 c) (store_write env (\<lambda>pg. Apply pg (w\<lparr>sbMainHeight := main\<rparr>))) (\<lambda>_. on_chain env c0 (c @ [x])) (traced env c0)"
          using Apply_triple [of "w\<lparr>sbMainHeight := main\<rparr>" c env c0] w h x found Some by simp
        then show "triple (on_chain env c0 c) (bindA (store_write env (\<lambda>pg. Apply pg (w\<lparr>sbMainHeight := main\<rparr>))) (\<lambda>unknown. retA True)) (applied_post env c0 c h) (traced env c0)"
          by (rule triple_bind) (use found Some in \<open>auto simp: applied_post_def intro: triple_ret\<close>)
      qed
    qed (auto dest: Prepare_head)
    show ?thesis unfolding Some option.case GetBlock_def
    proof (rule triple_bind [OF triple_ask_keep])
      fix blk
      show "triple (on_chain env c0 c) (case blk of None \<Rightarrow> failA ErrNoHeader
           | Some block \<Rightarrow>
             bindA (GetBlockIndex env x) (\<lambda>blockIndex.
             bindA (blockTime cf env (hPrevMainHash (bkHeader block))) (\<lambda>time.
             bindA (liftA (Prepare (cfBlake3 cf) h x block blockIndex (cfDecoder cf) time)) (\<lambda>write.
             bindA (mainHeight cf env (hPrevMainHash (bkHeader block))) (\<lambda>main.
             bindA (store_write env (\<lambda>pg. Apply pg (write\<lparr>sbMainHeight := main\<rparr>))) (\<lambda>unknown.
               retA True)))))) (applied_post env c0 c h) (traced env c0)"
        by (cases blk) (auto simp: GetBlockIndex_def intro!: triple_fail triple_bind [OF triple_ask_keep]
            triple_bind [OF blockTime_triple] written)
    qed
  qed
qed

subsection \<open>The loop over the heights\<close>

text \<open>The blocks a pass added on top of \<open>c\<close>: the node named each of them at its height.\<close>

definition extends :: "env \<Rightarrow> hash list \<Rightarrow> hash list \<Rightarrow> bool" where
  "extends env c c' \<longleftrightarrow> (\<exists>xs. c' = c @ xs
     \<and> (\<forall>i < length xs. node_says env (of_nat (length c + i)) (Some (xs ! i))))"

lemma extends_refl [simp]: "extends env c c"
  by (simp add: extends_def)

lemma extends_step:
  assumes "node_says env (of_nat (length c)) (Some x)" and "extends env (c @ [x]) c'"
  shows "extends env c c'"
proof -
  obtain xs where xs: "c' = (c @ [x]) @ xs"
      "\<forall>i < length xs. node_says env (of_nat (length (c @ [x]) + i)) (Some (xs ! i))"
    using assms(2) by (auto simp: extends_def)
  have "node_says env (of_nat (length c + i)) (Some ((x # xs) ! i))" if "i < length (x # xs)" for i
    using that xs(2) assms(1) by (cases i) (auto simp: add_ac)
  then show ?thesis using xs(1) by (auto simp: extends_def intro!: exI [of _ "x # xs"])
qed

lemma check_ctx_triple: "triple (on_chain env c0 c) (check_ctx env) (\<lambda>_. on_chain env c0 c) (traced env c0)"
  unfolding check_ctx_def by (rule triple_ask_keep)

text \<open>
  The loop over the \<open>n\<close> heights above the index tip: it ends with all of them applied, or at a
  height where the node named nothing.
\<close>

definition loop_post :: "env \<Rightarrow> hash list \<Rightarrow> hash list \<Rightarrow> nat \<Rightarrow> bool \<Rightarrow> syst \<Rightarrow> bool" where
  "loop_post env c0 c n r s \<longleftrightarrow> traced env c0 s \<and> extends env c (chain_of s)
     \<and> (if r then length (chain_of s) = length c + n
        else length (chain_of s) < length c + n \<and> node_says env (of_nat (length (chain_of s))) None)"

lemma loop_post_same: "loop_post env c0 c n r s \<Longrightarrow> on_chain env c0 (chain_of s) t \<Longrightarrow> loop_post env c0 c n r t"
  by (simp add: loop_post_def)

lemma loop_post_traced: "loop_post env c0 c n r s \<Longrightarrow> traced env c0 s"
  by (simp add: loop_post_def)

lemma loop_ret: "loop_post env c0 c n r s
    \<Longrightarrow> triple (\<lambda>t. t = s) (retA ()) (\<lambda>_ t. traced env c0 t \<and> (\<exists>r. loop_post env c0 c n r t)) E"
  by (rule triple_ret) (blast dest: loop_post_traced)

lemma applyHeights_simps:
  "applyHeights cf env [] = retA True"
  "applyHeights cf env (h # hs) = bindA (bindA (applyHeight cf env h) (\<lambda>applied.
     if applied then bindA (check_ctx env) (\<lambda>_. retA True) else retA False))
     (\<lambda>go. if go then applyHeights cf env hs else retA False)"
  unfolding applyHeights_def by simp_all

lemma applyHeights_triple:
  assumes env: "wf_env env" and "length c + n \<le> 2 ^ 31"
  shows "triple (on_chain env c0 c) (applyHeights cf env (map of_nat [length c ..< length c + n])) (loop_post env c0 c n) (traced env c0)"
  using assms(2)
proof (induction n arbitrary: c)
  case 0
  show ?case by (auto simp: applyHeights_simps loop_post_def intro: triple_ret)
next
  case (Suc n)
  have list: "map of_nat [length c ..< length c + Suc n]
      = (of_nat (length c) :: u32) # map of_nat [length (c @ [x]) ..< length (c @ [x]) + n]" for x
    by (simp add: upt_conv_Cons del: upt_Suc)
  have h: "unat (of_nat (length c) :: u32) = length c" "length c < 2 ^ 31"
    using Suc.prems by (auto intro: unat_of_nat_small)
  have rest: "triple (applied_post env c0 c (of_nat (length c)) True)
      (applyHeights cf env (map of_nat [length (c @ [x]) ..< length (c @ [x]) + n])) (loop_post env c0 c (Suc n)) (traced env c0)" for x
  proof (rule triple_state)
    fix s assume "applied_post env c0 c (of_nat (length c)) True s"
    then obtain y where y: "node_says env (of_nat (length c)) (Some y)" "on_chain env c0 (c @ [y]) s"
      by (auto simp: applied_post_def)
    have "triple (\<lambda>t. t = s) (applyHeights cf env (map of_nat [length (c @ [y]) ..< length (c @ [y]) + n]))
        (loop_post env c0 c (Suc n)) (traced env c0)"
      by (rule triple_conseq [OF Suc.IH [of "c @ [y]"]])
         (use Suc.prems y extends_step [OF y(1)] in \<open>auto simp: loop_post_def split: if_splits\<close>)
    then show "triple (\<lambda>t. t = s) (applyHeights cf env (map of_nat [length (c @ [x]) ..< length (c @ [x]) + n]))
        (loop_post env c0 c (Suc n)) (traced env c0)" by simp
  qed
  have ctx: "triple (applied_post env c0 c (of_nat (length c)) True) (check_ctx env)
      (\<lambda>_. applied_post env c0 c (of_nat (length c)) True) (traced env c0)"
    unfolding check_ctx_def
    by (rule triple_conseq [OF triple_ask [where P = "applied_post env c0 c (of_nat (length c)) True" and E = "traced env c0"]])
       (auto simp: applied_post_def)
  show ?case
    unfolding list [of undefined] applyHeights_simps
  proof (rule triple_bind [where R = "applied_post env c0 c (of_nat (length c))"])
    show "triple (on_chain env c0 c) (bindA (applyHeight cf env (of_nat (length c))) (\<lambda>applied.
        if applied then bindA (check_ctx env) (\<lambda>_. retA True) else retA False))
        (applied_post env c0 c (of_nat (length c))) (traced env c0)"
      by (rule triple_bind [OF applyHeight_triple [OF env h]])
         (auto intro!: triple_bind [OF ctx] triple_ret)
    fix go
    show "triple (applied_post env c0 c (of_nat (length c)) go)
        (if go then applyHeights cf env (map of_nat [length (c @ [undefined]) ..< length (c @ [undefined]) + n]) else retA False)
        (loop_post env c0 c (Suc n)) (traced env c0)"
      using rest [of undefined] by (auto simp: loop_post_def applied_post_def intro!: triple_ret)
  qed
qed

subsection \<open>Where a pass starts\<close>

lemma Tip_triple:
  "triple (on_chain env c0 c) (store_read env Tip)
     (\<lambda>r s. on_chain env c0 c s \<and> r = (if c = [] then None else Some (of_nat (length c - 1), last c))) (traced env c0)"
  by (rule triple_conseq [OF triple_read [of env c0 c Tip]]) (auto simp: traced_def good_def Tip_level exec_eq_Inr)

lemma findFork_triple:
  assumes "c \<noteq> []" and "unat from' = length c - 1"
  shows "triple (on_chain env c0 c) (findFork env from') (\<lambda>fork s. unat fork < length (chain_of s) \<and> traced env c0 s) (traced env c0)"
proof (cases "length c \<le> 2 ^ 31")
  case True
  have start: "unat from' \<le> 2 ^ 31" using True assms(2) by simp
  show ?thesis
    unfolding findFork_def
  proof (rule triple_bind [OF sync_index.fork_scan_below [OF start BlockHashAt_keep]], rule triple_if)
    fix r assume r: "\<forall>h. r = Some h \<longrightarrow> unat h < unat from' \<and> unat h < length c"
    have "triple (on_chain env c0 c) (store_Rollback env 0) (\<lambda>_ s. traced env c0 s \<and> chain_of s = take (Suc (unat (0::u32))) c) (traced env c0)"
      by (rule store_Rollback_triple) (use assms True in auto)
    then have "triple (on_chain env c0 c) (bindA (store_Rollback env 0) (\<lambda>_. retA 0))
        (\<lambda>fork s. unat fork < length (chain_of s) \<and> traced env c0 s) (traced env c0)"
      by (rule triple_bind) (use assms(1) in \<open>auto intro: triple_ret\<close>)
    then show "triple (on_chain env c0 c) (case r of Some height \<Rightarrow> retA height | None \<Rightarrow> bindA (store_Rollback env 0) (\<lambda>_. retA 0))
        (\<lambda>fork s. unat fork < length (chain_of s) \<and> traced env c0 s) (traced env c0)"
      using r by (auto split: option.split intro: triple_ret)
  qed
qed (use traced_bounded in \<open>auto simp: triple_def\<close>)

text \<open>Whatever the node answers, the pass starts right above the index tip.\<close>

lemma resolveStart_triple:
  "triple (traced env c0) (resolveStart env) (\<lambda>next s. traced env c0 s \<and> unat next = length (chain_of s)) (traced env c0)"
proof (rule triple_state)
  fix s0 assume s0: "traced env c0 s0"
  let ?c = "chain_of s0" and ?Q = "\<lambda>next s. traced env c0 s \<and> unat next = length (chain_of s)"
  have small: "length ?c \<le> 2 ^ 31" using traced_bounded [OF s0] .
  have rewind: "triple (\<lambda>s. unat fork < length (chain_of s) \<and> traced env c0 s)
      (bindA (store_Rollback env fork) (\<lambda>_. retA (fork + 1))) ?Q (traced env c0)" for fork :: u32
  proof (rule triple_state)
    fix s assume s: "unat fork < length (chain_of s) \<and> traced env c0 s"
    then have f: "unat (fork + 1) = Suc (unat fork)" using traced_bounded [of env c0 s] by (intro unat_plus_one) auto
    have "triple (\<lambda>t. t = s) (store_Rollback env fork) (\<lambda>_ t. traced env c0 t \<and> chain_of t = take (Suc (unat fork)) (chain_of s)) (traced env c0)"
      by (rule triple_conseq [OF store_Rollback_triple [of fork "chain_of s"]]) (use s traced_bounded in auto)
    then show "triple (\<lambda>t. t = s) (bindA (store_Rollback env fork) (\<lambda>_. retA (fork + 1))) ?Q (traced env c0)"
      by (rule triple_bind) (use s in \<open>auto simp: f intro!: triple_ret\<close>)
  qed
  have "triple (on_chain env c0 ?c) (resolveStart env) ?Q (traced env c0)"
    unfolding resolveStart_def
  proof (rule triple_bind [OF Tip_triple], rule triple_if)
    fix tip assume tip: "tip = (if ?c = [] then None else Some (of_nat (length ?c - 1) :: u32, last ?c))"
    show "triple (on_chain env c0 ?c) (case tip of None \<Rightarrow> retA 0
       | Some (height, tipHash) \<Rightarrow> bindA (BlockHashAt env height) (\<lambda>nodeHash.
           if nodeHash = Some tipHash then retA (height + 1)
           else bindA (findFork env height) (\<lambda>fork. bindA (store_Rollback env fork) (\<lambda>_. retA (fork + 1))))) ?Q (traced env c0)"
    proof (cases "?c = []")
      case True
      then show ?thesis by (auto simp: tip intro!: triple_ret)
    next
      case False
      let ?h = "of_nat (length ?c - 1) :: u32"
      have h: "unat ?h = length ?c - 1" using small by (intro unat_of_nat_small) simp
      have h1: "unat (?h + 1) = length ?c"
        using small False h unat_plus_one [of ?h] by (simp add: length_greater_0_conv [symmetric] del: length_greater_0_conv)
      have "triple (on_chain env c0 ?c) (bindA (findFork env ?h) (\<lambda>fork. bindA (store_Rollback env fork) (\<lambda>_. retA (fork + 1)))) ?Q (traced env c0)"
        by (rule triple_bind [OF findFork_triple [OF False h] rewind])
      then have "triple (on_chain env c0 ?c) (if nodeHash = Some (last ?c) then retA (?h + 1)
           else bindA (findFork env ?h) (\<lambda>fork. bindA (store_Rollback env fork) (\<lambda>_. retA (fork + 1)))) ?Q (traced env c0)" for nodeHash
        using h1 by (auto intro!: triple_ret)
      then show ?thesis
        unfolding tip if_not_P [OF False] option.case prod.case by (rule triple_bind [OF BlockHashAt_keep])
    qed
  qed
  then show "triple (\<lambda>t. t = s0) (resolveStart env) ?Q (traced env c0)"
    by (rule triple_conseq) (use s0 in auto)
qed

subsection \<open>A whole pass\<close>

lemma ask_keeps: "triple (on_chain env c0 c) (ask env f) (\<lambda>_. on_chain env c0 c) (on_chain env c0 c)"
  by (rule triple_conseq [OF triple_ask [where P = "on_chain env c0 c" and E = "on_chain env c0 c"]]) auto

lemma set_main_traced: "on_chain env c0 c s \<Longrightarrow> on_chain env c0 c (s\<lparr>syDb := set_main h m (syDb s)\<rparr>)"
  by (auto simp: traced_def good_def level_set_main hashes_set_main wf_db_set_main)
     (simp add: set_main_def)

lemma SetMainHeight_keeps:
  "triple (on_chain env c0 c) (store_write env (\<lambda>pg. SetMainHeight pg h m)) (\<lambda>_. on_chain env c0 c) (on_chain env c0 c)"
  by (rule store_write_triple)
     (auto simp: SetMainHeight_alt hashes_set_main elim!: autocommit_cases
       intro: set_main_traced [THEN conjunct1] traced_meddled)

lemma backfill_keeps:
  "triple (on_chain env c0 c) (backfillMainHeights cf env) (\<lambda>_. on_chain env c0 c) (traced env c0)"
proof (cases "cfHeights cf")
  case True
  have "triple (on_chain env c0 c) (bindA (mainHeight cf env x) (\<lambda>height.
            case height of None \<Rightarrow> retA ()
            | Some m \<Rightarrow> bindA (store_write env (\<lambda>pg. SetMainHeight pg h m)) (\<lambda>_. check_ctx env)))
      (\<lambda>_. on_chain env c0 c) (on_chain env c0 c)" for x h
    unfolding mainHeight_def check_ctx_def if_not_P [OF not_not [THEN iffD2, OF True]]
    by (rule triple_bind [OF ask_keeps])
       (auto split: option.split intro: triple_ret triple_bind [OF SetMainHeight_keeps ask_keeps])
  then have each: "triple (on_chain env c0 c) (eachA (\<lambda>b. bindA (mainHeight cf env (bwMainHash b)) (\<lambda>height.
            case height of None \<Rightarrow> retA ()
            | Some m \<Rightarrow> bindA (store_write env (\<lambda>pg. SetMainHeight pg (bwHeight b) m)) (\<lambda>_. check_ctx env))) blocks)
      (\<lambda>_. on_chain env c0 c) (on_chain env c0 c)" for blocks
    by (intro triple_eachA)
  have "triple (on_chain env c0 c) (store_read env (\<lambda>pg. BlocksMissingMainHeight pg backfillHeightsPerPass))
      (\<lambda>_. on_chain env c0 c) (on_chain env c0 c)"
    by (intro tripleI) (auto simp: store_read_def traced_meddled)
  from triple_bind [OF this each] have "triple (on_chain env c0 c) (backfillMainHeights cf env)
      (\<lambda>_. on_chain env c0 c) (on_chain env c0 c)"
    unfolding backfillMainHeights_def if_not_P [OF not_not [THEN iffD2, OF True]] .
  then show ?thesis by (rule triple_conseq) simp_all
qed (auto simp: backfillMainHeights_def intro: triple_ret)

lemma read_tip_triple:
  "triple (on_chain env c0 c) (read_tip env)
     (\<lambda>r s. on_chain env c0 c s \<and> (\<exists>t. case r of
         None \<Rightarrow> TipHeight (moNode (env t)) = Inl ErrEmptyChain
       | Some tip \<Rightarrow> TipHeight (moNode (env t)) = Inr tip)) (traced env c0)"
  by (intro tripleI) (auto simp: read_tip_def ask_def bindA_def drop_node_def failA_def traced_def good_def
      split: sum.splits error.splits)

lemma heights_above:
  assumes "unat next = k" and "Suc (unat tip) = k + n"
  shows "heights next tip = map of_nat [k ..< k + n]"
  using assms by (simp add: heights_def)

lemma heights_none: "unat tip < unat next \<Longrightarrow> heights next tip = []"
  by (simp add: heights_def)

lemma tip_small:
  assumes "wf_env env" and "TipHeight (moNode (env t)) = Inr tip"
  shows "Suc (unat tip) \<le> 2 ^ 31"
proof -
  obtain n where n: "ndCount (moNode (env t)) = Inr n" "n \<noteq> 0" "tip = n - 1"
    using assms(2) by (auto simp: TipHeight_def bindE_def split: sum.splits if_splits)
  have "unat (n - 1) = unat n - 1" using n(2) by (metis unat_minus_one)
  moreover have "unat n \<le> 2 ^ 31" "unat n \<noteq> 0" using n assms(1) by (auto simp: wf_env_def unat_eq_zero)
  ultimately show ?thesis using n(3) by simp
qed

text \<open>From the loop to the end of the pass, from an index with the \<open>next\<close> height free.\<close>

lemma finish_triple:
  assumes env: "wf_env env" and tip: "Suc (unat tip) \<le> 2 ^ 31" and "unat next = length c"
  shows "triple (on_chain env c0 c) (bindA (applyHeights cf env (heights next tip)) (\<lambda>done.
       if done then backfillMainHeights cf env else retA ()))
     (\<lambda>_ s. traced env c0 s \<and> (\<exists>done. loop_post env c0 c (Suc (unat tip) - length c) done s)) (traced env c0)"
proof -
  let ?n = "Suc (unat tip) - length c"
  have "heights next tip = map of_nat [length c ..< length c + ?n]"
    using assms(3) heights_none [of tip "next"] by (cases "length c \<le> unat tip") (auto simp: heights_def)
  moreover have "length c + ?n \<le> 2 ^ 31" if "length c \<le> 2 ^ 31" using that tip by simp
  ultimately have loop: "triple (on_chain env c0 c) (applyHeights cf env (heights next tip)) (loop_post env c0 c ?n) (traced env c0)"
    using applyHeights_triple [OF env, of c ?n c0 cf] traced_bounded
    by (cases "length c \<le> 2 ^ 31") (auto simp: triple_def)
  show ?thesis
  proof (rule triple_bind [OF loop], rule triple_state)
    fix r s assume s: "loop_post env c0 c ?n r s"
    have "triple (\<lambda>t. t = s) (backfillMainHeights cf env) (\<lambda>_. on_chain env c0 (chain_of s)) (traced env c0)"
      by (rule triple_conseq [OF backfill_keeps [of env c0 "chain_of s"]]) (use loop_post_traced [OF s] in simp_all)
    then have "triple (\<lambda>t. t = s) (backfillMainHeights cf env) (\<lambda>_ t. traced env c0 t \<and> (\<exists>done. loop_post env c0 c ?n done t)) (traced env c0)"
      by (rule triple_conseq) (use loop_post_same [OF s] in blast)+
    then show "triple (\<lambda>t. t = s) (if r then backfillMainHeights cf env else retA ())
        (\<lambda>_ t. traced env c0 t \<and> (\<exists>done. loop_post env c0 c ?n done t)) (traced env c0)"
      using loop_ret [OF s] by simp
  qed
qed

lemma resolveStart_from:
  "triple (on_chain env c0 c) (resolveStart env) (\<lambda>next s. traced env c0 s \<and> unat next = length (chain_of s)) (traced env c0)"
  by (rule triple_conseq [OF resolveStart_triple]) simp_all

lemma Once_traced:
  assumes env: "wf_env env"
  shows "triple (on_chain env c0 c) (Once cf env) (\<lambda>_. traced env c0) (traced env c0)"
  unfolding Once_def
proof (intro triple_bind [OF triple_ask_keep], rule triple_bind [OF read_tip_triple], rule triple_if, elim exE)
  fix r t assume r: "case r of None \<Rightarrow> TipHeight (moNode (env t)) = Inl ErrEmptyChain | Some tip \<Rightarrow> TipHeight (moNode (env t)) = Inr tip"
  have "triple (on_chain env c0 c) (bindA (resolveStart env) (\<lambda>next.
         bindA (applyHeights cf env (heights next tip)) (\<lambda>done.
           if done then backfillMainHeights cf env else retA ()))) (\<lambda>_. traced env c0) (traced env c0)"
    if tip: "Suc (unat tip) \<le> 2 ^ 31" for tip
  proof (rule triple_bind [OF resolveStart_from])
    fix "next" :: u32
    show "triple (\<lambda>s. traced env c0 s \<and> unat next = length (chain_of s)) (bindA (applyHeights cf env (heights next tip)) (\<lambda>done.
           if done then backfillMainHeights cf env else retA ())) (\<lambda>_. traced env c0) (traced env c0)"
    proof (rule triple_state)
      fix s assume s: "traced env c0 s \<and> unat next = length (chain_of s)"
      show "triple (\<lambda>t. t = s) (bindA (applyHeights cf env (heights next tip)) (\<lambda>done.
           if done then backfillMainHeights cf env else retA ())) (\<lambda>_. traced env c0) (traced env c0)"
        by (rule triple_conseq [OF finish_triple [OF env tip, of "next" "chain_of s"]]) (use s in auto)
    qed
  qed
  then show "triple (on_chain env c0 c) (case r of None \<Rightarrow> retA ()
       | Some nodeTip \<Rightarrow>
         bindA (resolveStart env) (\<lambda>next.
         bindA (applyHeights cf env (heights next nodeTip)) (\<lambda>done.
           if done then backfillMainHeights cf env else retA ()))) (\<lambda>_. traced env c0) (traced env c0)"
    using r tip_small [OF env] by (cases r) (auto intro!: triple_ret)
qed

end
