(* ===== verification/Sync_Stable.thy ===== *)
theory Sync_Stable
  imports Sync_Inv
begin

text \<open>
  A pass against a node that stands still: what it keeps of the index, where it starts, and that the
  loop then appends the rest of the node's chain; and that the pass succeeds when nothing fails.
\<close>

subsection \<open>A node that stands still\<close>

definition serves :: "env \<Rightarrow> hash list \<Rightarrow> bool" where
  "serves env c' \<longleftrightarrow> c' \<noteq> [] \<and> length c' \<le> 2 ^ 31 \<and> (\<forall>x \<in> set c'. wf_hash x)
     \<and> (\<forall>t. (\<forall>n. ndCount (moNode (env t)) = Inr n \<longrightarrow> n = of_nat (length c'))
           \<and> ndCount (moNode (env t)) \<noteq> Inl ErrEmptyChain
           \<and> (\<forall>h r. ndHashAt (moNode (env t)) h = Inr r \<longrightarrow> r = lookup_hash c' h))"

lemma serves_says: "serves env c' \<Longrightarrow> node_says env h r \<Longrightarrow> r = lookup_hash c' h"
  by (auto simp: serves_def node_says_def)

lemma serves_at:
  assumes "serves env c'" and "i < length c'" and "node_says env (of_nat i) r"
  shows "r = Some (c' ! i)"
proof -
  have "unat (of_nat i :: u32) = i" using assms(1,2) by (intro unat_of_nat_small) (auto simp: serves_def)
  then show ?thesis using serves_says [OF assms(1,3)] assms(2) by (simp add: lookup_hash_def)
qed

lemma serves_wf_env:
  assumes "serves env c'"
  shows "wf_env env"
proof -
  have "unat (of_nat (length c') :: u32) \<le> 2 ^ 31"
    using assms unat_of_nat_small [of "length c'"] by (simp add: serves_def)
  moreover have "wf_hash x" if "lookup_hash c' h = Some x" for h x
    using that assms by (auto simp: serves_def lookup_hash_def split: if_splits)
  ultimately show ?thesis
    using assms unfolding wf_env_def serves_def by metis
qed

lemma serves_tip:
  assumes "serves env c'" and "TipHeight (moNode (env t)) = r"
  shows "r \<noteq> Inl ErrEmptyChain" and "r = Inr tip \<Longrightarrow> Suc (unat tip) = length c'"
proof -
  have len: "unat (of_nat (length c') :: u32) = length c'" "c' \<noteq> []"
    using assms(1) unat_of_nat_small [of "length c'"] by (simp_all add: serves_def)
  then have nz: "(of_nat (length c') :: u32) \<noteq> 0" by (metis length_0_conv unat_0)
  show "r \<noteq> Inl ErrEmptyChain" using assms nz
    by (auto simp: serves_def TipHeight_def bindE_def split: sum.splits if_splits)
  assume "r = Inr tip"
  then have "tip = of_nat (length c') - 1" using assms
    by (auto simp: serves_def TipHeight_def bindE_def split: sum.splits if_splits)
  then show "Suc (unat tip) = length c'" using unat_minus_one [OF nz] len by (simp add: length_greater_0_conv [symmetric] del: length_greater_0_conv)
qed

text \<open>
  What a pass keeps of the index before it reads a new block: everything up to the highest common height,
  or, when the chains have no block in common, the first block.
\<close>

definition kept :: "hash list \<Rightarrow> hash list \<Rightarrow> hash list \<Rightarrow> bool" where
  "kept c c' d \<longleftrightarrow> (if c = [] then d = []
     else if \<exists>i. agree c c' i then \<exists>i. agree c c' i \<and> (\<forall>j. agree c c' j \<longrightarrow> j \<le> i) \<and> d = take (Suc i) c
     else d = take 1 c)"

lemma kept_length: "kept c c' d \<Longrightarrow> c' \<noteq> [] \<Longrightarrow> length d \<le> length c'"
  by (auto simp: kept_def agree_def length_greater_0_conv [symmetric] simp del: length_greater_0_conv split: if_splits)

lemma findFork_stable:
  assumes env: "serves env c'" and c: "c \<noteq> []" "unat from' = length c - 1" and last: "\<not> agree c c' (length c - 1)"
  shows "triple (on_chain env c0 c) (findFork env from')
     (\<lambda>fork s. traced env c0 s \<and> unat fork < length (chain_of s) \<and> kept c c' (take (Suc (unat fork)) (chain_of s))) (traced env c0)"
proof (cases "length c \<le> 2 ^ 31")
  case True
  let ?Q = "\<lambda>fork s. traced env c0 s \<and> unat fork < length (chain_of s) \<and> kept c c' (take (Suc (unat fork)) (chain_of s))"
  have start: "unat from' \<le> 2 ^ 31" using True c(2) by simp
  have theirs: "triple (on_chain env c0 c) (BlockHashAt env h) (\<lambda>r s. on_chain env c0 c s \<and> r = lookup_hash c' h) (traced env c0)" for h
    by (rule triple_conseq [OF BlockHashAt_triple]) (use serves_says [OF env] in auto)
  have inside: "i < unat from'" if "agree c c' i" for i
    using that last c(2) by (cases "i = length c - 1") (auto simp: agree_def)
  show ?thesis
    unfolding findFork_def
  proof (rule triple_bind [OF sync_index.fork_scan_highest [OF start theirs]], rule triple_if)
    fix r assume r: "case r of
        Some h \<Rightarrow> unat h < unat from' \<and> agree c c' (unat h) \<and> (\<forall>i < unat from'. unat h < i \<longrightarrow> \<not> agree c c' i)
      | None \<Rightarrow> \<forall>i < unat from'. \<not> agree c c' i"
    have none: "triple (on_chain env c0 c) (bindA (store_Rollback env 0) (\<lambda>_. retA 0)) ?Q (traced env c0)"
      if "\<And>i. \<not> agree c c' i"
    proof (rule triple_bind [OF store_Rollback_triple])
      show "triple (on_chain env c0 (take (Suc (unat (0 :: u32))) c)) (retA 0) ?Q (traced env c0)"
        using that c(1) by (auto simp: kept_def intro!: triple_ret)
    qed (use c True in auto)
    have some: "kept c c' (take (Suc (unat h)) c)" if "r = Some h" for h
      using r that inside c(1) unfolding kept_def by (auto simp: not_less) (metis not_le)
    show "triple (on_chain env c0 c) (case r of Some height \<Rightarrow> retA height | None \<Rightarrow> bindA (store_Rollback env 0) (\<lambda>_. retA 0)) ?Q (traced env c0)"
    proof (cases r)
      case None
      then have "\<And>i. \<not> agree c c' i" using r inside by auto
      then show ?thesis using none None by simp
    next
      case (Some h)
      then show ?thesis using some [OF Some] r by (auto simp: agree_def intro!: triple_ret)
    qed
  qed
qed (use traced_bounded in \<open>auto simp: triple_def\<close>)

text \<open>\<open>resolveStart\<close> rolls back to what is kept, and starts right above it.\<close>

definition started :: "env \<Rightarrow> hash list \<Rightarrow> hash list \<Rightarrow> hash list \<Rightarrow> u32 \<Rightarrow> syst \<Rightarrow> bool" where
  "started env c0 c c' next s \<longleftrightarrow> traced env c0 s \<and> unat next = length (chain_of s) \<and> kept c c' (chain_of s)"

lemma rewind_stable:
  "triple (\<lambda>s. traced env c0 s \<and> unat fork < length (chain_of s) \<and> kept c c' (take (Suc (unat fork)) (chain_of s)))
      (bindA (store_Rollback env fork) (\<lambda>_. retA (fork + 1))) (started env c0 c c') (traced env c0)"
proof (rule triple_state)
  fix s assume s: "traced env c0 s \<and> unat fork < length (chain_of s) \<and> kept c c' (take (Suc (unat fork)) (chain_of s))"
  then have f: "unat (fork + 1) = Suc (unat fork)" using traced_bounded [of env c0 s] by (intro unat_plus_one) auto
  have "triple (\<lambda>t. t = s) (store_Rollback env fork) (\<lambda>_. on_chain env c0 (take (Suc (unat fork)) (chain_of s))) (traced env c0)"
    by (rule triple_conseq [OF store_Rollback_triple [of fork "chain_of s"]]) (use s traced_bounded [of env c0 s] in auto)
  then show "triple (\<lambda>t. t = s) (bindA (store_Rollback env fork) (\<lambda>_. retA (fork + 1))) (started env c0 c c') (traced env c0)"
    by (rule triple_bind) (use s in \<open>auto simp: f started_def intro!: triple_ret\<close>)
qed

lemma resolveStart_stable:
  assumes env: "serves env c'"
  shows "triple (on_chain env c0 c) (resolveStart env) (started env c0 c c') (traced env c0)"
  unfolding resolveStart_def
proof (rule triple_bind [OF Tip_triple], rule triple_if)
  fix tip assume tip: "tip = (if c = [] then None else Some (of_nat (length c - 1) :: u32, last c))"
  show "triple (on_chain env c0 c) (case tip of None \<Rightarrow> retA 0
       | Some (height, tipHash) \<Rightarrow> bindA (BlockHashAt env height) (\<lambda>nodeHash.
           if nodeHash = Some tipHash then retA (height + 1)
           else bindA (findFork env height) (\<lambda>fork. bindA (store_Rollback env fork) (\<lambda>_. retA (fork + 1))))) (started env c0 c c') (traced env c0)"
  proof (cases "c = [] \<or> \<not> length c \<le> 2 ^ 31")
    case True
    then show ?thesis using traced_bounded
      by (auto simp: tip started_def kept_def intro!: triple_ret) (auto simp: triple_def)
  next
    case False
    let ?h = "of_nat (length c - 1) :: u32"
    have h: "unat ?h = length c - 1" using False by (intro unat_of_nat_small) auto
    have h1: "unat (?h + 1) = length c" using False h unat_plus_one [of ?h] by (auto simp: Suc_diff_Suc)
    have same: "lookup_hash c' ?h = Some (last c) \<longleftrightarrow> agree c c' (length c - 1)"
      using False h by (auto simp: lookup_hash_def agree_def last_conv_nth)
    have here: "started env c0 c c' (?h + 1) s" if "on_chain env c0 c s" "agree c c' (length c - 1)" for s
      using that False h1 by (auto simp: started_def kept_def intro!: exI [of _ "length c - 1"]) (auto simp: agree_def)
    have step: "triple (on_chain env c0 c) (if lookup_hash c' ?h = Some (last c) then retA (?h + 1)
           else bindA (findFork env ?h) (\<lambda>fork. bindA (store_Rollback env fork) (\<lambda>_. retA (fork + 1)))) (started env c0 c c') (traced env c0)"
    proof (cases "agree c c' (length c - 1)")
      case True
      then show ?thesis using here same by (auto intro!: triple_ret)
    next
      case no: False
      then show ?thesis
        using triple_bind [OF findFork_stable [OF env _ h no] rewind_stable] False same by simp
    qed
    have "triple (on_chain env c0 c) (BlockHashAt env ?h) (\<lambda>r s. on_chain env c0 c s \<and> r = lookup_hash c' ?h) (traced env c0)"
      by (rule triple_conseq [OF BlockHashAt_triple]) (use serves_says [OF env] in auto)
    then have "triple (on_chain env c0 c) (bindA (BlockHashAt env ?h) (\<lambda>nodeHash. if nodeHash = Some (last c) then retA (?h + 1)
           else bindA (findFork env ?h) (\<lambda>fork. bindA (store_Rollback env fork) (\<lambda>_. retA (fork + 1))))) (started env c0 c c') (traced env c0)"
      by (rule triple_bind) (rule triple_if, simp only: step)
    then show ?thesis using False unfolding tip by (simp only: de_Morgan_disj if_False option.case prod.case)
  qed
qed

lemma loop_stable:
  assumes env: "serves env c'" and d: "length d \<le> length c'" and "loop_post env c0 d (length c' - length d) done s"
  shows "chain_of s = d @ drop (length d) c'"
proof -
  have full: "length (chain_of s) = length c'"
  proof (rule ccontr)
    assume n: "length (chain_of s) \<noteq> length c'"
    then have "\<not> done" using assms(3) d by (auto simp: loop_post_def)
    then have "length (chain_of s) < length c'" "node_says env (of_nat (length (chain_of s))) None"
      using assms(3) d by (auto simp: loop_post_def)
    then show False
      using serves_says [OF env] unat_of_nat_small [of "length (chain_of s)"] env
      by (force simp: lookup_hash_def serves_def)
  qed
  obtain xs where xs: "chain_of s = d @ xs"
      "\<forall>i < length xs. node_says env (of_nat (length d + i)) (Some (xs ! i))"
    using assms(3) by (auto simp: loop_post_def extends_def)
  have "xs ! i = c' ! (length d + i)" if i: "i < length xs" for i
  proof -
    have "length d + i < length c'" "length c' \<le> 2 ^ 31" using i full xs(1) env by (auto simp: serves_def)
    then show ?thesis
      using serves_says [OF env xs(2) [rule_format, OF i]] unat_of_nat_small [of "length d + i"]
      by (auto simp: lookup_hash_def)
  qed
  then have "xs = drop (length d) c'" using full xs(1) by (intro nth_equalityI) auto
  then show ?thesis using xs(1) by simp
qed

lemma Once_stable:
  assumes env: "serves env c'"
  shows "triple (on_chain env c0 c) (Once cf env)
    (\<lambda>_ s. \<exists>d. kept c c' d \<and> chain_of s = d @ drop (length d) c') (traced env c0)"
  unfolding Once_def
proof (intro triple_bind [OF triple_ask_keep], rule triple_bind [OF read_tip_triple], rule triple_if, elim exE)
  let ?Q = "\<lambda>_ s. \<exists>d. kept c c' d \<and> chain_of s = d @ drop (length d) c'"
  fix r t assume r: "case r of None \<Rightarrow> TipHeight (moNode (env t)) = Inl ErrEmptyChain | Some tip \<Rightarrow> TipHeight (moNode (env t)) = Inr tip"
  then obtain tip where tip: "r = Some tip" "Suc (unat tip) = length c'"
    using serves_tip [OF env] by (cases r) auto
  have small: "Suc (unat tip) \<le> 2 ^ 31" using tip(2) env by (simp add: serves_def)
  have "triple (on_chain env c0 c) (bindA (resolveStart env) (\<lambda>next.
         bindA (applyHeights cf env (heights next tip)) (\<lambda>done.
           if done then backfillMainHeights cf env else retA ()))) ?Q (traced env c0)"
  proof (rule triple_bind [OF resolveStart_stable [OF env]], rule triple_state)
    fix "next" s assume s: "started env c0 c c' next s"
    then have len: "unat next = length (chain_of s)" "length (chain_of s) \<le> length c'"
      using kept_length env by (auto simp: started_def serves_def)
    show "triple (\<lambda>t. t = s) (bindA (applyHeights cf env (heights next tip)) (\<lambda>done.
           if done then backfillMainHeights cf env else retA ())) ?Q (traced env c0)"
    proof (rule triple_conseq [OF finish_triple [OF serves_wf_env [OF env] small len(1)]])
      fix u t assume "traced env c0 t \<and> (\<exists>done. loop_post env c0 (chain_of s) (Suc (unat tip) - length (chain_of s)) done t)"
      then obtain r where "loop_post env c0 (chain_of s) (length c' - length (chain_of s)) r t" using tip(2) by auto
      moreover have "kept c c' (chain_of s)" using s by (simp add: started_def)
      ultimately show "?Q u t" using loop_stable [OF env len(2)] by blast
    qed (use s in \<open>auto simp: started_def\<close>)
  qed
  then show "triple (on_chain env c0 c) (case r of None \<Rightarrow> retA ()
       | Some nodeTip \<Rightarrow>
         bindA (resolveStart env) (\<lambda>next.
         bindA (applyHeights cf env (heights next nodeTip)) (\<lambda>done.
           if done then backfillMainHeights cf env else retA ()))) ?Q (traced env c0)"
    by (simp add: tip(1))
qed

lemma Once_ends:
  assumes "serves env c'" and "good s" and "Once cf env s = (Inr (), s')"
  obtains d where "kept (chain_of s) c' d" and "chain_of s' = d @ drop (length d) c'"
proof -
  have "on_chain env (chain_of s) (chain_of s) s" using assms(2) by (simp add: traced_def)
  from triple_InrD [OF Once_stable [OF assms(1)] this assms(3)] that show thesis by blast
qed

subsection \<open>When nothing fails\<close>

text \<open>
  A node that stands still on \<open>c'\<close> and answers every call, a Postgres without faults, a context that
  does not end, and blocks that decode and whose rows Postgres accepts on top of their predecessors.
\<close>

definition healthy :: "env \<Rightarrow> hash list \<Rightarrow> (hash \<Rightarrow> block) \<Rightarrow> (hash \<Rightarrow> block_index) \<Rightarrow> bool" where
  "healthy env c' blk idx \<longleftrightarrow> serves env c'
     \<and> (\<forall>t. moGetNode (env t) = Inr () \<and> moGetStore (env t) = Inr () \<and> \<not> moCancelled (env t) \<and> no_fault (moPg (env t))
         \<and> (\<exists>n. ndCount (moNode (env t)) = Inr n) \<and> (\<forall>h. \<exists>r. ndHashAt (moNode (env t)) h = Inr r)
         \<and> (\<forall>x \<in> set c'. ndBlock (moNode (env t)) x = Inr (Some (blk x)) \<and> ndIndex (moNode (env t)) x = Inr (idx x))
         \<and> (\<forall>x. \<exists>v. moTime (env t) x = Inr v))"

definition writable :: "config \<Rightarrow> env \<Rightarrow> hash list \<Rightarrow> (hash \<Rightarrow> block) \<Rightarrow> (hash \<Rightarrow> block_index) \<Rightarrow> bool" where
  "writable cf env c' blk idx \<longleftrightarrow>
     (\<forall>i < length c'. \<forall>bt. \<exists>w. Prepare (cfBlake3 cf) (of_nat i) (c' ! i) (blk (c' ! i)) (idx (c' ! i)) (cfDecoder cf) bt = Inr w
        \<and> (\<forall>t m d. wf_db d \<and> level d \<and> hashes d = take i c'
              \<longrightarrow> (\<exists>u d'. apply_tx (moPg (env t)) (w\<lparr>sbMainHeight := m\<rparr>) d = Inr (u, d'))))
     \<and> (\<forall>t d. cfHeights cf \<and> wf_db d \<and> level d \<and> hashes d = c'
          \<longrightarrow> (\<exists>bs. BlocksMissingMainHeight (moPg (env t)) backfillHeightsPerPass d = Inr bs))"

text \<open>An action that cannot fail from a state in \<open>P\<close>.\<close>

abbreviation never_fails :: "('s \<Rightarrow> bool) \<Rightarrow> ('s, 'a) act \<Rightarrow> bool" where
  "never_fails P m \<equiv> triple P m (\<lambda>_ _. True) (\<lambda>_. False)"

lemma triple_total: "triple P m Q E \<Longrightarrow> never_fails P m \<Longrightarrow> triple P m Q (\<lambda>_. False)"
  by (intro tripleI) (blast dest: triple_InrD triple_InlD)+

lemma total_bind: "never_fails P m \<Longrightarrow> (\<And>x. never_fails (\<lambda>_. True) (f x)) \<Longrightarrow> never_fails P (bindA m f)"
  by (rule triple_bind)

lemma total_ret: "never_fails P (retA x)"
  by (rule triple_ret) simp

lemma total_ask: "(\<And>t. \<exists>x. f (env t) = Inr x) \<Longrightarrow> never_fails P (ask env f)"
  by (intro tripleI) (auto simp: ask_def, metis Inl_Inr_False)

lemma healthy_BlockHashAt: "healthy env c' blk idx \<Longrightarrow> never_fails P (BlockHashAt env h)"
  unfolding BlockHashAt_def by (rule total_ask) (simp add: healthy_def)

lemma healthy_pg: "healthy env c' blk idx \<Longrightarrow> no_fault (moPg (env t))"
  by (simp add: healthy_def)

lemma total_read:
  assumes "\<And>t s. P s \<Longrightarrow> \<exists>r. q (moPg (env t)) (syDb s) = Inr r" and "\<And>s. P s \<Longrightarrow> P (meddled env s)"
  shows "never_fails P (store_read env q)"
proof (rule tripleI)
  fix s e s' assume "P s" and "store_read env q s = (Inl e, s')"
  then show False using assms(1) [of "meddled env s" "syClock s"] assms(2) by (auto simp: store_read_def)
qed simp

lemma total_write:
  assumes "\<And>t s. P s \<Longrightarrow> \<exists>r d. w (moPg (env t)) (syDb s) = (Inr r, d)" and "\<And>s. P s \<Longrightarrow> P (meddled env s)"
  shows "never_fails P (store_write env w)"
proof (rule tripleI)
  fix s e s' assume "P s" and "store_write env w s = (Inl e, s')"
  then show False using assms(1) [of "meddled env s" "syClock s"] assms(2) by (auto simp: store_write_def)
qed simp

lemma total_anywhere: "never_fails (\<lambda>_. True) m \<Longrightarrow> never_fails P m"
  by (rule triple_conseq) simp_all

lemma healthy_Rollback: "healthy env c' blk idx \<Longrightarrow> never_fails P (store_Rollback env h)"
  unfolding store_Rollback_def
  by (rule total_anywhere, rule total_write) (simp add: healthy_pg Rollback_def inTx_no_fault rollback_tx_no_fault)

lemma healthy_HashAt: "healthy env c' blk idx \<Longrightarrow> never_fails P (store_HashAt env h)"
  unfolding store_HashAt_def by (rule total_anywhere, rule total_read) (simp_all add: healthy_pg HashAt_def)

lemma total_fork_scan:
  assumes "\<And>h. never_fails (\<lambda>_. True) (ours h)" and "\<And>h. never_fails (\<lambda>_. True) (theirs h)"
  shows "never_fails (\<lambda>_. True) (fork_scan ours theirs n)"
proof (induction n)
  case (Suc n)
  then have "never_fails (\<lambda>_. True) (case mine of None \<Rightarrow> fork_scan ours theirs n
       | Some hash \<Rightarrow> bindA (theirs (of_nat n)) (\<lambda>other.
           if other = Some hash then retA (Some (of_nat n)) else fork_scan ours theirs n))" for mine
    by (cases mine) (auto intro!: total_bind [OF assms(2)] total_ret)
  then show ?case unfolding fork_scan.simps by (rule total_bind [OF assms(1)])
qed (simp add: total_ret)

lemma healthy_findFork: "healthy env c' blk idx \<Longrightarrow> never_fails (\<lambda>_. True) (findFork env h)"
  unfolding findFork_def
  by (rule total_bind [OF total_fork_scan])
     (auto intro: healthy_HashAt healthy_BlockHashAt total_ret total_bind [OF healthy_Rollback] split: option.split)

lemma healthy_resolveStart:
  assumes "healthy env c' blk idx"
  shows "never_fails (on_chain env c0 c) (resolveStart env)"
  unfolding resolveStart_def
proof (rule total_bind)
  show "never_fails (on_chain env c0 c) (store_read env Tip)"
    by (rule total_read) (auto simp: traced_meddled, auto simp: traced_def good_def Tip_level healthy_pg [OF assms])
  fix tip :: "(u32 \<times> hash) option"
  show "never_fails (\<lambda>_. True) (case tip of None \<Rightarrow> retA 0
       | Some (height, tipHash) \<Rightarrow> bindA (BlockHashAt env height) (\<lambda>nodeHash.
           if nodeHash = Some tipHash then retA (height + 1)
           else bindA (findFork env height) (\<lambda>fork. bindA (store_Rollback env fork) (\<lambda>_. retA (fork + 1)))))"
    by (auto split: option.split intro!: total_ret total_bind [OF healthy_BlockHashAt [OF assms]]
        total_bind [OF healthy_findFork [OF assms]] total_bind [OF healthy_Rollback [OF assms]])
qed

lemma triple_ask_exact:
  "(\<And>t. f (env t) = Inr x) \<Longrightarrow> triple (on_chain env c0 c) (ask env f) (\<lambda>r s. on_chain env c0 c s \<and> r = x) (\<lambda>_. False)"
  by (intro tripleI) (auto simp: ask_def)

lemma healthy_time:
  assumes "healthy env c' blk idx"
  shows "triple (on_chain env c0 c) (blockTime cf env x) (\<lambda>_. on_chain env c0 c) (\<lambda>_. False)"
proof (rule triple_total [OF blockTime_triple])
  have "\<exists>v. moTime (env t) x = Inr v" for t using assms by (simp add: healthy_def)
  then have "\<exists>y. bindE (moTime (env t) x) (\<lambda>v. Inr (Some v)) = Inr y" for t by (metis bindE_Inr)
  then show "never_fails (on_chain env c0 c) (blockTime cf env x)"
    unfolding blockTime_def by (auto intro: total_ask total_ret)
qed

lemma main_total: "triple (on_chain env c0 c) (mainHeight cf env x) (\<lambda>_. on_chain env c0 c) (\<lambda>_. False)"
proof (rule triple_total [OF mainHeight_triple])
  show "never_fails (on_chain env c0 c) (mainHeight cf env x)"
    unfolding mainHeight_def by (auto intro!: total_ask total_ret split: sum.split)
qed

lemma healthy_applyHeight:
  assumes ok: "healthy env c' blk idx" and w: "writable cf env c' blk idx" and i: "i < length c'"
  shows "never_fails (on_chain env c0 (take i c')) (applyHeight cf env (of_nat i))"
  unfolding applyHeight_def
proof (rule triple_bind, rule triple_total [OF _ healthy_BlockHashAt [OF ok]])
  let ?x = "c' ! i" and ?P = "on_chain env c0 (take i c')"
  have env: "serves env c'" using ok by (simp add: healthy_def)
  have x: "?x \<in> set c'" using i by simp
  show "triple ?P (BlockHashAt env (of_nat i)) (\<lambda>r s. ?P s \<and> r = Some ?x) (traced env c0)"
    by (rule triple_conseq [OF BlockHashAt_triple]) (use serves_at [OF env i] in auto)
  have rest: "never_fails ?P (bindA (blockTime cf env m) (\<lambda>time.
       bindA (liftA (Prepare (cfBlake3 cf) (of_nat i) ?x (blk ?x) (idx ?x) (cfDecoder cf) time)) (\<lambda>write.
       bindA (mainHeight cf env m') (\<lambda>main.
       bindA (store_write env (\<lambda>pg. Apply pg (write\<lparr>sbMainHeight := main\<rparr>))) (\<lambda>unknown. retA True)))))" for m m'
  proof (rule triple_bind [OF healthy_time [OF ok]])
    fix bt
    obtain w where w: "Prepare (cfBlake3 cf) (of_nat i) ?x (blk ?x) (idx ?x) (cfDecoder cf) bt = Inr w"
      "\<And>t m d. wf_db d \<and> level d \<and> hashes d = take i c' \<Longrightarrow> \<exists>u d'. apply_tx (moPg (env t)) (w\<lparr>sbMainHeight := m\<rparr>) d = Inr (u, d')"
      using w i unfolding writable_def by blast
    have "never_fails ?P (store_write env (\<lambda>pg. Apply pg (w\<lparr>sbMainHeight := m\<rparr>)))" for m
    proof (rule total_write)
      fix t s assume "?P s"
      then obtain u d' where "apply_tx (moPg (env t)) (w\<lparr>sbMainHeight := m\<rparr>) (syDb s) = Inr (u, d')"
        using w(2) unfolding traced_def good_def by blast
      then show "\<exists>r d. Apply (moPg (env t)) (w\<lparr>sbMainHeight := m\<rparr>) (syDb s) = (Inr r, d)"
        by (simp add: Apply_def inTx_no_fault healthy_pg [OF ok])
    qed (simp add: traced_meddled)
    then show "never_fails ?P (bindA (liftA (Prepare (cfBlake3 cf) (of_nat i) ?x (blk ?x) (idx ?x) (cfDecoder cf) bt)) (\<lambda>write.
       bindA (mainHeight cf env m') (\<lambda>main.
       bindA (store_write env (\<lambda>pg. Apply pg (write\<lparr>sbMainHeight := main\<rparr>))) (\<lambda>unknown. retA True))))"
      unfolding w(1) liftA_Inr bindA_retA by (intro triple_bind [OF main_total]) (rule total_bind, auto intro: total_ret)
  qed
  have blk: "triple ?P (GetBlock env ?x) (\<lambda>r s. ?P s \<and> r = Some (blk ?x)) (\<lambda>_. False)"
    unfolding GetBlock_def by (rule triple_ask_exact) (use ok x in \<open>simp add: healthy_def\<close>)
  have idx: "triple ?P (GetBlockIndex env ?x) (\<lambda>r s. ?P s \<and> r = idx ?x) (\<lambda>_. False)"
    unfolding GetBlockIndex_def by (rule triple_ask_exact) (use ok x in \<open>simp add: healthy_def\<close>)
  show "never_fails (\<lambda>s. ?P s \<and> found = Some ?x) (case found of None \<Rightarrow> retA False
       | Some hash \<Rightarrow>
         bindA (GetBlock env hash) (\<lambda>blk.
           case blk of None \<Rightarrow> failA ErrNoHeader
           | Some block \<Rightarrow>
             bindA (GetBlockIndex env hash) (\<lambda>blockIndex.
             bindA (blockTime cf env (hPrevMainHash (bkHeader block))) (\<lambda>time.
             bindA (liftA (Prepare (cfBlake3 cf) (of_nat i) hash block blockIndex (cfDecoder cf) time)) (\<lambda>write.
             bindA (mainHeight cf env (hPrevMainHash (bkHeader block))) (\<lambda>main.
             bindA (store_write env (\<lambda>pg. Apply pg (write\<lparr>sbMainHeight := main\<rparr>))) (\<lambda>unknown.
               retA True)))))))" for found
  proof (cases "found = Some ?x")
    case True
    show ?thesis
      unfolding True option.case
      by (rule triple_if, rule triple_bind [OF blk], rule triple_if) (auto intro!: triple_bind [OF idx] triple_if rest)
  qed (simp add: triple_def)
qed

lemma healthy_step:
  assumes ok: "healthy env c' blk idx" and w: "writable cf env c' blk idx" and i: "i < length c'"
  shows "triple (on_chain env c0 (take i c')) (bindA (applyHeight cf env (of_nat i)) (\<lambda>applied.
       if applied then bindA (check_ctx env) (\<lambda>_. retA True) else retA False))
     (\<lambda>go s. on_chain env c0 (take (Suc i) c') s \<and> go) (\<lambda>_. False)"
proof (rule triple_bind)
  have env: "serves env c'" and len: "length c' \<le> 2 ^ 31" using ok by (simp_all add: healthy_def serves_def)
  have h: "unat (of_nat i :: u32) = length (take i c')" "length (take i c') < 2 ^ 31"
    using i len by (simp_all add: unat_of_nat_small)
  show "triple (on_chain env c0 (take i c')) (applyHeight cf env (of_nat i)) (applied_post env c0 (take i c') (of_nat i)) (\<lambda>_. False)"
    using applyHeight_triple [OF serves_wf_env [OF env] h] healthy_applyHeight [OF ok w i] by (rule triple_total)
  have post: "r \<and> on_chain env c0 (take (Suc i) c') s" if "applied_post env c0 (take i c') (of_nat i) r s" for r s
    using that i serves_at [OF env i] by (auto simp: applied_post_def take_Suc_conv_app_nth split: if_splits)
  have ctx: "triple (on_chain env c0 (take (Suc i) c')) (check_ctx env) (\<lambda>r s. on_chain env c0 (take (Suc i) c') s \<and> r = ()) (\<lambda>_. False)"
    unfolding check_ctx_def by (rule triple_ask_exact) (use ok in \<open>simp add: healthy_def\<close>)
  fix r
  show "triple (applied_post env c0 (take i c') (of_nat i) r) (if r then bindA (check_ctx env) (\<lambda>_. retA True) else retA False)
      (\<lambda>go s. on_chain env c0 (take (Suc i) c') s \<and> go) (\<lambda>_. False)"
  proof (cases r)
    case True
    have "triple (on_chain env c0 (take (Suc i) c')) (bindA (check_ctx env) (\<lambda>_. retA True))
        (\<lambda>go s. on_chain env c0 (take (Suc i) c') s \<and> go) (\<lambda>_. False)"
      by (rule triple_bind [OF ctx]) (auto intro: triple_ret)
    then show ?thesis unfolding if_P [OF True] by (rule triple_conseq) (use post in blast)+
  next
    case False
    then show ?thesis using post by (auto intro!: triple_ret)
  qed
qed

lemma healthy_loop:
  assumes ok: "healthy env c' blk idx" and w: "writable cf env c' blk idx" and "k \<le> length c'"
  shows "triple (on_chain env c0 (take k c')) (applyHeights cf env (map of_nat [k ..< length c']))
     (\<lambda>done s. on_chain env c0 c' s \<and> done) (\<lambda>_. False)"
  using assms(3)
proof (induction "length c' - k" arbitrary: k)
  case 0
  then show ?case by (auto simp: applyHeights_simps intro!: triple_ret)
next
  case (Suc n)
  then have k: "k < length c'" by simp
  then have list: "map of_nat [k ..< length c'] = (of_nat k :: u32) # map of_nat [Suc k ..< length c']"
    by (simp add: upt_conv_Cons)
  have "triple (on_chain env c0 (take (Suc k) c')) (applyHeights cf env (map of_nat [Suc k ..< length c']))
     (\<lambda>done s. on_chain env c0 c' s \<and> done) (\<lambda>_. False)"
    using Suc k by (intro Suc.hyps(1)) auto
  then show ?case
    unfolding list applyHeights_simps by (intro triple_bind [OF healthy_step [OF ok w k]] triple_if) simp
qed

lemma healthy_backfill:
  assumes ok: "healthy env c' blk idx" and w: "writable cf env c' blk idx"
  shows "triple (on_chain env c0 c') (backfillMainHeights cf env) (\<lambda>_. on_chain env c0 c') (\<lambda>_. False)"
proof (rule triple_total [OF backfill_keeps])
  have set: "never_fails (\<lambda>_. True) (store_write env (\<lambda>pg. SetMainHeight pg h m))" for h m
    by (rule total_write) (use healthy_pg [OF ok] in \<open>simp add: SetMainHeight_def autocommit_no_fault\<close>)
  have ctx: "never_fails (\<lambda>_. True) (check_ctx env)"
    unfolding check_ctx_def by (rule total_ask) (use ok in \<open>simp add: healthy_def\<close>)
  have main: "never_fails (\<lambda>_. True) (mainHeight cf env x)" for x
    unfolding mainHeight_def by (auto intro!: total_ask total_ret split: sum.split)
  have each: "never_fails (\<lambda>_. True) (eachA (\<lambda>b. bindA (mainHeight cf env (bwMainHash b)) (\<lambda>height.
            case height of None \<Rightarrow> retA ()
            | Some h \<Rightarrow> bindA (store_write env (\<lambda>pg. SetMainHeight pg (bwHeight b) h)) (\<lambda>_. check_ctx env))) blocks)" for blocks
    by (induction blocks) (auto intro!: total_ret total_bind [OF main] total_bind [OF set] total_bind ctx split: option.split)
  have "never_fails (on_chain env c0 c') (store_read env (\<lambda>pg. BlocksMissingMainHeight pg backfillHeightsPerPass))"
    if "cfHeights cf"
    by (rule total_read) (auto simp: traced_meddled, use w that in \<open>auto simp: writable_def traced_def good_def\<close>)
  then show "never_fails (on_chain env c0 c') (backfillMainHeights cf env)"
    unfolding backfillMainHeights_def by (auto intro!: total_ret total_bind each)
qed

text \<open>The index and the node share the first block, and a common hash means a common past.\<close>

definition shared_past :: "hash list \<Rightarrow> hash list \<Rightarrow> bool" where
  "shared_past c c' \<longleftrightarrow> (c \<noteq> [] \<longrightarrow> agree c c' 0) \<and> (\<forall>i. agree c c' i \<longrightarrow> take (Suc i) c = take (Suc i) c')"

lemma kept_shared:
  assumes "kept c c' d" and "shared_past c c'"
  shows "d = take (length d) c'"
proof (cases "c = []")
  case False
  then obtain i where i: "agree c c' i" "d = take (Suc i) c"
    using assms by (auto simp: kept_def shared_past_def split: if_splits)
  then have "d = take (Suc i) c'" using assms(2) by (simp add: shared_past_def)
  moreover have "length d = Suc i" using i by (simp add: agree_def)
  ultimately show ?thesis by simp
qed (use assms in \<open>simp add: kept_def\<close>)

lemma healthy_read_tip:
  assumes "healthy env c' blk idx"
  shows "triple (on_chain env c0 c) (read_tip env) (\<lambda>r s. on_chain env c0 c s \<and> (\<exists>tip. r = Some tip \<and> Suc (unat tip) = length c')) (\<lambda>_. False)"
proof (rule triple_conseq [OF triple_total [OF read_tip_triple]])
  have env: "serves env c'" using assms by (simp add: healthy_def)
  have "TipHeight (moNode (env t)) \<noteq> Inl e" for t e
  proof -
    obtain n where "ndCount (moNode (env t)) = Inr n" using assms unfolding healthy_def by blast
    then show ?thesis using serves_tip(1) [OF env refl, of t] by (auto simp: TipHeight_def split: if_splits)
  qed
  then show "never_fails (on_chain env c0 c) (read_tip env)"
    by (intro tripleI) (auto simp: read_tip_def ask_def split: sum.splits error.splits)
  fix r s assume "on_chain env c0 c s \<and> (\<exists>t. case r of None \<Rightarrow> TipHeight (moNode (env t)) = Inl ErrEmptyChain
       | Some tip \<Rightarrow> TipHeight (moNode (env t)) = Inr tip)"
  then show "on_chain env c0 c s \<and> (\<exists>tip. r = Some tip \<and> Suc (unat tip) = length c')"
    using serves_tip [OF env refl] by (cases r) auto
qed auto

lemma Once_live:
  assumes ok: "healthy env c' blk idx" and w: "writable cf env c' blk idx" and past: "shared_past c c'"
  shows "triple (on_chain env c0 c) (Once cf env) (\<lambda>_. on_chain env c0 c') (\<lambda>_. False)"
proof -
  have env: "serves env c'" using ok by (simp add: healthy_def)
  have start: "triple (on_chain env c0 c) (resolveStart env) (started env c0 c c') (\<lambda>_. False)"
    using resolveStart_stable [OF env] healthy_resolveStart [OF ok] by (rule triple_total)
  have finish: "triple (started env c0 c c' next) (bindA (applyHeights cf env (heights next tip)) (\<lambda>done.
           if done then backfillMainHeights cf env else retA ())) (\<lambda>_. on_chain env c0 c') (\<lambda>_. False)"
    if tip: "Suc (unat tip) = length c'" for "next" tip
  proof (rule triple_state)
    fix s assume s: "started env c0 c c' next s"
    let ?k = "length (chain_of s)"
    have k: "?k \<le> length c'" "chain_of s = take ?k c'"
      using s kept_length [of c c' "chain_of s"] kept_shared [OF _ past] env by (auto simp: started_def serves_def)
    have hs: "heights next tip = map of_nat [?k ..< length c']"
      using s tip by (simp add: heights_def started_def)
    have loop: "triple (\<lambda>t. t = s) (applyHeights cf env (heights next tip)) (\<lambda>done s. on_chain env c0 c' s \<and> done) (\<lambda>_. False)"
      unfolding hs by (rule triple_conseq [OF healthy_loop [OF ok w k(1)]]) (use s k(2) in \<open>auto simp: started_def\<close>)
    show "triple (\<lambda>t. t = s) (bindA (applyHeights cf env (heights next tip)) (\<lambda>done.
           if done then backfillMainHeights cf env else retA ())) (\<lambda>_. on_chain env c0 c') (\<lambda>_. False)"
      by (rule triple_bind [OF loop], rule triple_if) (simp add: healthy_backfill [OF ok w])
  qed
  have "triple (on_chain env c0 c) (ask env moGetNode) (\<lambda>r s. on_chain env c0 c s \<and> r = ()) (\<lambda>_. False)"
    and "triple (on_chain env c0 c) (ask env moGetStore) (\<lambda>r s. on_chain env c0 c s \<and> r = ()) (\<lambda>_. False)"
    by (rule triple_ask_exact; use ok in \<open>simp add: healthy_def\<close>)+
  note get = this
  show ?thesis
    unfolding Once_def
    by (intro triple_bind [OF get(1)] triple_bind [OF get(2)] triple_bind [OF healthy_read_tip [OF ok]] triple_if)
       (auto intro!: triple_bind [OF start] finish)
qed

lemma never_failsD:
  assumes "triple P m Q (\<lambda>_. False)" and "P s"
  obtains x s' where "m s = (Inr x, s')" and "Q x s'"
proof (cases "m s")
  case (Pair r s')
  then show thesis using that triple_InlD [OF assms] triple_InrD [OF assms] by (cases r) blast+
qed

lemma Once_lives:
  assumes "healthy env c' blk idx" and "writable cf env c' blk idx" and "good s" and "shared_past (chain_of s) c'"
  shows "\<exists>s'. Once cf env s = (Inr (), s') \<and> chain_of s' = c' \<and> good s'"
proof -
  have "on_chain env (chain_of s) (chain_of s) s" using assms(3) by (simp add: traced_def)
  with Once_live [OF assms(1,2,4)] obtain x s' where "Once cf env s = (Inr x, s')" "on_chain env (chain_of s) c' s'"
    by (rule never_failsD)
  then show ?thesis by (auto simp: traced_def)
qed

text \<open>A pass that has nothing to apply above what it keeps.\<close>

lemma Once_nothing_new:
  assumes ok: "healthy env c' blk idx" and "\<not> cfHeights cf" and "good s"
    and all: "\<And>d. kept (chain_of s) c' d \<Longrightarrow> length d = length c'"
  shows "\<exists>s'. Once cf env s = (Inr (), s')"
proof -
  let ?c = "chain_of s"
  have "serves env c'" using ok by (simp add: healthy_def)
  then have start: "triple (on_chain env ?c ?c) (resolveStart env) (started env ?c ?c c') (\<lambda>_. False)"
    using triple_total [OF resolveStart_stable healthy_resolveStart [OF ok]] by blast
  have "triple (started env ?c ?c c' next) (bindA (applyHeights cf env (heights next tip)) (\<lambda>done.
           if done then backfillMainHeights cf env else retA ())) (\<lambda>_ _. True) (\<lambda>_. False)"
    if "Suc (unat tip) = length c'" for "next" tip
  proof (rule triple_state)
    fix t assume "started env ?c ?c c' next t"
    then have "heights next tip = []"
      using that all by (auto simp: started_def heights_def)
    then show "never_fails (\<lambda>u. u = t) (bindA (applyHeights cf env (heights next tip)) (\<lambda>done.
           if done then backfillMainHeights cf env else retA ()))"
      using assms(2) by (simp add: applyHeights_simps backfillMainHeights_def total_ret)
  qed
  note finish = triple_bind [OF start this]
  have "triple (on_chain env ?c ?c) (ask env moGetNode) (\<lambda>r s. on_chain env ?c ?c s \<and> r = ()) (\<lambda>_. False)"
    and "triple (on_chain env ?c ?c) (ask env moGetStore) (\<lambda>r s. on_chain env ?c ?c s \<and> r = ()) (\<lambda>_. False)"
    by (rule triple_ask_exact; use ok in \<open>simp add: healthy_def\<close>)+
  note get = this
  have "never_fails (on_chain env ?c ?c) (Once cf env)"
    unfolding Once_def
    by (intro triple_bind [OF get(1)] triple_bind [OF get(2)] triple_bind [OF healthy_read_tip [OF ok]] triple_if)
       (auto intro!: finish)
  moreover have "on_chain env ?c ?c s" using assms(3) by (simp add: traced_def)
  ultimately obtain u s' where "Once cf env s = (Inr u, s')" by (rule never_failsD)
  then show ?thesis by auto
qed

end
