(* ===== verification/Sync_Properties.thy ===== *)
theory Sync_Properties
  imports Sync_Stable Store_Properties
begin

text \<open>
  The properties of a pass of the sync loop: it keeps the index well-formed and level and takes blocks
  only from the node, whatever fails; against a node that stands still a pass that succeeds leaves the
  index on the node's chain, after a rollback to the highest common block and no further; and it does
  succeed when nothing fails.
\<close>

subsection \<open>A concrete pass\<close>

text \<open>
  The index of the example holds the hashes 10 and 11. The node has a branch of the hashes given to it,
  all of its blocks empty, and everything else answers.
\<close>

definition ex_empty_block :: block where
  "ex_empty_block = \<lparr>bkHeader = \<lparr>hMerkleRoot = ex_hash 4, hPrevSideHash = None, hPrevMainHash = ex_hash 5\<rparr>,
     bkBody = \<lparr>bdCoinbase = \<lparr>cbMemo = [], cbOutputs = [], cbKeyedByTxid = False\<rparr>,
               bdTransactions = [], bdAuthorizations = []\<rparr>\<rparr>"

definition ex_node :: "hash list \<Rightarrow> node" where
  "ex_node c = \<lparr>ndCount = Inr (of_nat (length c)), ndHashAt = \<lambda>h. Inr (lookup_hash c h),
     ndBlock = \<lambda>_. Inr (Some ex_empty_block),
     ndIndex = \<lambda>_. Inr \<lparr>biTxs = [], biDeposits = [], biBundleSpends = [], biMarketCreates = [], biMarketDeletes = []\<rparr>,
     ndMempool = Inr [], ndSubmit = \<lambda>_. Inr (ex_hash 9), ndPending = Inr None, ndLastFailed = Inr None\<rparr>"

definition ex_env :: "hash list \<Rightarrow> env" where
  "ex_env c t = \<lparr>moNode = ex_node c, moGetNode = Inr (), moGetStore = Inr (), moPg = ex_pg,
     moTime = \<lambda>_. Inr 0, moHeight = \<lambda>_. Inr None, moNow = 0, moCancelled = False,
     moOthers = [(ex_pg, 0, \<lparr>smTxs = [], smCreates = [], smSpends = []\<rparr>)]\<rparr>"

definition ex_config :: config where
  "ex_config = \<lparr>cfDecoder = thunder_DecodeContent, cfTimes = False, cfHeights = False, cfBlake3 = \<lambda>_. ex_hash 0\<rparr>"

definition ex_index :: syst where
  "ex_index = \<lparr>syDb = ex_db1, syClock = 0, syDrops = 0\<rparr>"

lemma ex_hash_wf: "wf_hash (ex_hash n)"
  by (simp add: wf_hash_def)

lemma ex_index_good: "good ex_index" and ex_index_chain: "chain_of ex_index = [ex_hash 10, ex_hash 11]"
proof -
  have "level ex_db1" "hashes ex_db1 = hashes ex_db0 @ [ex_hash 11]"
    using level_apply_tx [OF apply_block1 ex_db0_level] by (simp_all add: ex_db0_blocks ex_block1_def wf_hash_def)
  then show "good ex_index" "chain_of ex_index = [ex_hash 10, ex_hash 11]"
    by (simp_all add: good_def ex_index_def ex_db1_wf ex_db1_blocks hashes_def ex_db0_blocks block_row_of_def ex_genesis_def)
qed

lemma ex_serves: "c \<noteq> [] \<and> length c \<le> 2 ^ 31 \<and> (\<forall>x \<in> set c. wf_hash x) \<Longrightarrow> serves (ex_env c) c"
  by (simp add: serves_def ex_env_def ex_node_def)

lemma ex_branch: "[ex_hash 10, ex_hash 12] \<noteq> [] \<and> length [ex_hash 10, ex_hash 12] \<le> 2 ^ 31 \<and> (\<forall>x \<in> set [ex_hash 10, ex_hash 12]. wf_hash x)"
  by (simp add: ex_hash_wf)

lemma ex_shared_past: "shared_past (chain_of ex_index) [ex_hash 10, ex_hash 12]"
proof -
  have "take (Suc i) [ex_hash 10, ex_hash 11] = take (Suc i) [ex_hash 10, ex_hash 12]"
    if "agree [ex_hash 10, ex_hash 11] [ex_hash 10, ex_hash 12] i" for i
    using that by (cases i) (auto simp: agree_def less_Suc_eq)
  moreover have "agree [ex_hash 10, ex_hash 11] [ex_hash 10, ex_hash 12] 0" by (simp add: agree_def)
  ultimately show ?thesis unfolding shared_past_def ex_index_chain by blast
qed

abbreviation ex_no_txs :: block_index where
  "ex_no_txs \<equiv> \<lparr>biTxs = [], biDeposits = [], biBundleSpends = [], biMarketCreates = [], biMarketDeletes = []\<rparr>"

text \<open>A block without rows is accepted on top of any well-formed index that does not hold it.\<close>

lemma apply_empty:
  assumes pg: "no_fault pg" and "wf_db d" and "level d" and "sbTxs b = []" "sbCreates b = []" "sbSpends b = []"
    and h: "unat (sbHeight b) = length (dbBlocks d)" "unat (sbHeight b) < 2 ^ 31" and "sbHash b \<notin> set (hashes d)"
  shows "\<exists>u d'. apply_tx pg b d = Inr (u, d')"
proof -
  have bh: "int32_of_u32 (sbHeight b) = int (length (dbBlocks d))" using h int32_of_u32_small [OF h(2)] by simp
  have "map brHeight (dbBlocks d) = map int [0..<length (dbBlocks d)]" using assms(3) by (simp add: level_def)
  then have heights: "brHeight ` set (dbBlocks d) = int ` {0..<length (dbBlocks d)}" by (metis list.set_map set_upt)
  then have "xrHeight t \<noteq> int (length (dbBlocks d))" if "t \<in> set (dbTxs d)" for t
    using assms(2) that by (auto simp: wf_db_def wf_txs_def)
  then have "mapE (set_fee outs (int (length (dbBlocks d)))) (dbTxs d) = Inr (dbTxs d)" for outs
    using mapE_pure [of "dbTxs d" "set_fee outs (int (length (dbBlocks d)))" "\<lambda>t. t"] by (simp add: set_fee_def)
  moreover have "int (length (dbBlocks d)) \<notin> brHeight ` set (dbBlocks d)" using heights by auto
  ultimately show ?thesis
    using assms(4-6,9) pg by (simp add: apply_tx_def insertBlock_def insertTxs_def insertOutputs_def applySpends_def setFees_def
        clearMempool_def clear_when_def setTip_def Let_def block_row_of_def bh hashes_def)
qed

lemma ex_writable: "writable ex_config (ex_env [ex_hash 10, ex_hash 12]) [ex_hash 10, ex_hash 12] (\<lambda>_. ex_empty_block) (\<lambda>_. ex_no_txs)"
  unfolding writable_def
proof (intro conjI allI impI)
  let ?c = "[ex_hash 10, ex_hash 12]"
  fix i and bt :: "int option" assume i: "i < length ?c"
  let ?p = "Prepare (cfBlake3 ex_config) (of_nat i) (?c ! i) ex_empty_block ex_no_txs (cfDecoder ex_config) bt"
  obtain w where w: "?p = Inr w" "sbTxs w = []" "sbCreates w = []" "sbSpends w = []" "sbHeight w = of_nat i" "sbHash w = ?c ! i"
    by (simp add: Prepare_def prepare_coinbase_def prepare_txs_def prepare_deposits_def prepare_market_def
        bundle_spends_def market_spends_def ex_empty_block_def indexed_def)
  have "\<exists>u d'. apply_tx ex_pg (w\<lparr>sbMainHeight := m\<rparr>) d = Inr (u, d')"
    if d: "wf_db d \<and> level d \<and> hashes d = take i ?c" for m d
  proof (rule apply_empty)
    have "length (dbBlocks d) = i" using d i by (metis hashes_def length_map length_take min.absorb4)
    then show "unat (sbHeight (w\<lparr>sbMainHeight := m\<rparr>)) = length (dbBlocks d)" using i w(5) by (simp add: unat_of_nat_small)
    show "unat (sbHeight (w\<lparr>sbMainHeight := m\<rparr>)) < 2 ^ 31" using i w(5) by (simp add: unat_of_nat_small)
    show "sbHash (w\<lparr>sbMainHeight := m\<rparr>) \<notin> set (hashes d)" using d i w(6) by (auto simp: less_Suc_eq)
  qed (use d w in simp_all)
  then show "\<exists>w. ?p = Inr w \<and> (\<forall>t m d. wf_db d \<and> level d \<and> hashes d = take i ?c
        \<longrightarrow> (\<exists>u d'. apply_tx (moPg (ex_env ?c t)) (w\<lparr>sbMainHeight := m\<rparr>) d = Inr (u, d')))"
    using w(1) by (simp add: ex_env_def)
qed (simp add: ex_config_def)

lemma ex_healthy_at:
  assumes "c \<noteq> [] \<and> length c \<le> 2 ^ 31 \<and> (\<forall>x \<in> set c. wf_hash x)"
  shows "healthy (ex_env c) c (\<lambda>_. ex_empty_block) (\<lambda>_. ex_no_txs)"
  unfolding healthy_def using ex_serves [OF assms] by (simp add: ex_env_def ex_node_def)

lemma ex_pass: "\<exists>s'. Once ex_config (ex_env [ex_hash 10, ex_hash 12]) ex_index = (Inr (), s')"
  using Once_lives [OF ex_healthy_at [OF ex_branch] ex_writable ex_index_good ex_shared_past] by blast

lemma kept_none: "c \<noteq> [] \<Longrightarrow> (\<And>i. \<not> agree c c' i) \<Longrightarrow> kept c c' d \<Longrightarrow> d = [hd c]"
  by (cases c) (auto simp: kept_def)

lemma kept_tip:
  assumes "agree c c' (length c - 1)" and "kept c c' d"
  shows "d = c"
proof -
  have "c \<noteq> []" using assms(1) by (auto simp: agree_def)
  then obtain i where i: "agree c c' i" "length c - 1 \<le> i" "d = take (Suc i) c"
    using assms by (auto simp: kept_def split: if_splits)
  then show ?thesis by (simp add: agree_def)
qed

lemma ex_no_common: "\<not> agree (chain_of ex_index) [ex_hash 13] i"
  by (cases i) (simp_all add: agree_def ex_index_chain)

lemma ex_foreign_pass: "\<exists>s'. Once ex_config (ex_env [ex_hash 13]) ex_index = (Inr (), s')"
proof (rule Once_nothing_new [OF ex_healthy_at])
  show "length d = length [ex_hash 13]" if "kept (chain_of ex_index) [ex_hash 13] d" for d
    using kept_none [OF _ ex_no_common that] by (simp add: ex_index_chain)
qed (simp_all add: ex_config_def ex_index_good ex_hash_wf)

lemma ex_stale_pass: "\<exists>s'. Once ex_config (ex_env [ex_hash 13, ex_hash 11]) ex_index = (Inr (), s')"
proof (rule Once_nothing_new [OF ex_healthy_at])
  have "agree (chain_of ex_index) [ex_hash 13, ex_hash 11] (length (chain_of ex_index) - 1)"
    by (simp add: agree_def ex_index_chain)
  then show "length d = length [ex_hash 13, ex_hash 11]" if "kept (chain_of ex_index) [ex_hash 13, ex_hash 11] d" for d
    using kept_tip [OF _ that] by (simp add: ex_index_chain)
qed (simp_all add: ex_config_def ex_index_good ex_hash_wf)

subsection \<open>Properties\<close>

text \<open>
  C1. Whatever happens during a pass of the sync loop, it leaves a sound index. For a node that answers
  every call as it likes (fails, reorganizes or loses blocks between two calls), a Postgres that fails any
  statement, aborts any commit or loses its answer, an enforcer that fails, a context that ends at any
  call and a mempool loop that replaces the unconfirmed set between any two calls, the pass ends, with success or an error, in tables that satisfy the store's invariant and form an
  unbroken chain from height 0 to the recorded tip; and each of its blocks was at that height before
  or was named by the node for that height.
\<close>

theorem Once_safe:
  assumes "wf_env env" and "good s" and "Once cf env s = (r, s')"
  shows "good s' \<and> derived env (chain_of s) (chain_of s')"
proof -
  have "on_chain env (chain_of s) (chain_of s) s" using assms(2) by (simp add: traced_def)
  note result = Once_traced [OF assms(1), of "chain_of s" "chain_of s" cf] this
  have "traced env (chain_of s) s'"
    using assms(3) triple_InlD [OF result] triple_InrD [OF result] by (cases r) blast+
  then show ?thesis by (simp add: traced_def)
qed

theorem Once_safe_witness:
  "good (snd (Once ex_config (ex_env [ex_hash 10, ex_hash 12]) ex_index))
   \<and> derived (ex_env [ex_hash 10, ex_hash 12]) (chain_of ex_index) (chain_of (snd (Once ex_config (ex_env [ex_hash 10, ex_hash 12]) ex_index)))"
  by (rule Once_safe [OF serves_wf_env [OF ex_serves [OF ex_branch]] ex_index_good]) (rule surjective_pairing)

text \<open>
  C3. A pass that reports success against a node that stands still, with any transactions of the mempool loop in between, leaves the index on exactly the
  node's chain, whether the node is ahead of it, behind it or on another branch, as long as the two share
  their first block and a common hash means a common past.
\<close>

theorem Once_converges:
  assumes "serves env c'" and "good s" and "shared_past (chain_of s) c'" and "Once cf env s = (Inr (), s')"
  shows "chain_of s' = c'"
proof -
  obtain d where d: "kept (chain_of s) c' d" "chain_of s' = d @ drop (length d) c'"
    using assms(1,2,4) by (rule Once_ends)
  show ?thesis using d(2) kept_shared [OF d(1) assms(3)] by (metis append_take_drop_id)
qed

theorem Once_converges_witness:
  "\<exists>s'. Once ex_config (ex_env [ex_hash 10, ex_hash 12]) ex_index = (Inr (), s')
     \<and> hashes (syDb s') = [ex_hash 10, ex_hash 12]"
proof -
  obtain s' where "Once ex_config (ex_env [ex_hash 10, ex_hash 12]) ex_index = (Inr (), s')" using ex_pass ..
  with Once_converges [OF ex_serves [OF ex_branch] ex_index_good ex_shared_past this] show ?thesis by blast
qed




text \<open>
  C25. When the node shares no block with the index, the pass keeps the first block of the index and
  builds the rest of the node's chain on it: the tip then matches the node's, later passes see no reorg,
  and the foreign first block stays.
\<close>

theorem foreign_genesis_stays:
  assumes "serves env c'" and "good s" and "Once cf env s = (Inr (), s')"
    and "chain_of s \<noteq> []" and "\<And>i. \<not> agree (chain_of s) c' i"
  shows "chain_of s' = hd (chain_of s) # tl c' \<and> hd (chain_of s) \<noteq> hd c'"
proof -
  obtain d where d: "kept (chain_of s) c' d" "chain_of s' = d @ drop (length d) c'"
    using assms(1-3) by (rule Once_ends)
  have "c' \<noteq> []" using assms(1) by (simp add: serves_def)
  then have "hd (chain_of s) \<noteq> hd c'" using assms(5) [of 0] assms(4) by (simp add: agree_def hd_conv_nth)
  moreover have "d = [hd (chain_of s)]" using kept_none [OF assms(4,5) d(1)] .
  ultimately show ?thesis using d(2) by (simp add: drop_Suc)
qed

theorem foreign_genesis_stays_witness:
  "\<exists>s'. Once ex_config (ex_env [ex_hash 13]) ex_index = (Inr (), s') \<and> chain_of s' = [ex_hash 10]"
proof -
  obtain s' where s': "Once ex_config (ex_env [ex_hash 13]) ex_index = (Inr (), s')" using ex_foreign_pass ..
  from foreign_genesis_stays [OF ex_serves ex_index_good s' _ ex_no_common] s' show ?thesis
    by (auto simp: ex_index_chain ex_hash_wf)
qed

text \<open>
  C24. The loop trusts a matching tip: when the block at the index tip is the node's block of that
  height, a pass against a node with no more blocks leaves the chain of the index as it is, whatever lies
  below. A block of an abandoned branch under a matching tip, which a reorganization between two blocks of
  one pass leaves behind because no block is compared with its predecessor, is never removed.
\<close>

theorem matching_tip_is_trusted:
  assumes "serves env c'" and "good s" and "Once cf env s = (Inr (), s')"
    and "length (chain_of s) = length c'" and "last (chain_of s) = last c'"
  shows "chain_of s' = chain_of s"
proof -
  obtain d where d: "kept (chain_of s) c' d" "chain_of s' = d @ drop (length d) c'"
    using assms(1-3) by (rule Once_ends)
  have "c' \<noteq> []" using assms(1) by (simp add: serves_def)
  moreover have "chain_of s \<noteq> []" using assms(4) calculation by auto
  ultimately have "agree (chain_of s) c' (length (chain_of s) - 1)"
    using assms(4,5) by (simp add: agree_def last_conv_nth)
  then have "d = chain_of s" using d(1) by (rule kept_tip)
  then show ?thesis using d(2) assms(4) by simp
qed

theorem matching_tip_is_trusted_witness:
  "\<exists>s'. Once ex_config (ex_env [ex_hash 13, ex_hash 11]) ex_index = (Inr (), s')
     \<and> chain_of s' = [ex_hash 10, ex_hash 11]"
proof -
  obtain s' where s': "Once ex_config (ex_env [ex_hash 13, ex_hash 11]) ex_index = (Inr (), s')" using ex_stale_pass ..
  from matching_tip_is_trusted [OF ex_serves ex_index_good s'] s' show ?thesis
    by (auto simp: ex_index_chain ex_hash_wf)
qed

end
