(* ===== verification/Node_Rpc.thy ===== *)
theory Node_Rpc
  imports Wire Sync_Properties
begin

text \<open>
  The JSON-RPC client of \<open>internal/rpc/client.go\<close>, the node methods of \<open>internal/chain/node.go\<close> over
  it, and the node of \<open>internal/e2e/fakenode.go\<close> that the end-to-end tests run the client against. The
  sync loop takes a \<open>node\<close>, a record of answers; \<open>rpc_node\<close> is that record for a client, so the
  two sides meet here. The text of an error is left out, and a request that cannot be
  built is one that gets no answer.
\<close>

subsection \<open>The client\<close>

record client =
  clURL :: string
  clHttp :: exchange
  clNextID :: "64 word"

definition NewWithHTTPClient :: "string \<Rightarrow> exchange \<Rightarrow> client" where
  "NewWithHTTPClient url httpClient = \<lparr>clURL = trim_slashes url, clHttp = httpClient, clNextID = 0\<rparr>"

text \<open>\<open>New\<close>, over the HTTP client with the default time-out.\<close>

definition rpc_New :: "exchange \<Rightarrow> string \<Rightarrow> client" where
  "rpc_New http url = \<lparr>clURL = trim_slashes url, clHttp = http, clNextID = 0\<rparr>"

record remote_error =
  reCode :: int
  reMessage :: string

record rpc_response =
  rrResult :: raw_message
  rrError :: "remote_error option"

definition remote_error_fields :: "remote_error fields" where
  "remote_error_fields =
    [(''code'', \<lambda>j s. bindE (un_int j (reCode s)) (\<lambda>x. Inr (s\<lparr>reCode := x\<rparr>))),
     (''message'', \<lambda>j s. bindE (un_string j (reMessage s)) (\<lambda>x. Inr (s\<lparr>reMessage := x\<rparr>)))]"

definition rpc_response_fields :: "rpc_response fields" where
  "rpc_response_fields =
    [(''result'', \<lambda>j s. Inr (s\<lparr>rrResult := Some j\<rparr>)),
     (''error'', \<lambda>j s. bindE (un_ptr (un_struct remote_error_fields) \<lparr>reCode = 0, reMessage = []\<rparr> j (rrError s))
        (\<lambda>x. Inr (s\<lparr>rrError := x\<rparr>)))]"

definition zero_response :: rpc_response where
  "zero_response = \<lparr>rrResult = None, rrError = None\<rparr>"

definition rpc_request :: "64 word \<Rightarrow> string \<Rightarrow> json \<Rightarrow> json" where
  "rpc_request i method params =
     JObj [(''jsonrpc'', JStr ''2.0''), (''id'', j_int (sint i)), (''method'', JStr method), (''params'', params)]"

text \<open>
  One call. A reply that is no response is an error of the transport when its status says so. A response
  with an error object is that error, whatever the status. The counter moves on in every case.
\<close>

definition Call :: "(json \<Rightarrow> string) \<Rightarrow> parser \<Rightarrow> client \<Rightarrow> string \<Rightarrow> json
    \<Rightarrow> (json \<Rightarrow> 'a \<Rightarrow> 'a res) option \<Rightarrow> 'a \<Rightarrow> 'a res \<times> client" where
  "Call print parse c method params out zero =
     (let i = clNextID c + 1 in
      (case clHttp c (clURL c) (print (rpc_request i method params)) of
         NoAnswer \<Rightarrow> Inl ErrHttp
       | Broken \<Rightarrow> Inl ErrHttp
       | Answer status raw \<Rightarrow>
           (case unmarshal parse (un_struct rpc_response_fields) raw zero_response of
              Inl e \<Rightarrow> if status \<noteq> 200 then Inl (ErrHttpStatus status) else Inl e
            | Inr parsed \<Rightarrow>
                (case rrError parsed of
                   Some e \<Rightarrow> Inl (ErrRemote (reCode e))
                 | None \<Rightarrow>
                     (case out of None \<Rightarrow> Inr zero
                      | Some un \<Rightarrow> un_raw (\<lambda>j. un j zero) (rrResult parsed)))),
       c\<lparr>clNextID := i\<rparr>))"

subsection \<open>The node methods\<close>

type_synonym 'a rpc = "(json \<Rightarrow> string) \<Rightarrow> parser \<Rightarrow> client \<Rightarrow> 'a res \<times> client"

definition rpc_BestBlockHash :: "hash option rpc" where
  "rpc_BestBlockHash print parse c = Call print parse c ''get_best_sidechain_block_hash'' JNull (Some un_hash_ptr) None"

definition rpc_BlockCount :: "u32 rpc" where
  "rpc_BlockCount print parse c = Call print parse c ''getblockcount'' JNull (Some un_uint) 0"

definition rpc_BlockHashAt :: "u32 \<Rightarrow> hash option rpc" where
  "rpc_BlockHashAt height print parse c = Call print parse c ''get_block_hash'' (JArr [j_uint height]) (Some un_hash_ptr) None"

definition rpc_GetBlock :: "(string \<Rightarrow> bytes option) \<Rightarrow> hash \<Rightarrow> block option rpc" where
  "rpc_GetBlock dec hash print parse c =
     Call print parse c ''get_block'' (JArr [Hash_MarshalJSON hash]) (Some (un_ptr (un_struct (block_fields dec)) zero_block)) None"

definition rpc_GetBlockIndex :: "(string \<Rightarrow> bytes option) \<Rightarrow> hash \<Rightarrow> block_index rpc" where
  "rpc_GetBlockIndex dec hash print parse c =
     Call print parse c ''get_block_index'' (JArr [Hash_MarshalJSON hash]) (Some (un_block_index dec)) zero_block_index"

definition rpc_SubmitTransaction :: "raw_message \<Rightarrow> hash rpc" where
  "rpc_SubmitTransaction tx print parse c =
     Call print parse c ''submit_transaction'' (JArr [case tx of None \<Rightarrow> JNull | Some j \<Rightarrow> j])
       (Some (\<lambda>j _. Hash_UnmarshalJSON j)) zero_hash"

definition rpc_ListMempool :: "(string \<Rightarrow> bytes option) \<Rightarrow> mempool_tx list rpc" where
  "rpc_ListMempool dec print parse c = Call print parse c ''list_mempool'' JNull (Some (\<lambda>j _. un_mempool dec j)) []"

definition rpc_PendingWithdrawalBundle :: "raw_message rpc" where
  "rpc_PendingWithdrawalBundle print parse c = Call print parse c ''pending_withdrawal_bundle'' JNull (Some (\<lambda>j _. Inr (Some j))) None"

definition rpc_LatestFailedWithdrawalBundleHeight :: "u32 option rpc" where
  "rpc_LatestFailedWithdrawalBundleHeight print parse c =
     Call print parse c ''latest_failed_withdrawal_bundle_height'' JNull (Some (un_ptr un_uint 0)) None"

text \<open>The node the sync loop sees through a client.\<close>

definition rpc_node :: "(string \<Rightarrow> bytes option) \<Rightarrow> (json \<Rightarrow> string) \<Rightarrow> parser \<Rightarrow> client \<Rightarrow> node" where
  "rpc_node dec print parse c =
     \<lparr>ndCount = fst (rpc_BlockCount print parse c),
      ndHashAt = \<lambda>h. fst (rpc_BlockHashAt h print parse c),
      ndBlock = \<lambda>h. fst (rpc_GetBlock dec h print parse c),
      ndIndex = \<lambda>h. fst (rpc_GetBlockIndex dec h print parse c),
      ndMempool = fst (rpc_ListMempool dec print parse c),
      ndSubmit = \<lambda>tx. fst (rpc_SubmitTransaction tx print parse c),
      ndPending = fst (rpc_PendingWithdrawalBundle print parse c),
      ndLastFailed = fst (rpc_LatestFailedWithdrawalBundleHeight print parse c)\<rparr>"

subsection \<open>The node of the end-to-end tests\<close>

record fake_node =
  fnChain :: "hash list"
  fnBlocks :: "hash \<Rightarrow> block option"
  fnIndex :: "hash \<Rightarrow> block_index option"
  fnSubmitted :: "json list"
  fnMempool :: "mempool_tx list"
  fnBundle :: raw_message
  fnFailedHeight :: "u32 option"

definition NewFakeNode :: fake_node where
  "NewFakeNode = \<lparr>fnChain = [], fnBlocks = Map.empty, fnIndex = Map.empty, fnSubmitted = [], fnMempool = [],
     fnBundle = None, fnFailedHeight = None\<rparr>"

definition AddBlock :: "hash \<Rightarrow> block \<Rightarrow> block_index \<Rightarrow> fake_node \<Rightarrow> fake_node" where
  "AddBlock hash block index n =
     n\<lparr>fnChain := fnChain n @ [hash], fnBlocks := (fnBlocks n)(hash \<mapsto> block), fnIndex := (fnIndex n)(hash \<mapsto> index)\<rparr>"

definition SetMempool :: "mempool_tx list \<Rightarrow> fake_node \<Rightarrow> fake_node" where
  "SetMempool txs n = n\<lparr>fnMempool := txs\<rparr>"

definition SetWithdrawalBundle :: "raw_message \<Rightarrow> u32 option \<Rightarrow> fake_node \<Rightarrow> fake_node" where
  "SetWithdrawalBundle bundle failedHeight n = n\<lparr>fnBundle := bundle, fnFailedHeight := failedHeight\<rparr>"

text \<open>The index \<open>height+1\<close> of the slice is a \<open>uint32\<close>, and the guard keeps it in range.\<close>

definition Reorg :: "u32 \<Rightarrow> fake_node \<Rightarrow> fake_node" where
  "Reorg height n =
     (if unat height + 1 < length (fnChain n) then n\<lparr>fnChain := take (unat (height + 1)) (fnChain n)\<rparr> else n)"

record fake_request =
  fqID :: int
  fqMethod :: string
  fqParams :: raw_message

definition fake_request_fields :: "fake_request fields" where
  "fake_request_fields =
    [(''id'', \<lambda>j s. bindE (un_int j (fqID s)) (\<lambda>x. Inr (s\<lparr>fqID := x\<rparr>))),
     (''method'', \<lambda>j s. bindE (un_string j (fqMethod s)) (\<lambda>x. Inr (s\<lparr>fqMethod := x\<rparr>))),
     (''params'', \<lambda>j s. Inr (s\<lparr>fqParams := Some j\<rparr>))]"

definition hashParam :: "raw_message \<Rightarrow> hash option" where
  "hashParam raw = (case un_raw (un_slice Hash_UnmarshalJSON) raw of Inr [h] \<Rightarrow> Some h | _ \<Rightarrow> None)"

text \<open>The outcome of a method: a value to write, or the message of an error.\<close>

datatype outcome = Result "json res" | Refused string

definition dispatch :: "(bytes \<Rightarrow> string) \<Rightarrow> fake_request \<Rightarrow> fake_node \<Rightarrow> outcome \<times> fake_node" where
  "dispatch enc req n =
     (let method = fqMethod req in
      if method = ''getblockcount'' then (Result (Inr (JNum (format_uint (length (fnChain n))))), n)
      else if method = ''get_best_sidechain_block_hash'' then
        (Result (Inr (if fnChain n = [] then JNull else Hash_MarshalJSON (last (fnChain n)))), n)
      else if method = ''get_block_hash'' then
        ((case un_raw (un_slice (\<lambda>j. un_uint j (0 :: u32))) (fqParams req) of
            Inr [h] \<Rightarrow> Result (Inr (if length (fnChain n) \<le> unat h then JNull else Hash_MarshalJSON (fnChain n ! unat h)))
          | _ \<Rightarrow> Refused ''get_block_hash takes one height''), n)
      else if method = ''get_block'' then
        ((case hashParam (fqParams req) of
            None \<Rightarrow> Refused ''the method takes one block hash''
          | Some h \<Rightarrow> (case fnBlocks n h of None \<Rightarrow> Result (Inr JNull) | Some b \<Rightarrow> Result (put_block enc b))), n)
      else if method = ''get_block_index'' then
        ((case hashParam (fqParams req) of
            None \<Rightarrow> Refused ''the method takes one block hash''
          | Some h \<Rightarrow> (case fnIndex n h of
               None \<Rightarrow> Refused (''no index for block '' @ Hash_String h)
             | Some i \<Rightarrow> Result (put_block_index enc i))), n)
      else if method = ''list_mempool'' then (Result (put_slice (put_mempool_tx enc) (fnMempool n)), n)
      else if method = ''pending_withdrawal_bundle'' then (Result (put_raw (fnBundle n)), n)
      else if method = ''latest_failed_withdrawal_bundle_height'' then
        (Result (Inr (case fnFailedHeight n of None \<Rightarrow> JNull | Some h \<Rightarrow> j_uint h)), n)
      else if method = ''submit_transaction'' then
        (case un_raw (un_slice Inr) (fqParams req) of
           Inr [tx] \<Rightarrow> (Result (Inr (JStr (Hash_String (copy_into 32 [1, 2, 3])))), n\<lparr>fnSubmitted := fnSubmitted n @ [tx]\<rparr>)
         | _ \<Rightarrow> (Refused ''submit_transaction takes one transaction'', n))
      else (Refused (''method '' @ quoted method @ '' is not served''), n))"

text \<open>
  The members of the answer are in the order of their names. A value that cannot be encoded leaves
  an empty body. The text of a bad request is the argument \<open>say\<close>.
\<close>

definition serve :: "(json \<Rightarrow> string) \<Rightarrow> parser \<Rightarrow> (error \<Rightarrow> string) \<Rightarrow> (bytes \<Rightarrow> string) \<Rightarrow> string \<Rightarrow> fake_node \<Rightarrow> reply \<times> fake_node" where
  "serve print parse say enc body n =
     (case unmarshal parse (un_struct fake_request_fields) body \<lparr>fqID = 0, fqMethod = [], fqParams = None\<rparr> of
        Inl e \<Rightarrow> (Answer 400 (say e), n)
      | Inr req \<Rightarrow>
          (case dispatch enc req n of (result, n') \<Rightarrow>
             (Answer 200 (case result of
                Refused message \<Rightarrow> print (JObj [(''error'', JObj [(''code'', j_int (-32000)), (''message'', JStr message)]),
                   (''id'', j_int (fqID req)), (''jsonrpc'', JStr ''2.0'')]) @ newline
              | Result (Inl e) \<Rightarrow> []
              | Result (Inr j) \<Rightarrow> print (JObj [(''id'', j_int (fqID req)), (''jsonrpc'', JStr ''2.0''), (''result'', j)]) @ newline),
              n')))"

subsection \<open>The client against this node\<close>

text \<open>What a test puts into the node: hashes of 32 bytes and structs that can be written.\<close>

definition wire_node :: "fake_node \<Rightarrow> bool" where
  "wire_node n \<longleftrightarrow> length (fnChain n) < 2 ^ 32 \<and> (\<forall>h \<in> set (fnChain n). wf_hash h)
     \<and> (\<forall>h b. fnBlocks n h = Some b \<longrightarrow> wire_block b) \<and> (\<forall>h i. fnIndex n h = Some i \<longrightarrow> wire_block_index i)
     \<and> (\<forall>m \<in> set (fnMempool n). wire_mempool_tx m) \<and> (case fnBundle n of None \<Rightarrow> True | Some j \<Rightarrow> json_ok j)"

definition linked :: "(json \<Rightarrow> string) \<Rightarrow> parser \<Rightarrow> (error \<Rightarrow> string) \<Rightarrow> (bytes \<Rightarrow> string) \<Rightarrow> client \<Rightarrow> fake_node \<Rightarrow> bool" where
  "linked print parse say enc c n \<longleftrightarrow> (\<forall>body. clHttp c (clURL c) body = fst (serve print parse say enc body n))"

abbreviation the_request :: "client \<Rightarrow> string \<Rightarrow> json \<Rightarrow> fake_request" where
  "the_request c method params \<equiv> \<lparr>fqID = sint (clNextID c + 1), fqMethod = method, fqParams = Some params\<rparr>"

lemma valid_number_int [simp]: "valid_number (format_int i)"
proof (cases "i < 0")
  case True
  obtain c cs where "format_uint (nat (- i)) = c # cs" "is_digit c" using format_uint_head by blast
  then show ?thesis using True valid_number_format [of "nat (- i)"]
    by (auto simp: valid_number_def format_int_def is_digit_def digit_val_def split: if_splits)
qed (simp add: format_int_def)

lemma json_ok_int [simp]: "json_ok (j_int i)"
  by (simp add: j_int_def)

lemma un_int_sint [simp]: "un_int (j_int (sint (i :: 64 word))) old = Inr (sint i)"
  using sint_ge [of i] sint_lt [of i] by (intro un_int_j_int) simp_all

context json_text
begin

lemma request_read:
  assumes "ascii method" and "json_ok params"
  shows "unmarshal parse (un_struct fake_request_fields) (print (rpc_request i method params)) zero
    = Inr (zero\<lparr>fqID := sint i, fqMethod := method, fqParams := Some params\<rparr>)"
  using assms by (subst unmarshal_print) (simp_all add: rpc_request_def fake_request_fields_def store_member_def find_field_def)

lemma Call_served:
  assumes "linked print parse say enc c n" and "ascii method" and "json_ok params"
    and "dispatch enc (the_request c method params) n = (Result (Inr j), n')" and "json_ok j"
  shows "fst (Call print parse c method params (Some un) zero) = un j zero"
proof -
  let ?answer = "JObj [(''id'', j_int (sint (clNextID c + 1))), (''jsonrpc'', JStr ''2.0''), (''result'', j)]"
  have "clHttp c (clURL c) (print (rpc_request (clNextID c + 1) method params)) = Answer 200 (print ?answer @ newline)"
    using assms(1,4) by (simp add: linked_def serve_def request_read [OF assms(2,3)])
  moreover have "unmarshal parse (un_struct rpc_response_fields) (print ?answer @ newline) zero_response = Inr \<lparr>rrResult = Some j, rrError = None\<rparr>"
    using assms(5) by (subst unmarshal_line) (simp_all add: rpc_response_fields_def zero_response_def store_member_def find_field_def)
  ultimately show ?thesis by (simp add: Call_def un_raw_def)
qed

lemma Call_refused:
  assumes "linked print parse say enc c n" and "ascii method" and "json_ok params"
    and "dispatch enc (the_request c method params) n = (Refused message, n')" and "ascii message"
  shows "fst (Call print parse c method params out zero) = Inl (ErrRemote (-32000))"
proof -
  let ?answer = "JObj [(''error'', JObj [(''code'', j_int (-32000)), (''message'', JStr message)]),
    (''id'', j_int (sint (clNextID c + 1))), (''jsonrpc'', JStr ''2.0'')]"
  have "clHttp c (clURL c) (print (rpc_request (clNextID c + 1) method params)) = Answer 200 (print ?answer @ newline)"
    using assms(1,4) by (simp add: linked_def serve_def request_read [OF assms(2,3)])
  moreover have "unmarshal parse (un_struct rpc_response_fields) (print ?answer @ newline) zero_response
      = Inr \<lparr>rrResult = None, rrError = Some \<lparr>reCode = -32000, reMessage = message\<rparr>\<rparr>"
    using assms(5) un_int_j_int [of "-32000"]
    by (subst unmarshal_line) (simp_all add: rpc_response_fields_def remote_error_fields_def zero_response_def store_member_def find_field_def un_ptr_def)
  ultimately show ?thesis by (simp add: Call_def)
qed

lemmas dispatch_simps = dispatch_def hashParam_def un_raw_def put_raw_def

lemma count_read:
  assumes "linked print parse say enc c n" and "length (fnChain n) < 2 ^ 32"
  shows "fst (rpc_BlockCount print parse c) = Inr (of_nat (length (fnChain n)))"
proof -
  have "un_uint (JNum (format_uint (length (fnChain n)))) (0 :: u32) = Inr (of_nat (length (fnChain n)))"
    using assms(2) by (simp add: parse_uint_format)
  then show ?thesis unfolding rpc_BlockCount_def by (subst Call_served [OF assms(1)]) (auto simp: dispatch_simps)
qed

lemma hash_ptr_read [simp]: "wf_hash h \<Longrightarrow> un_hash_ptr (Hash_MarshalJSON h) old = Inr (Some h)" "un_hash_ptr JNull old = Inr None"
  by (simp_all add: un_hash_ptr_def un_ptr_def)

lemma hash_at_read:
  assumes "linked print parse say enc c n" and "\<forall>x \<in> set (fnChain n). wf_hash x"
  shows "fst (rpc_BlockHashAt h print parse c) = Inr (lookup_hash (fnChain n) h)"
  unfolding rpc_BlockHashAt_def using assms(2)
  by (subst Call_served [OF assms(1)]) (auto simp: dispatch_simps lookup_hash_def)

lemma best_hash_read:
  assumes "linked print parse say enc c n" and "\<forall>x \<in> set (fnChain n). wf_hash x"
  shows "fst (rpc_BestBlockHash print parse c) = Inr (if fnChain n = [] then None else Some (last (fnChain n)))"
  unfolding rpc_BestBlockHash_def using assms(2)
  by (subst Call_served [OF assms(1)]) (auto simp: dispatch_simps)

lemma block_read:
  assumes "linked print parse say enc c n" and "b58_pair enc dec" and "\<And>b. fnBlocks n h = Some b \<Longrightarrow> wire_block b" and "wf_hash h"
  shows "fst (rpc_GetBlock dec h print parse c) = Inr (fnBlocks n h)"
proof (cases "fnBlocks n h")
  case None
  then show ?thesis unfolding rpc_GetBlock_def using assms(4)
    by (subst Call_served [OF assms(1)]) (auto simp: dispatch_simps un_ptr_def)
next
  case (Some b)
  from carries_block [OF assms(2) assms(3) [OF this], of zero_block]
  obtain j where "put_block enc b = Inr j" "j \<noteq> JNull" "json_ok j" "un_struct (block_fields dec) j zero_block = Inr b" by (rule carriesE)
  then show ?thesis unfolding rpc_GetBlock_def using assms(4) Some
    by (subst Call_served [OF assms(1)]) (auto simp: dispatch_simps un_ptr_def)
qed

lemma index_read:
  assumes "linked print parse say enc c n" and "b58_pair enc dec" and "\<And>i. fnIndex n h = Some i \<Longrightarrow> wire_block_index i" and "wf_hash h"
  shows "fst (rpc_GetBlockIndex dec h print parse c) = (case fnIndex n h of None \<Rightarrow> Inl (ErrRemote (-32000)) | Some i \<Rightarrow> Inr i)"
proof (cases "fnIndex n h")
  case None
  then show ?thesis unfolding rpc_GetBlockIndex_def using assms(4)
    by (subst Call_refused [OF assms(1)]) (auto simp: dispatch_simps Hash_String_def)
next
  case (Some i)
  from carries_block_index [OF assms(2) assms(3) [OF this], of zero_block_index]
  obtain j where "put_block_index enc i = Inr j" "json_ok j" "un_block_index dec j zero_block_index = Inr i" by (rule carriesE)
  then show ?thesis unfolding rpc_GetBlockIndex_def using assms(4) Some
    by (subst Call_served [OF assms(1)]) (auto simp: dispatch_simps)
qed

lemma mempool_read:
  assumes "linked print parse say enc c n" and "b58_pair enc dec" and "\<forall>m \<in> set (fnMempool n). wire_mempool_tx m"
  shows "fst (rpc_ListMempool dec print parse c) = Inr (fnMempool n)"
proof -
  have "carries (put_slice (put_mempool_tx enc) (fnMempool n)) (un_mempool dec) (fnMempool n)"
    unfolding un_mempool_def using assms(2,3) by (auto intro!: carries_rules)
  then obtain j where "put_slice (put_mempool_tx enc) (fnMempool n) = Inr j" "json_ok j" "un_mempool dec j = Inr (fnMempool n)" by (rule carriesE)
  then show ?thesis unfolding rpc_ListMempool_def
    by (subst Call_served [OF assms(1)]) (auto simp: dispatch_simps)
qed

lemma withdrawals_read:
  assumes "linked print parse say enc c n" and "case fnBundle n of None \<Rightarrow> True | Some j \<Rightarrow> json_ok j"
  shows "fst (rpc_PendingWithdrawalBundle print parse c) = Inr (Some (case fnBundle n of None \<Rightarrow> JNull | Some j \<Rightarrow> j))"
    and "fst (rpc_LatestFailedWithdrawalBundleHeight print parse c) = Inr (fnFailedHeight n)"
proof -
  let ?pending = "case fnBundle n of None \<Rightarrow> JNull | Some j \<Rightarrow> j" and ?height = "case fnFailedHeight n of None \<Rightarrow> JNull | Some h \<Rightarrow> j_uint h"
  have "json_ok ?pending" "json_ok ?height" using assms(2) by (simp_all split: option.splits)
  moreover have "un_ptr un_uint 0 ?height None = Inr (fnFailedHeight n)" by (simp add: un_ptr_def split: option.splits)
  ultimately show "fst (rpc_PendingWithdrawalBundle print parse c) = Inr (Some ?pending)"
    and "fst (rpc_LatestFailedWithdrawalBundleHeight print parse c) = Inr (fnFailedHeight n)"
    unfolding rpc_PendingWithdrawalBundle_def rpc_LatestFailedWithdrawalBundleHeight_def
    by (subst Call_served [OF assms(1), where j = ?pending], simp_all add: dispatch_simps)
       (subst Call_served [OF assms(1), where j = ?height], simp_all add: dispatch_simps)
qed

lemma submit_read:
  assumes "linked print parse say enc c n" and "json_ok tx"
  shows "fst (rpc_SubmitTransaction (Some tx) print parse c) = Inr (copy_into 32 [1, 2, 3])"
    and "fnSubmitted (snd (serve print parse say enc (print (rpc_request i ''submit_transaction'' (JArr [tx]))) n)) = fnSubmitted n @ [tx]"
proof -
  have "Hash_UnmarshalJSON (JStr (Hash_String (copy_into 32 [1, 2, 3]))) = Inr (copy_into 32 [1, 2, 3])"
    using Hash_Unmarshal_Marshal [of "copy_into 32 [1, 2, 3]"] by (simp add: Hash_MarshalJSON_def del: Hash_Unmarshal_Marshal)
  then show "fst (rpc_SubmitTransaction (Some tx) print parse c) = Inr (copy_into 32 [1, 2, 3])"
    unfolding rpc_SubmitTransaction_def using assms(2)
    by (subst Call_served [OF assms(1)]) (auto simp: dispatch_simps Hash_String_def)
  show "fnSubmitted (snd (serve print parse say enc (print (rpc_request i ''submit_transaction'' (JArr [tx]))) n)) = fnSubmitted n @ [tx]"
    using assms(2) by (simp add: serve_def request_read dispatch_simps)
qed

end

subsection \<open>Properties\<close>

text \<open>
  C5. The client is faithful to the node: over the text of the protocol, with the writers and readers of
  both sides between them, every method of the client returns exactly what the node of the end-to-end tests
  holds. The count, the hash of every height or none above the tip, the best hash, each block, the mempool,
  the pending bundle and the failed height come back as they were put in; a block without an index is the error the node
  reports; and a submitted transaction reaches the node unchanged.
\<close>

theorem client_reads_the_node:
  assumes "linked write_json read_json say enc c n" and "wire_node n" and "b58_pair enc dec"
  shows "ndCount (rpc_node dec write_json read_json c) = Inr (of_nat (length (fnChain n)))
    \<and> ndHashAt (rpc_node dec write_json read_json c) h = Inr (lookup_hash (fnChain n) h)
    \<and> fst (rpc_BestBlockHash write_json read_json c) = Inr (if fnChain n = [] then None else Some (last (fnChain n)))
    \<and> (wf_hash x \<longrightarrow> ndBlock (rpc_node dec write_json read_json c) x = Inr (fnBlocks n x)
        \<and> ndIndex (rpc_node dec write_json read_json c) x = (case fnIndex n x of None \<Rightarrow> Inl (ErrRemote (-32000)) | Some i \<Rightarrow> Inr i))
    \<and> ndMempool (rpc_node dec write_json read_json c) = Inr (fnMempool n)
    \<and> ndPending (rpc_node dec write_json read_json c) = Inr (Some (case fnBundle n of None \<Rightarrow> JNull | Some j \<Rightarrow> j))
    \<and> ndLastFailed (rpc_node dec write_json read_json c) = Inr (fnFailedHeight n)
    \<and> (json_ok tx \<longrightarrow> ndSubmit (rpc_node dec write_json read_json c) (Some tx) = Inr (copy_into 32 [1, 2, 3])
        \<and> fnSubmitted (snd (serve write_json read_json say enc (write_json (rpc_request i ''submit_transaction'' (JArr [tx]))) n)) = fnSubmitted n @ [tx])"
  using assms(2) go_json.count_read [OF assms(1)] go_json.hash_at_read [OF assms(1)] go_json.best_hash_read [OF assms(1)]
    go_json.block_read [OF assms(1,3)] go_json.index_read [OF assms(1,3)] go_json.mempool_read [OF assms(1,3)]
    go_json.withdrawals_read [OF assms(1)] go_json.submit_read [OF assms(1)]
  by (simp add: rpc_node_def wire_node_def)

text \<open>A node with two blocks, hex in the place of base58.\<close>

definition ex_dec :: "string \<Rightarrow> bytes option" where
  "ex_dec s = (case hex_decode s of Inl _ \<Rightarrow> None | Inr b \<Rightarrow> Some b)"

definition ex_fake :: fake_node where
  "ex_fake = AddBlock (ex_hash 12) ex_empty_block ex_no_txs (AddBlock (ex_hash 10) ex_empty_block ex_no_txs NewFakeNode)"

definition ex_client :: "nat \<Rightarrow> client" where
  "ex_client t = (NewWithHTTPClient ''http://127.0.0.1:6009/''
     (\<lambda>url body. fst (serve write_json read_json (\<lambda>_. ''bad request'') hex_encode body ex_fake)))\<lparr>clNextID := of_nat t\<rparr>"

lemma ex_b58: "b58_pair hex_encode ex_dec"
  by (simp add: b58_pair_def ex_dec_def)

lemma ex_fake_chain: "fnChain ex_fake = [ex_hash 10, ex_hash 12]"
  by (simp add: ex_fake_def AddBlock_def NewFakeNode_def)

lemma ex_fake_blocks: "fnBlocks ex_fake = [ex_hash 10 \<mapsto> ex_empty_block, ex_hash 12 \<mapsto> ex_empty_block]"
    "fnIndex ex_fake = [ex_hash 10 \<mapsto> ex_no_txs, ex_hash 12 \<mapsto> ex_no_txs]"
  by (simp_all add: ex_fake_def AddBlock_def NewFakeNode_def)

lemma ex_fake_wire: "wire_node ex_fake"
proof -
  have "wire_block ex_empty_block"
    by (simp add: wire_block_def wire_header_def wire_body_def wire_coinbase_def ex_empty_block_def ex_hash_wf)
  moreover have "wire_block_index ex_no_txs" by (simp add: wire_block_index_def)
  moreover have "fnMempool ex_fake = []" "fnBundle ex_fake = None" by (simp_all add: ex_fake_def AddBlock_def NewFakeNode_def)
  ultimately show ?thesis by (auto simp: wire_node_def ex_fake_chain ex_fake_blocks ex_hash_wf split: if_splits)
qed

lemma ex_linked: "linked write_json read_json (\<lambda>_. ''bad request'') hex_encode (ex_client t) ex_fake"
  by (simp add: linked_def ex_client_def NewWithHTTPClient_def)

theorem client_reads_the_node_witness:
  "ndCount (rpc_node ex_dec write_json read_json (ex_client 7)) = Inr 2
   \<and> ndHashAt (rpc_node ex_dec write_json read_json (ex_client 7)) 1 = Inr (Some (ex_hash 12))
   \<and> ndBlock (rpc_node ex_dec write_json read_json (ex_client 7)) (ex_hash 10) = Inr (Some ex_empty_block)
   \<and> ndIndex (rpc_node ex_dec write_json read_json (ex_client 7)) (ex_hash 3) = Inl (ErrRemote (-32000))"
  using client_reads_the_node [OF ex_linked ex_fake_wire ex_b58, of 7 1 "ex_hash 10"]
    client_reads_the_node [OF ex_linked ex_fake_wire ex_b58, of 7 1 "ex_hash 3"]
  by (simp add: ex_fake_chain ex_fake_blocks ex_hash_wf lookup_hash_def)

end
