(* ===== verification/Typing.thy ===== *)
theory Typing
  imports Node_Rpc Prepare
begin

text \<open>
  Conformance of what a node sends to the types of \<open>internal/chain\<close>. A Go \<open>[32]byte\<close> is a list of
  bytes in the model, so that it has 32 of them is a statement: here it is shown that a decoder that
  succeeds, on whatever JSON, gives values in which every hash has 32 bytes, every address 20 and every outpoint a known
  kind, and that the rows \<open>index/prepare.go\<close> makes of such values fit the columns they go to. A decoder of a field
  keeps a type when it leads from a conforming value to a conforming value; there is one rule per way to decode.
\<close>

definition gives :: "('a \<Rightarrow> bool) \<Rightarrow> (json \<Rightarrow> 'a res) \<Rightarrow> bool" where
  "gives P un \<longleftrightarrow> (\<forall>j x. un j = Inr x \<longrightarrow> P x)"

definition keeps_type :: "('a \<Rightarrow> bool) \<Rightarrow> (json \<Rightarrow> 'a \<Rightarrow> 'a res) \<Rightarrow> bool" where
  "keeps_type P un \<longleftrightarrow> (\<forall>j s s'. P s \<longrightarrow> un j s = Inr s' \<longrightarrow> P s')"

abbreviation each :: "('a \<Rightarrow> bool) \<Rightarrow> 'a list \<Rightarrow> bool" where
  "each P xs \<equiv> \<forall>x \<in> set xs. P x"

lemma givesD: "gives P un \<Longrightarrow> un j = Inr x \<Longrightarrow> P x"
  by (simp add: gives_def)

lemma keeps_typeD: "keeps_type P un \<Longrightarrow> un j s = Inr s' \<Longrightarrow> P s \<Longrightarrow> P s'"
  by (simp add: keeps_type_def)

lemma gives_slice: "gives P un \<Longrightarrow> gives (each P) (un_slice un)"
  unfolding gives_def
proof (intro allI impI ballI)
  fix j xs x assume un: "\<forall>j x. un j = Inr x \<longrightarrow> P x" and "un_slice un j = Inr xs" "x \<in> set xs"
  then show "P x" by (cases j) (auto dest: mapE_setD)
qed

lemma gives_zero: "keeps_type P un \<Longrightarrow> P zero \<Longrightarrow> gives P (\<lambda>j. un j zero)"
  by (auto simp: gives_def keeps_type_def)

lemma keeps_ptr:
  "keeps_type P un \<Longrightarrow> P zero \<Longrightarrow> keeps_type (pred_option P) (un_ptr un zero)"
  unfolding keeps_type_def un_ptr_def by (auto simp: bindE_eq_Inr split: if_splits option.splits)

lemma keeps_const: "gives P un \<Longrightarrow> keeps_type P (\<lambda>j _. un j)"
  by (simp add: gives_def keeps_type_def)

lemma find_field_member: "find_field fs key = Some put \<Longrightarrow> \<exists>name. (name, put) \<in> set fs"
  by (auto simp: find_field_def find_Some_iff split: option.splits dest!: map_of_SomeD)
     (metis nth_mem prod.collapse)

lemma keeps_struct:
  assumes "\<forall>f \<in> set fs. keeps_type P (snd f)"
  shows "keeps_type P (un_struct fs)"
proof -
  have "P s'" if "foldE (store_member fs) kvs s = Inr s'" "P s" for kvs s s'
    using that
  proof (induction kvs arbitrary: s)
    case (Cons kv kvs)
    then obtain s1 where s1: "store_member fs kv s = Inr s1" "foldE (store_member fs) kvs s1 = Inr s'"
      by (auto simp: bindE_eq_Inr)
    then have "P s1" using Cons.prems(2) assms
      by (auto simp: store_member_def keeps_type_def split: option.splits dest!: find_field_member)
    with s1(2) show ?case by (rule Cons.IH)
  qed simp
  then show ?thesis unfolding keeps_type_def by (metis (no_types, lifting) un_struct.simps json.exhaust sum.inject(2) Inl_Inr_False)
qed

subsection \<open>Types\<close>

definition typed_out_point :: "out_point \<Rightarrow> bool" where
  "typed_out_point p \<longleftrightarrow> wf_out_point p \<and> known_kind p"

definition typed_output :: "tx_output \<Rightarrow> bool" where
  "typed_output o' \<longleftrightarrow> wf_address (outAddress o')"

definition typed_transaction :: "transaction \<Rightarrow> bool" where
  "typed_transaction t \<longleftrightarrow> each (\<lambda>i. typed_out_point (inOutPoint i)) (trInputs t) \<and> each typed_output (trOutputs t)"

definition typed_header :: "header \<Rightarrow> bool" where
  "typed_header h \<longleftrightarrow> wf_hash (hMerkleRoot h) \<and> pred_option wf_hash (hPrevSideHash h) \<and> wf_hash (hPrevMainHash h)"

definition typed_body :: "body \<Rightarrow> bool" where
  "typed_body b \<longleftrightarrow> each typed_output (cbOutputs (bdCoinbase b)) \<and> each typed_transaction (bdTransactions b)"

definition typed_block :: "block \<Rightarrow> bool" where
  "typed_block b \<longleftrightarrow> typed_header (bkHeader b) \<and> typed_body (bkBody b)"

definition typed_deposit :: "deposit \<Rightarrow> bool" where
  "typed_deposit d \<longleftrightarrow> typed_out_point (dpOutPoint d) \<and> typed_output (dpOutput d)"

definition typed_bundle_spend :: "bundle_spend \<Rightarrow> bool" where
  "typed_bundle_spend b \<longleftrightarrow> typed_out_point (bnOutPoint b) \<and> wf_hash (bnM6id b)"

definition typed_market_utxo :: "market_utxo \<Rightarrow> bool" where
  "typed_market_utxo m \<longleftrightarrow> typed_out_point (muOutPoint m) \<and> typed_output (muOutput m)"

definition typed_block_index :: "block_index \<Rightarrow> bool" where
  "typed_block_index i \<longleftrightarrow> each (\<lambda>t. wf_hash (tiTxid t)) (biTxs i) \<and> each typed_deposit (biDeposits i)
     \<and> each typed_bundle_spend (biBundleSpends i) \<and> each typed_market_utxo (biMarketCreates i)
     \<and> each typed_market_utxo (biMarketDeletes i)"

definition typed_mempool_tx :: "mempool_tx \<Rightarrow> bool" where
  "typed_mempool_tx t \<longleftrightarrow> wf_hash (tiTxid t) \<and> typed_transaction (mtTx t)"

lemmas typed_defs = typed_out_point_def typed_output_def typed_transaction_def typed_header_def typed_body_def
  typed_block_def typed_deposit_def typed_bundle_spend_def typed_market_utxo_def typed_block_index_def typed_mempool_tx_def

subsection \<open>Every decoder gives its type\<close>

lemmas field_simps = keeps_type_def bindE_eq_Inr

lemma gives_hash: "gives wf_hash Hash_UnmarshalJSON"
  by (auto simp: gives_def Hash_UnmarshalJSON_def bindE_eq_Inr dest: ParseHash_wf)

lemma gives_address: "gives wf_address (Address_UnmarshalJSON b58)"
  by (auto simp: gives_def Address_UnmarshalJSON_def bindE_eq_Inr dest: ParseAddress_wf)

lemmas scalar_types = givesD [OF gives_hash] givesD [OF gives_address] BitcoinHash_Unmarshal_wf

lemma wf_zero_hash [simp]: "wf_hash zero_hash"
  by (simp add: wf_hash_def)

lemma keeps_hash_ptr: "keeps_type (pred_option wf_hash) un_hash_ptr"
  unfolding un_hash_ptr_def by (rule keeps_ptr [OF keeps_const [OF gives_hash] wf_zero_hash])

definition typed_regular :: "regular_wire \<Rightarrow> bool" where
  "typed_regular r \<longleftrightarrow> wf_hash (rwTxid r)"

definition typed_coinbase_wire :: "coinbase_wire \<Rightarrow> bool" where
  "typed_coinbase_wire c \<longleftrightarrow> pred_option wf_hash (cwTxid c) \<and> pred_option wf_hash (cwMerkleRoot c)"

definition typed_wire :: "out_point_wire \<Rightarrow> bool" where
  "typed_wire w \<longleftrightarrow> pred_option typed_regular (owRegular w) \<and> pred_option typed_coinbase_wire (owCoinbase w)
     \<and> pred_option typed_regular (owPayout w)"

lemma keeps_regular_ptr: "keeps_type (pred_option typed_regular) (un_ptr (un_struct (regular_fields name)) zero_regular)"
proof (rule keeps_ptr)
  show "keeps_type typed_regular (un_struct (regular_fields name))"
    by (rule keeps_struct) (auto simp: regular_fields_def field_simps typed_regular_def dest: scalar_types)
qed (simp add: typed_regular_def zero_regular_def)

lemma keeps_coinbase_ptr:
  "keeps_type (pred_option typed_coinbase_wire) (un_ptr (un_struct coinbase_fields) \<lparr>cwTxid = None, cwMerkleRoot = None, cwVout = 0\<rparr>)"
proof (rule keeps_ptr)
  show "keeps_type typed_coinbase_wire (un_struct coinbase_fields)"
    by (rule keeps_struct) (use keeps_hash_ptr in \<open>auto simp: coinbase_fields_def field_simps typed_coinbase_wire_def\<close>)
qed (simp add: typed_coinbase_wire_def)

lemma keeps_wire: "keeps_type typed_wire (un_struct out_point_fields)"
  by (rule keeps_struct)
     (auto simp: out_point_fields_def field_simps typed_wire_def
       dest: keeps_typeD [OF keeps_regular_ptr] keeps_typeD [OF keeps_coinbase_ptr])

lemma parseBitcoinOutPoint_typed: "parseBitcoinOutPoint s = Inr p \<Longrightarrow> typed_out_point p"
  by (auto simp: parseBitcoinOutPoint_def typed_out_point_def wf_out_point_def known_kind_def bindE_eq_Inr
      split: prod.splits if_splits dest: BitcoinHash_Unmarshal_wf)

lemma gives_out_point: "gives typed_out_point OutPoint_UnmarshalJSON"
  unfolding gives_def
proof (intro allI impI)
  fix j p assume p: "OutPoint_UnmarshalJSON j = Inr p"
  then obtain w where w: "un_struct out_point_fields j empty_wire = Inr w"
    by (auto simp: OutPoint_UnmarshalJSON_def bindE_eq_Inr)
  have "typed_wire empty_wire" by (simp add: typed_wire_def empty_wire_def)
  from keeps_typeD [OF keeps_wire w this] p w show "typed_out_point p"
    by (auto simp: OutPoint_UnmarshalJSON_def typed_wire_def typed_regular_def typed_coinbase_wire_def typed_out_point_def wf_out_point_def known_kind_def
        coinbase_source_def bindE_eq_Inr MarketFundsOutPoint_def wf_hash_def
        split: option.splits dest!: parseBitcoinOutPoint_typed [unfolded typed_out_point_def wf_out_point_def wf_hash_def known_kind_def])
qed

lemmas scalar_types' = scalar_types givesD [OF gives_out_point]

lemma keeps_output: "keeps_type typed_output (un_output b58)"
  unfolding un_output_def
  by (rule keeps_struct) (auto simp: output_fields_def field_simps typed_output_def dest: scalar_types)

lemma typed_zero_output [simp]: "typed_output zero_output"
  by (simp add: typed_output_def zero_output_def wf_address_def)

lemmas outputs_given = givesD [OF gives_slice [OF gives_zero [OF keeps_output typed_zero_output]]]

lemma decodePair_Inr:
  assumes "decodePair f g data = Inr (a, b)"
  shows "\<exists>j. f j = Inr a"
proof -
  obtain pair where "(case pair of [x, y] \<Rightarrow> bindE (f x) (\<lambda>u. bindE (g y) (\<lambda>v. Inr (u, v)))
      | _ \<Rightarrow> Inl (ErrPairLength (length pair))) = Inr (a, b)"
    using assms by (auto simp: decodePair_def bindE_eq_Inr)
  then show ?thesis by (cases pair rule: remdups_adj.cases) (auto simp: bindE_eq_Inr split: list.splits)
qed

lemma gives_input: "gives (\<lambda>i. typed_out_point (inOutPoint i)) Input_UnmarshalJSON"
  unfolding gives_def
proof (intro allI impI)
  fix j i assume "Input_UnmarshalJSON j = Inr i"
  then show "typed_out_point (inOutPoint i)"
    by (cases j) (auto simp: bindE_eq_Inr dest!: decodePair_Inr dest: givesD [OF gives_out_point])
qed

lemma keeps_transaction: "keeps_type typed_transaction (un_struct (transaction_fields b58))"
  by (rule keeps_struct)
     (auto simp: transaction_fields_def field_simps typed_transaction_def dest: outputs_given givesD [OF gives_slice [OF gives_input]])

lemma typed_zero_transaction [simp]: "typed_transaction zero_transaction"
  by (simp add: typed_transaction_def zero_transaction_def)

lemma gives_coinbase: "gives (\<lambda>c. each typed_output (cbOutputs c)) (Coinbase_UnmarshalJSON b58)"
  unfolding gives_def
proof (intro allI impI)
  fix j c assume c: "Coinbase_UnmarshalJSON b58 j = Inr c"
  have "keeps_type (\<lambda>c. each typed_output (cbOutputs c)) (un_struct (coinbase_object_fields b58))"
    by (rule keeps_struct) (auto simp: coinbase_object_fields_def field_simps dest: outputs_given)
  note obj = keeps_typeD [OF this, of _ "\<lparr>cbMemo = [], cbOutputs = [], cbKeyedByTxid = True\<rparr>"]
  show "each typed_output (cbOutputs c)"
  proof (cases "\<exists>js. j = JArr js")
    case True
    then show ?thesis using c by (auto simp: bindE_eq_Inr simp del: un_slice.simps dest!: outputs_given)
  next
    case False
    then have "Coinbase_UnmarshalJSON b58 j = un_struct (coinbase_object_fields b58) j \<lparr>cbMemo = [], cbOutputs = [], cbKeyedByTxid = True\<rparr>"
      by (cases j) simp_all
    then show ?thesis using obj [of j c] c by simp
  qed
qed

lemma keeps_header: "keeps_type typed_header (un_struct header_fields)"
  by (rule keeps_struct) (use keeps_hash_ptr in \<open>auto simp: header_fields_def field_simps typed_header_def dest: scalar_types\<close>)

lemma keeps_body: "keeps_type typed_body (un_struct (body_fields b58))"
  by (rule keeps_struct)
     (auto simp: body_fields_def field_simps typed_body_def
       dest: givesD [OF gives_coinbase] givesD [OF gives_slice [OF gives_zero [OF keeps_transaction typed_zero_transaction]]])

lemma keeps_block: "keeps_type typed_block (un_struct (block_fields b58))"
  by (rule keeps_struct) (use keeps_header keeps_body in \<open>auto simp: block_fields_def field_simps typed_block_def\<close>)

lemma typed_zero_block [simp]: "typed_block zero_block"
  by (simp add: zero_block_def typed_block_def typed_header_def typed_body_def)

lemma typed_zero_out_point [simp]: "typed_out_point zero_out_point"
  by (simp add: zero_out_point_def typed_out_point_def wf_out_point_def known_kind_def)

lemma keeps_tx_info: "keeps_type (\<lambda>t. wf_hash (tiTxid t)) (un_struct tx_info_fields)"
  by (rule keeps_struct) (auto simp: tx_info_fields_def field_simps dest: scalar_types)

lemma keeps_deposit: "keeps_type typed_deposit (un_struct (deposit_fields b58))"
  by (rule keeps_struct)
     (auto simp: deposit_fields_def field_simps typed_deposit_def dest: scalar_types' keeps_typeD [OF keeps_output])

lemma keeps_bundle_spend: "keeps_type typed_bundle_spend (un_struct bundle_spend_fields)"
  by (rule keeps_struct) (auto simp: bundle_spend_fields_def field_simps typed_bundle_spend_def dest: scalar_types')

lemma gives_market: "gives typed_market_utxo (un_market b58)"
  unfolding un_market_def
proof (rule gives_zero)
  show "keeps_type typed_market_utxo (un_struct (market_utxo_fields b58))"
    by (rule keeps_struct)
       (auto simp: market_utxo_fields_def field_simps typed_market_utxo_def dest: scalar_types' keeps_typeD [OF keeps_output])
qed (simp add: typed_market_utxo_def)

lemma index_elements:
  "gives (each (\<lambda>t. wf_hash (tiTxid t))) (un_slice (\<lambda>j. un_struct tx_info_fields j zero_tx_info))"
  "gives (each typed_deposit) (un_slice (\<lambda>j. un_struct (deposit_fields b58) j \<lparr>dpOutPoint = zero_out_point, dpOutput = zero_output\<rparr>))"
  "gives (each typed_bundle_spend) (un_slice (\<lambda>j. un_struct bundle_spend_fields j \<lparr>bnOutPoint = zero_out_point, bnM6id = zero_hash\<rparr>))"
  "gives (each typed_market_utxo) (un_slice (un_market b58))"
  by (rule gives_slice [OF gives_zero [OF keeps_tx_info]], simp add: zero_tx_info_def)
     (rule gives_slice [OF gives_zero [OF keeps_deposit]], simp add: typed_deposit_def,
      rule gives_slice [OF gives_zero [OF keeps_bundle_spend]], simp add: typed_bundle_spend_def,
      rule gives_slice [OF gives_market])

lemma keeps_block_index: "keeps_type typed_block_index (un_block_index b58)"
  unfolding un_block_index_def
  by (rule keeps_struct)
     (auto simp: block_index_fields_def field_simps typed_block_index_def dest: index_elements [THEN givesD])

lemma gives_mempool: "gives (each typed_mempool_tx) (un_mempool b58)"
  unfolding un_mempool_def
proof (rule gives_slice [OF gives_zero])
  show "keeps_type typed_mempool_tx (un_struct (mempool_tx_fields b58))"
    by (rule keeps_struct)
       (auto simp: mempool_tx_fields_def tx_info_fields_def field_simps typed_mempool_tx_def
         dest: scalar_types keeps_typeD [OF keeps_transaction])
qed (simp add: zero_mempool_tx_def typed_mempool_tx_def)

subsection \<open>A node behind any text\<close>

text \<open>What the sync loop may rely on: the answers of a node conform, whatever it answers.\<close>

definition typed_node :: "node \<Rightarrow> bool" where
  "typed_node n \<longleftrightarrow> (\<forall>h x. ndHashAt n h = Inr (Some x) \<longrightarrow> wf_hash x)
     \<and> (\<forall>h b. ndBlock n h = Inr (Some b) \<longrightarrow> typed_block b)
     \<and> (\<forall>h i. ndIndex n h = Inr i \<longrightarrow> typed_block_index i)
     \<and> (\<forall>ts. ndMempool n = Inr ts \<longrightarrow> each typed_mempool_tx ts)"

lemma Call_typed:
  assumes "fst (Call print parse c method params (Some un) zero) = Inr x" and "keeps_type P un" and "P zero"
  shows "P x"
  using assms(1) keeps_typeD [OF assms(2) _ assms(3)]
  by (auto simp: Call_def un_raw_def Let_def split: reply.splits sum.splits option.splits if_splits)

text \<open>Nothing is assumed of the exchange or of the parser.\<close>

lemma rpc_node_typed: "typed_node (rpc_node dec print parse c)"
proof -
  have hash: "pred_option wf_hash x" if "ndHashAt (rpc_node dec print parse c) h = Inr x" for h x
    using that Call_typed [OF _ keeps_hash_ptr, of print parse c _ _ None x] by (simp add: rpc_node_def rpc_BlockHashAt_def)
  have block: "pred_option typed_block x" if "ndBlock (rpc_node dec print parse c) h = Inr x" for h x
    using that Call_typed [OF _ keeps_ptr [OF keeps_block typed_zero_block], of print parse c _ _ dec None x]
    by (simp add: rpc_node_def rpc_GetBlock_def)
  have index: "typed_block_index x" if "ndIndex (rpc_node dec print parse c) h = Inr x" for h x
    using that Call_typed [OF _ keeps_block_index, of print parse c _ _ dec zero_block_index x]
    by (simp add: rpc_node_def rpc_GetBlockIndex_def typed_block_index_def zero_block_index_def)
  have pool: "each typed_mempool_tx x" if "ndMempool (rpc_node dec print parse c) = Inr x" for x
    using that Call_typed [OF _ keeps_const [OF gives_mempool], of print parse c _ _ dec "[]" x]
    by (simp add: rpc_node_def rpc_ListMempool_def)
  show ?thesis unfolding typed_node_def using hash block index pool by fastforce
qed

subsection \<open>Prepared rows\<close>

definition int32_range :: "int \<Rightarrow> bool" where
  "int32_range i \<longleftrightarrow> - (2 ^ 31) \<le> i \<and> i < 2 ^ 31"

definition int64_range :: "int \<Rightarrow> bool" where
  "int64_range i \<longleftrightarrow> - (2 ^ 63) \<le> i \<and> i < 2 ^ 63"

definition amount :: "int \<Rightarrow> bool" where
  "amount v \<longleftrightarrow> 0 \<le> v \<and> v \<le> max_int64"

lemma int32_range_conversions [simp]: "int32_range (int32_of_u32 w)" "int32_range (int32_of i)"
proof -
  show "int32_range (int32_of_u32 w)" using sint_range_size [of w] by (simp add: int32_range_def int32_of_u32_def word_size)
  show "int32_range (int32_of i)"
    using signed_take_bit_int_greater_eq_minus_exp [of 31 i] signed_take_bit_int_less_exp [of 31 i]
    by (simp add: int32_range_def int32_of_def)
qed

definition typed_create :: "s_output \<Rightarrow> bool" where
  "typed_create c \<longleftrightarrow> typed_out_point (soOutPoint c) \<and> wf_address (soAddress c) \<and> amount (soValueSats c)"

definition typed_spend :: "spend \<Rightarrow> bool" where
  "typed_spend s \<longleftrightarrow> typed_out_point (spOutPoint s) \<and> wf_hash (spSource s) \<and> spKind s \<le> SpendMarket"

definition typed_s_block :: "s_block \<Rightarrow> bool" where
  "typed_s_block b \<longleftrightarrow> wf_hash (sbHash b) \<and> pred_option wf_hash (sbPrevHash b) \<and> wf_hash (sbMerkleRoot b)
     \<and> wf_hash (sbMainHash b) \<and> pred_option int64_range (sbBlockTime b)
     \<and> each (\<lambda>t. wf_hash (stTxid t) \<and> stFeeSats t = 0) (sbTxs b) \<and> each typed_create (sbCreates b) \<and> each typed_spend (sbSpends b)"

definition typed_pool :: "s_mempool \<Rightarrow> bool" where
  "typed_pool p \<longleftrightarrow> each (\<lambda>t. wf_hash (smTxid t)) (smTxs p) \<and> each typed_create (smCreates p) \<and> each typed_spend (smSpends p)"

lemma typed_newOutput:
  assumes "newOutput p output dec ex = Inr row" and "output_decoder dec" and "typed_out_point p" and "typed_output output"
  shows "typed_create row"
  using newOutput_Inr [OF assms(1)] assms(3,4) output_decoder.newOutput_range [OF assms(2,1)]
  by (simp add: typed_create_def typed_output_def amount_def)

lemma typed_regular_point: "wf_hash txid \<Longrightarrow> typed_out_point (regular_out_point txid i)"
  by (simp add: typed_out_point_def wf_out_point_def known_kind_def regular_out_point_def)

lemma set_indexed: "(i, x) \<in> set (indexed xs) \<Longrightarrow> x \<in> set xs"
  using map_snd_indexed [of xs] by (metis list.set_map snd_conv imageI)

lemma typed_prepareTx:
  assumes "prepareTx txid tx dec = Inr rows" and "output_decoder dec" and "wf_hash txid" and "typed_transaction tx"
  shows "each typed_create (trwCreates rows) \<and> each typed_spend (trwSpends rows)"
proof
  show "each typed_create (trwCreates rows)"
    using assms by (auto simp: prepareTx_def bindE_eq_Inr typed_transaction_def dest!: mapE_setD
        intro!: typed_newOutput [OF _ assms(2)] typed_regular_point dest: set_indexed)
  show "each typed_spend (trwSpends rows)"
    using assms by (auto simp: prepareTx_def bindE_eq_Inr typed_transaction_def typed_spend_def dest!: set_indexed)
qed

lemma typed_Prepare:
  assumes "Prepare blake3 height hash b bi dec bt = Inr w" and "output_decoder dec" and "\<And>bs. wf_hash (blake3 bs)"
    and "wf_hash hash" and "typed_block b" and "typed_block_index bi" and "pred_option int64_range bt"
  shows "typed_s_block w"
proof -
  have head: "sbPrevHash w = hPrevSideHash (bkHeader b)" "sbMerkleRoot w = hMerkleRoot (bkHeader b)"
    "sbMainHash w = hPrevMainHash (bkHeader b)" "sbBlockTime w = bt" "sbHash w = hash"
    using assms(1) by (auto simp: Prepare_def bindE_eq_Inr split: if_splits)
  note hdr = assms(5) [unfolded typed_block_def typed_header_def typed_body_def]
  note ix = assms(6) [unfolded typed_block_index_def]
  from assms(1) obtain cb txs dep mk where
    p: "prepare_coinbase blake3 b dec = Inr cb" "prepare_txs (bdTransactions (bkBody b)) (biTxs bi) dec = Inr txs"
    "prepare_deposits (biDeposits bi) dec = Inr dep" "prepare_market (biMarketCreates bi) dec = Inr mk"
    and w: "sbTxs w = map tx_of_info (indexed (biTxs bi))" "sbCreates w = cb @ concat (map trwCreates txs) @ dep @ mk"
    "sbSpends w = concat (map trwSpends txs) @ bundle_spends (biBundleSpends bi) @ market_spends hash (biMarketDeletes bi)"
    by (rule Prepare_Inr)
  have source: "wf_hash (CoinbaseSource blake3 b)" using hdr assms(3) by (simp add: CoinbaseSource_def CoinbaseTxid_def)
  have "each typed_create cb"
    using p(1) hdr source by (auto simp: prepare_coinbase_def typed_out_point_def wf_out_point_def known_kind_def
        dest!: mapE_setD intro!: typed_newOutput [OF _ assms(2)] dest: set_indexed)
  moreover have rows: "each typed_create (trwCreates r) \<and> each typed_spend (trwSpends r)" if mem: "r \<in> set txs" for r
  proof -
    obtain tx info where zip: "(tx, info) \<in> set (zip (bdTransactions (bkBody b)) (biTxs bi))"
      and r: "(if tiSkipped info then Inr \<lparr>trwSpends = [], trwCreates = []\<rparr> else prepareTx (tiTxid info) tx dec) = Inr r"
      using mapE_setD [OF p(2) [unfolded prepare_txs_def] mem] by auto
    have "typed_transaction tx" "wf_hash (tiTxid info)" using hdr ix set_zip_leftD [OF zip] set_zip_rightD [OF zip] by auto
    then show ?thesis using r typed_prepareTx [OF _ assms(2), of "tiTxid info" tx r] by (auto split: if_splits)
  qed
  moreover have "each typed_create dep"
    using p(3) ix by (auto simp: prepare_deposits_def typed_deposit_def dest!: mapE_setD intro!: typed_newOutput [OF _ assms(2)] split: if_splits)
  moreover have "each typed_create mk"
    using p(4) ix by (auto simp: prepare_market_def typed_market_utxo_def dest!: mapE_setD intro!: typed_newOutput [OF _ assms(2)])
  moreover have "each typed_spend (bundle_spends (biBundleSpends bi))"
    using ix by (auto simp: bundle_spends_def typed_spend_def typed_bundle_spend_def dest!: set_indexed)
  moreover have "each typed_spend (market_spends hash (biMarketDeletes bi))"
    using ix assms(4) by (auto simp: market_spends_def typed_spend_def typed_market_utxo_def dest!: set_indexed)
  moreover have "each (\<lambda>t. wf_hash (stTxid t) \<and> stFeeSats t = 0) (sbTxs w)"
    using ix by (auto simp: w tx_of_info_def dest!: set_indexed)
  ultimately show ?thesis using hdr assms(4,7) by (auto simp: typed_s_block_def head w)
qed

lemma typed_PrepareMempool:
  assumes "PrepareMempool ts dec = Inr p" and "output_decoder dec" and "each typed_mempool_tx ts"
  shows "typed_pool p"
proof -
  obtain rows where rows: "mapE (\<lambda>e. prepareTx (tiTxid e) (mtTx e) dec) ts = Inr rows"
    and p: "smCreates p = concat (map trwCreates rows)" "smSpends p = concat (map trwSpends rows)"
      "smTxs p = map (\<lambda>(i, e). \<lparr>smTxid = tiTxid e, smIndex = int i, smSizeBytes = sint (tiSize e), smRaw = tiRaw e\<rparr>) (indexed ts)"
    using assms(1) by (auto simp: PrepareMempool_def bindE_eq_Inr)
  have "each typed_create (trwCreates r) \<and> each typed_spend (trwSpends r)" if "r \<in> set rows" for r
    using mapE_setD [OF rows that] typed_prepareTx [OF _ assms(2)] assms(3) by (auto simp: typed_mempool_tx_def)
  moreover have "each (\<lambda>t. wf_hash (smTxid t)) (smTxs p)"
    using assms(3) by (auto simp: p typed_mempool_tx_def dest!: set_indexed)
  ultimately show ?thesis by (auto simp: typed_pool_def p)
qed

end
