(* ===== verification/Run.thy ===== *)
theory Run
  imports Sync_Properties
begin

text \<open>
  The two polling loops: \<open>Syncer.Run\<close> of \<open>internal/index/sync.go\<close> and \<open>MempoolSyncer.Run\<close> of
  \<open>internal/index/mempool_sync.go\<close>. A loop runs passes until its context ends, so it is a partial
  function: \<open>None\<close> is a loop that never returns. The error of a pass only reaches the log. After a pass
  the code reads the context, then waits for the interval or the end of the context.
\<close>

partial_function (option) poll :: "env \<Rightarrow> (syst, unit) act \<Rightarrow> syst \<Rightarrow> (error \<times> syst) option" where
  "poll env once s =
     (case once s of (err, t) \<Rightarrow>
        if moCancelled (env (syClock t)) then Some (ErrCancelled, tick t)
        else if moCancelled (env (syClock (tick t))) then Some (ErrCancelled, tick (tick t))
        else poll env once (tick (tick t)))"

definition Run :: "config \<Rightarrow> env \<Rightarrow> syst \<Rightarrow> (error \<times> syst) option" where
  "Run cf env = poll env (Once cf env)"

definition MempoolRun :: "config \<Rightarrow> env \<Rightarrow> syst \<Rightarrow> (error \<times> syst) option" where
  "MempoolRun cf env = poll env (MempoolOnce cf env)"

subsection \<open>Time goes on\<close>

definition forward :: "(syst, 'a) act \<Rightarrow> bool" where
  "forward m \<longleftrightarrow> (\<forall>s. syClock s \<le> syClock (snd (m s)))"

named_theorems forward_rules \<open>actions that do not turn the clock back\<close>

lemma forward_retA [forward_rules]: "forward (retA x)" and forward_failA [forward_rules]: "forward (failA e)"
  and forward_liftA [forward_rules]: "forward (liftA r)" and forward_drop [forward_rules]: "forward drop_node"
  by (simp_all add: forward_def retA_def failA_def liftA_def drop_node_def)

lemma forward_ask [forward_rules]: "forward (ask env f)" and forward_read [forward_rules]: "forward (store_read env q)"
  by (simp_all add: forward_def ask_def store_read_def meddled_def tick_def)

lemma forward_write [forward_rules]: "forward (store_write env w)"
  by (simp add: forward_def store_write_def tick_def split: prod.split)

lemma forward_bindA [forward_rules]:
  assumes "forward m" and "\<And>x. forward (f x)"
  shows "forward (bindA m f)"
  unfolding forward_def
proof
  fix s
  obtain r t where mt: "m s = (r, t)" by (cases "m s")
  then have "syClock s \<le> syClock t" using assms(1) by (metis forward_def snd_conv)
  moreover have "syClock t \<le> syClock (snd (f x t))" for x using assms(2) by (simp add: forward_def)
  ultimately show "syClock s \<le> syClock (snd (bindA m f s))"
    using mt by (cases r) (auto simp: bindA_def intro: order_trans)
qed

lemma forward_if [forward_rules]: "forward m \<Longrightarrow> forward n \<Longrightarrow> forward (if c then m else n)"
  by simp

lemma forward_option [forward_rules]: "forward m \<Longrightarrow> (\<And>x. forward (f x)) \<Longrightarrow> forward (case r of None \<Rightarrow> m | Some x \<Rightarrow> f x)"
  by (cases r) simp_all

lemma forward_whileA [forward_rules]: "(\<And>x. forward (body x)) \<Longrightarrow> forward (whileA body xs)"
  by (induction xs) (auto intro!: forward_rules)

lemma forward_eachA [forward_rules]: "(\<And>x. forward (body x)) \<Longrightarrow> forward (eachA body xs)"
  by (induction xs) (auto intro!: forward_rules)

lemma forward_fork_scan [forward_rules]: "(\<And>h. forward (ours h)) \<Longrightarrow> (\<And>h. forward (theirs h)) \<Longrightarrow> forward (fork_scan ours theirs n)"
  by (induction n) (auto intro!: forward_rules)

lemma forward_read_tip [forward_rules]: "forward (read_tip env)"
  by (auto simp: forward_def read_tip_def ask_def bindA_def drop_node_def failA_def tick_def split: sum.split error.split)

lemma forward_ask_or_drop [forward_rules]: "forward (ask_or_drop env f)"
  by (auto simp: forward_def ask_or_drop_def ask_def bindA_def drop_node_def failA_def tick_def split: sum.split)

lemma forward_Once: "forward (Once cf env)"
  unfolding Once_def resolveStart_def findFork_def store_HashAt_def store_Rollback_def BlockHashAt_def applyHeights_def applyHeight_def
    GetBlock_def GetBlockIndex_def blockTime_def mainHeight_def backfillMainHeights_def check_ctx_def
  by (auto intro!: forward_rules split: prod.split)

lemma forward_MempoolOnce: "forward (MempoolOnce cf env)"
  unfolding MempoolOnce_def by (intro forward_rules)

subsection \<open>A loop ends with its context, and only then\<close>

lemma poll_Some:
  assumes "poll env once s = Some y"
  shows "fst y = ErrCancelled \<and> (\<exists>t. moCancelled (env t))"
proof (rule poll.raw_induct [where P = "\<lambda>env once s y. fst y = ErrCancelled \<and> (\<exists>t. moCancelled (env t))", OF _ assms])
  fix rec :: "env \<Rightarrow> (syst, unit) act \<Rightarrow> syst \<Rightarrow> (error \<times> syst) option" and env once s y
  assume rec: "\<And>env once s y. rec env once s = Some y \<Longrightarrow> fst y = ErrCancelled \<and> (\<exists>t. moCancelled (env t))"
    and body: "(case once s of (err, t) \<Rightarrow> if moCancelled (env (syClock t)) then Some (ErrCancelled, tick t)
        else if moCancelled (env (syClock (tick t))) then Some (ErrCancelled, tick (tick t)) else rec env once (tick (tick t))) = Some y"
  obtain err t where "once s = (err, t)" by (cases "once s")
  then show "fst y = ErrCancelled \<and> (\<exists>t. moCancelled (env t))"
    using body rec [of env once "tick (tick t)" y] by (auto split: if_splits)
qed

lemma poll_only_cancelled: "poll env once s = Some (e, s') \<Longrightarrow> e = ErrCancelled \<and> (\<exists>t. moCancelled (env t))"
  using poll_Some [of env once s "(e, s')"] by simp

definition keeps :: "(syst \<Rightarrow> bool) \<Rightarrow> (syst, unit) act \<Rightarrow> bool" where
  "keeps I once \<longleftrightarrow> (\<forall>s. I s \<longrightarrow> I (snd (once s)))"

lemma poll_keeps:
  assumes "\<And>s. I s \<Longrightarrow> I (tick s)" and "poll env once s = Some y" and "keeps I once" and "I s"
  shows "I (snd y)"
proof -
  have "keeps I once \<longrightarrow> I s \<longrightarrow> I (snd y)"
  proof (rule poll.raw_induct [where P = "\<lambda>env once s y. keeps I once \<longrightarrow> I s \<longrightarrow> I (snd y)", OF _ assms(2)], intro impI)
    fix rec :: "env \<Rightarrow> (syst, unit) act \<Rightarrow> syst \<Rightarrow> (error \<times> syst) option" and env once s y
    assume rec: "\<And>env once s y. rec env once s = Some y \<Longrightarrow> keeps I once \<longrightarrow> I s \<longrightarrow> I (snd y)"
      and body: "(case once s of (err, t) \<Rightarrow> if moCancelled (env (syClock t)) then Some (ErrCancelled, tick t)
        else if moCancelled (env (syClock (tick t))) then Some (ErrCancelled, tick (tick t)) else rec env once (tick (tick t))) = Some y"
      and keep: "keeps I once" and s: "I s"
    obtain err t where t: "once s = (err, t)" by (cases "once s")
    then have "I t" using keep s by (metis keeps_def snd_conv)
    then show "I (snd y)"
      using body rec [of env once "tick (tick t)" y] keep assms(1) by (auto simp: t split: if_splits)
  qed
  then show ?thesis using assms(3,4) by blast
qed

lemma poll_returns:
  assumes "forward once" and "\<forall>t \<ge> T. moCancelled (env t)"
  shows "\<exists>e s'. poll env once s = Some (e, s')"
proof (induction "T - syClock s" arbitrary: s rule: less_induct)
  case less
  obtain r t where t: "once s = (r, t)" by (cases "once s")
  then have mono: "syClock s \<le> syClock t" using assms(1) by (metis forward_def snd_conv)
  show ?case
  proof (cases "moCancelled (env (syClock t)) \<or> moCancelled (env (syClock (tick t)))")
    case True
    then show ?thesis by (subst poll.simps) (auto simp: t)
  next
    case False
    then have "\<not> T \<le> syClock t" using assms(2) by blast
    then have "T - syClock (tick (tick t)) < T - syClock s" using mono by (simp add: tick_def)
    from less [OF this] show ?thesis using False by (subst poll.simps) (simp add: t)
  qed
qed

subsection \<open>What the loops keep\<close>

lemma Once_good:
  assumes "wf_env env" and "good s" and "Once cf env s = (r, s')"
  shows "good s'"
proof -
  have "on_chain env (chain_of s) (chain_of s) s" using assms(2) by (simp add: traced_def)
  note result = Once_traced [OF assms(1), of "chain_of s" "chain_of s" cf] this
  show ?thesis using assms(3) triple_InlD [OF result] triple_InrD [OF result] by (cases r) (auto simp: traced_def)
qed

definition on :: "hash list \<Rightarrow> syst \<Rightarrow> bool" where
  "on c s \<longleftrightarrow> good s \<and> chain_of s = c"

lemma triple_on_ask: "triple (on c) (ask env f) (\<lambda>_. on c) (on c)"
  by (auto intro!: tripleI simp: ask_def on_def)

lemma triple_on_ask_or_drop: "triple (on c) (ask_or_drop env f) (\<lambda>_. on c) (on c)"
  by (auto intro!: tripleI simp: ask_or_drop_def ask_def bindA_def drop_node_def failA_def on_def split: sum.splits prod.splits)

lemma triple_on_replace: "triple (on c) (store_write env (\<lambda>pg. ReplaceMempool pg now pool)) (\<lambda>_. on c) (on c)"
proof -
  have "on c s'" if "on c s" "store_write env (\<lambda>pg. ReplaceMempool pg now pool) s = (r, s')" for s r s'
  proof -
    obtain r' d where d: "ReplaceMempool (moPg (env (syClock s))) now pool (syDb (meddled env s)) = (r', d)" by fastforce
    then have "s' = tick (meddled env s\<lparr>syDb := d\<rparr>)" using that(2) by (simp add: store_write_def meddled_def)
    then show ?thesis using ReplaceMempool_good [OF meddled_good d] that(1) by (simp add: on_def)
  qed
  then show ?thesis by (intro tripleI) blast+
qed

lemma MempoolOnce_on: "triple (on c) (MempoolOnce cf env) (\<lambda>_. on c) (on c)"
  unfolding MempoolOnce_def
  by (intro triple_bind [OF triple_on_ask] triple_bind [OF triple_on_ask_or_drop] triple_bind [OF triple_lift, where R = "\<lambda>_. on c"]
      triple_on_replace) auto

lemma triple_keeps: "triple I m (\<lambda>_. I) I \<Longrightarrow> keeps I m"
  unfolding keeps_def triple_def by (metis (mono_tags, lifting) case_prod_beta sum.case_eq_if)

subsection \<open>Properties\<close>

text \<open>
  C39. The loops run for as long as their context and no longer, and the index is sound when they stop.
  Neither loop returns while its context lives, whatever the node, Postgres or the enforcer do. Once the
  context has ended for good, each returns with its error, the sync loop leaves a well-formed and unbroken
  index behind, and the mempool loop leaves the chain exactly as it was.
\<close>

theorem Run_until_cancelled:
  assumes "wf_env env" and "good s"
  shows "((\<forall>t. \<not> moCancelled (env t)) \<longrightarrow> Run cf env s = None \<and> MempoolRun cf env s = None)
    \<and> ((\<exists>T. \<forall>t \<ge> T. moCancelled (env t)) \<longrightarrow>
        (\<exists>s'. Run cf env s = Some (ErrCancelled, s') \<and> good s')
        \<and> (\<exists>s'. MempoolRun cf env s = Some (ErrCancelled, s') \<and> good s' \<and> chain_of s' = chain_of s))"
proof (intro conjI impI)
  assume "\<forall>t. \<not> moCancelled (env t)"
  then show "Run cf env s = None" "MempoolRun cf env s = None"
    unfolding Run_def MempoolRun_def using poll_Some by (metis not_None_eq)+
next
  assume "\<exists>T. \<forall>t \<ge> T. moCancelled (env t)"
  then obtain T where T: "\<forall>t \<ge> T. moCancelled (env t)" ..
  obtain e s' where run: "poll env (Once cf env) s = Some (e, s')" using poll_returns [OF forward_Once T] by blast
  have "keeps good (Once cf env)" unfolding keeps_def using Once_good [OF assms(1)] by (metis prod.collapse)
  then have "good s'" using poll_keeps [of good, OF _ run] assms(2) by simp
  then show "\<exists>s'. Run cf env s = Some (ErrCancelled, s') \<and> good s'"
    using run poll_only_cancelled [OF run] by (simp add: Run_def)
  obtain e s' where run: "poll env (MempoolOnce cf env) s = Some (e, s')" using poll_returns [OF forward_MempoolOnce T] by blast
  have "keeps (on (chain_of s)) (MempoolOnce cf env)" by (rule triple_keeps [OF MempoolOnce_on])
  then have "on (chain_of s) s'" using poll_keeps [of "on (chain_of s)", OF _ run] assms(2) by (simp add: on_def)
  then show "\<exists>s'. MempoolRun cf env s = Some (ErrCancelled, s') \<and> good s' \<and> chain_of s' = chain_of s"
    using run poll_only_cancelled [OF run] by (simp add: MempoolRun_def on_def)
qed

text \<open>The example pass, with a context that ends at the thousandth call.\<close>

theorem Run_until_cancelled_witness:
  "\<exists>s'. Run ex_config (\<lambda>t. (ex_env [ex_hash 10, ex_hash 12] t)\<lparr>moCancelled := 1000 \<le> t\<rparr>) ex_index = Some (ErrCancelled, s') \<and> good s'"
proof -
  let ?env = "\<lambda>t. (ex_env [ex_hash 10, ex_hash 12] t)\<lparr>moCancelled := 1000 \<le> t\<rparr>"
  have "wf_env (ex_env [ex_hash 10, ex_hash 12])" by (rule serves_wf_env [OF ex_serves [OF ex_branch]])
  then have "wf_env ?env" by (simp add: wf_env_def node_says_def)
  moreover have "\<exists>T. \<forall>t \<ge> T. moCancelled (?env t)" by auto
  ultimately show ?thesis using Run_until_cancelled [of ?env ex_index ex_config] ex_index_good by blast
qed

end
