(* ===== verification/Typed_Index.thy ===== *)
theory Typed_Index
  imports Typing Run
begin

text \<open>
  The columns of the index and that every write keeps them to their types: a hash column holds 32 bytes, an
  address 20, the key of an output is the key of its own columns and reads back as its outpoint, an amount is a non-negative \<open>bigint\<close>,
  an \<open>INTEGER\<close> and a \<open>BIGINT\<close> are in range. The passes of both loops keep all of it for a
  node behind any text, without any of the assumptions under which they also keep the chain.
\<close>

subsection \<open>Rows\<close>

definition typed_block_row :: "block_row \<Rightarrow> bool" where
  "typed_block_row r \<longleftrightarrow> int32_range (brHeight r) \<and> wf_hash (brHash r) \<and> pred_option wf_hash (brPrevHash r)
     \<and> wf_hash (brMerkleRoot r) \<and> wf_hash (brMainHash r) \<and> pred_option int32_range (brMainHeight r)
     \<and> pred_option int64_range (brBlockTime r) \<and> int32_range (brTxCount r)"

definition typed_tx_row :: "tx_row \<Rightarrow> bool" where
  "typed_tx_row r \<longleftrightarrow> wf_hash (xrTxid r) \<and> int32_range (xrHeight r) \<and> int32_range (xrIndex r)
     \<and> int32_range (xrSizeBytes r) \<and> amount (xrFeeSats r)"

definition typed_coin_row :: "'z coin_row_scheme \<Rightarrow> bool" where
  "typed_coin_row r \<longleftrightarrow> orOutpoint r = Key (row_out_point r) \<and> OutPointFromKey (orOutpoint r) = Inr (row_out_point r)
     \<and> wf_hash (orSource r) \<and> int32_range (orVout r) \<and> wf_address (orAddress r)
     \<and> orScripthash r = ScriptHash (orAddress r) \<and> amount (orValueSats r)"

definition typed_output_row :: "output_row \<Rightarrow> bool" where
  "typed_output_row r \<longleftrightarrow> typed_coin_row r \<and> wf_hash (orBlockHash r) \<and> int32_range (orHeight r)
     \<and> pred_option wf_hash (orSpentSource r) \<and> pred_option (\<lambda>k. k \<le> SpendMarket) (orSpentKind r)
     \<and> pred_option int32_range (orSpentVin r) \<and> pred_option int32_range (orSpentHeight r)"

definition typed_sync_row :: "sync_row \<Rightarrow> bool" where
  "typed_sync_row s \<longleftrightarrow> pred_option int32_range (ssTipHeight s) \<and> pred_option wf_hash (ssTipHash s)"

definition typed_mempool_tx_row :: "mempool_tx_row \<Rightarrow> bool" where
  "typed_mempool_tx_row r \<longleftrightarrow> wf_hash (mrTxid r) \<and> int32_range (mrIndex r) \<and> int32_range (mrSizeBytes r)
     \<and> amount (mrFeeSats r) \<and> int64_range (mrFirstSeen r)"

definition typed_mempool_spend_row :: "mempool_spend_row \<Rightarrow> bool" where
  "typed_mempool_spend_row r \<longleftrightarrow> (\<exists>p. OutPointFromKey (msOutpoint r) = Inr p \<and> Key p = msOutpoint r)
     \<and> wf_hash (msSource r) \<and> msKind r \<le> SpendMarket \<and> int32_range (msVin r)"

definition typed_chain :: "db \<Rightarrow> bool" where
  "typed_chain d \<longleftrightarrow> each typed_block_row (dbBlocks d) \<and> each typed_tx_row (dbTxs d) \<and> each typed_output_row (dbOutputs d)
     \<and> pred_option typed_sync_row (dbSync d)"

definition typed_mempool :: "db \<Rightarrow> bool" where
  "typed_mempool d \<longleftrightarrow> each typed_mempool_tx_row (dbMempoolTxs d) \<and> each typed_coin_row (dbMempoolOutputs d)
     \<and> each typed_mempool_spend_row (dbMempoolSpends d)"

definition typed_db :: "db \<Rightarrow> bool" where
  "typed_db d \<longleftrightarrow> typed_chain d \<and> typed_mempool d"

subsection \<open>Writes\<close>

lemma each_insert_new: "each P rs \<Longrightarrow> each P t \<Longrightarrow> each P (insert_new k rs t)"
  using insert_new_prefix [of k rs t] by (metis Un_iff set_append subsetD)

lemma pred_option_True [simp]: "pred_option (\<lambda>_. True) x"
  by (simp add: pred_option_def)

text \<open>Only the columns of an output that tell when it was spent ever change.\<close>

lemma typed_coin_row_spent [simp]:
  fixes r :: output_row
  shows "typed_coin_row (r\<lparr>orSpentSource := a, orSpentKind := b, orSpentVin := c, orSpentHeight := e\<rparr>) = typed_coin_row r"
  by (simp add: typed_coin_row_def row_out_point_def)

lemma row_point_of_create: "typed_out_point p \<Longrightarrow> orKind r = opKind p \<Longrightarrow> orSource r = opSource p \<Longrightarrow> orVout r = int32_of_u32 (opVout p)
    \<Longrightarrow> row_out_point r = p"
  by (simp add: row_out_point_def typed_out_point_def wf_out_point_def)

lemma typed_key: "typed_out_point p \<Longrightarrow> OutPointFromKey (Key p) = Inr p"
  by (simp add: typed_out_point_def OutPointFromKey_Key)

lemma typed_output_row_of:
  assumes "output_row_of pg bh h c = Inr r" and "typed_create c" and "wf_hash bh"
  shows "typed_output_row r"
proof -
  have p: "typed_out_point (soOutPoint c)" using assms(2) by (simp add: typed_create_def)
  have "row_out_point r = soOutPoint c"
    by (rule row_point_of_create [OF p]) (use assms(1) in \<open>auto simp: output_row_of_def bindE_eq_Inr\<close>)
  then show ?thesis using assms typed_key [OF p] p
    by (auto simp: output_row_of_def bindE_eq_Inr typed_output_row_def typed_coin_row_def typed_create_def typed_out_point_def wf_out_point_def)
qed

lemma typed_mempool_output_row:
  assumes "mempool_output_row pg c = Inr r" and "typed_create c"
  shows "typed_coin_row r"
proof -
  have p: "typed_out_point (soOutPoint c)" using assms(2) by (simp add: typed_create_def)
  have "row_out_point r = soOutPoint c"
    by (rule row_point_of_create [OF p]) (use assms(1) in \<open>auto simp: mempool_output_row_def bindE_eq_Inr split: option.splits\<close>)
  then show ?thesis using assms typed_key [OF p] p
    by (auto simp: mempool_output_row_def bindE_eq_Inr typed_coin_row_def typed_create_def typed_out_point_def wf_out_point_def split: option.splits)
qed

lemma pick_spend_member: "pick_spend pg sps k = Some s \<Longrightarrow> s \<in> set sps"
  by (auto simp: pick_spend_def Let_def split: if_splits)
     (metis (no_types, lifting) filter_is_subset length_greater_0_conv mod_less_divisor nth_mem subsetD)

lemma typed_mark_row:
  assumes "typed_output_row r" and "each typed_spend sps" and "int32_range h"
  shows "typed_output_row (mark_row pg sps h r)"
proof (cases "pick_spend pg sps (orOutpoint r)")
  case (Some s)
  then have "typed_spend s" using pick_spend_member assms(2) by blast
  then show ?thesis using assms(1,3) Some
    by (simp add: mark_row_def mark_spent_def typed_output_row_def typed_spend_def)
qed (use assms in \<open>simp add: mark_row_def\<close>)

lemma amount_bigint: "to_bigint v = Inr w \<Longrightarrow> 0 \<le> v \<Longrightarrow> amount w"
  by (auto simp: to_bigint_def amount_def split: if_splits)

lemma typed_set_fee: "set_fee outs h t = Inr t' \<Longrightarrow> typed_tx_row t \<Longrightarrow> typed_tx_row t'"
  by (auto simp: set_fee_def bindE_eq_Inr typed_tx_row_def fee_of_def intro: amount_bigint split: if_splits)

lemma typed_apply_tx:
  assumes "apply_tx pg b d = Inr (u, d')" and "typed_s_block b" and "typed_db d"
  shows "typed_db d'"
  using assms(1)
proof (rule apply_tx_Inr)
  fix rows t
  assume bs: "dbBlocks d' = dbBlocks d @ [block_row_of b]"
    and rows: "rows_of pg b rows" "foldE insert_output rows (dbOutputs d) = Inr t"
    and outs: "dbOutputs d' = map (mark_row pg (sbSpends b) (block_height b)) t"
    and fees: "mapE (set_fee (dbOutputs d') (block_height b))
       (insert_new xrTxid (map (tx_row_of (sbHeight b)) (sbTxs b)) (dbTxs d)) = Inr (dbTxs d')"
    and mempool: "dbMempoolTxs d' = filter (\<lambda>r. mrTxid r \<notin> stTxid ` set (sbTxs b)) (dbMempoolTxs d)"
      "dbMempoolOutputs d' = filter (\<lambda>r. orOutpoint r \<notin> create_key ` set (sbCreates b)) (dbMempoolOutputs d)"
      "dbMempoolSpends d' = filter (\<lambda>r. msOutpoint r \<notin> spend_key ` set (sbSpends b)) (dbMempoolSpends d)"
    and sync: "dbSync d' = map_option (\<lambda>s. s\<lparr>ssTipHeight := Some (block_height b), ssTipHash := Some (sbHash b)\<rparr>) (dbSync d)"
  note b = assms(2) [unfolded typed_s_block_def] and d = assms(3) [unfolded typed_db_def typed_chain_def]
  have "each typed_block_row (dbBlocks d')"
    using b d by (auto simp: bs typed_block_row_def block_row_of_def option.pred_map comp_def)
  moreover have "each typed_tx_row (insert_new xrTxid (map (tx_row_of (sbHeight b)) (sbTxs b)) (dbTxs d))"
    using b d by (intro each_insert_new) (auto simp: typed_tx_row_def tx_row_of_def amount_def)
  then have "each typed_tx_row (dbTxs d')" using mapE_setD [OF fees] typed_set_fee by blast
  moreover have "each typed_output_row rows"
    using rows(1) b by (auto simp: rows_of_def dest!: mapE_setD intro: typed_output_row_of)
  then have "each typed_output_row t" using d foldE_insert_output [OF rows(2)] each_insert_new by blast
  then have "each typed_output_row (dbOutputs d')" using b by (auto simp: outs intro!: typed_mark_row)
  moreover have "pred_option typed_sync_row (dbSync d')" using b by (auto simp: sync typed_sync_row_def option.pred_map comp_def split: option.splits)
  moreover have "typed_mempool d'" using d by (auto simp: mempool typed_mempool_def)
  ultimately show ?thesis by (simp add: typed_db_def typed_chain_def)
qed

lemma select_hash_typed: "each typed_block_row (dbBlocks d) \<Longrightarrow> select_hash h d = Some x \<Longrightarrow> wf_hash x"
  by (auto simp: select_hash_def typed_block_row_def dest!: find_SomeD)

lemma typed_unspend: "typed_output_row r \<Longrightarrow> typed_output_row (unspend h r)"
  by (auto simp: unspend_def typed_output_row_def split: option.splits)

lemma typed_update_tip:
  "typed_db d \<Longrightarrow> pred_option int32_range h \<Longrightarrow> pred_option wf_hash x \<Longrightarrow> typed_db (update_tip h x d)"
  by (auto simp: update_tip_def typed_db_def typed_chain_def typed_mempool_def typed_sync_row_def option.pred_map comp_def)

lemma typed_rolled_back:
  assumes "typed_db d" and "int32_range h"
  shows "typed_db (rolled_back h d)"
proof -
  let ?d = "delete_blocks_above h (delete_outputs_above h (unspend_above h d))"
  have d: "typed_db ?d" using assms(1)
    by (auto simp: delete_blocks_above_def delete_outputs_above_def unspend_above_def Let_def typed_db_def typed_chain_def
        typed_mempool_def typed_unspend)
  then have "each typed_block_row (dbBlocks ?d)" by (simp add: typed_db_def typed_chain_def)
  from select_hash_typed [OF this] d assms(2) show ?thesis
    unfolding rolled_back_def Let_def by (auto intro!: typed_update_tip split: option.splits)
qed

lemma typed_set_main: "typed_db d \<Longrightarrow> typed_db (set_main h m d)"
  by (auto simp: set_main_def typed_db_def typed_chain_def typed_mempool_def typed_block_row_def)

lemma first_seen_typed: "each typed_mempool_tx_row (dbMempoolTxs d) \<Longrightarrow> first_seen d x = Some v \<Longrightarrow> int64_range v"
  by (auto simp: first_seen_def typed_mempool_tx_row_def dest!: map_of_SomeD)

lemma setMempoolFees_amount:
  assumes "setMempoolFees pg d = Inr d'" and "t \<in> set (dbMempoolTxs d')"
  shows "amount (mrFeeSats t)"
proof -
  obtain txs where m: "mapE (\<lambda>t. bindE (to_bigint (mempool_fee d (mrTxid t))) (\<lambda>v. Inr (t\<lparr>mrFeeSats := v\<rparr>))) (dbMempoolTxs d) = Inr txs"
    and d': "d' = d\<lparr>dbMempoolTxs := txs\<rparr>"
    using assms(1) by (auto simp: setMempoolFees_def exec_eq_Inr bindE_eq_Inr)
  have "t \<in> set txs" using assms(2) d' by simp
  from mapE_setD [OF m this] show ?thesis by (auto simp: bindE_eq_Inr intro: amount_bigint [OF _ mempool_fee_nonneg])
qed

lemma replace_tx_amount:
  assumes "replace_tx pg now pool d = Inr (u, d')" and "t \<in> set (dbMempoolTxs d')"
  shows "amount (mrFeeSats t)"
proof -
  obtain d3 where "setMempoolFees pg d3 = Inr d'" using assms(1) by (auto simp: replace_tx_def bindE_eq_Inr exec_eq_Inr)
  then show ?thesis using setMempoolFees_amount assms(2) by blast
qed

lemma typed_replace_tx:
  assumes "replace_tx pg now pool d = Inr (u, d')" and "typed_pool pool" and "int64_range now" and "typed_db d"
  shows "typed_db d'"
  using assms(1)
proof (rule replace_tx_Inr)
  fix rows
  assume rows: "mapE (mempool_output_row pg) (smCreates pool) = Inr rows"
    and outs: "dbMempoolOutputs d' = insert_new orOutpoint rows []"
    and spends: "dbMempoolSpends d' = insert_new msOutpoint (map mempool_spend_row (smSpends pool)) []"
    and txs: "dbMempoolTxs d' = map (with_fee d') (map (mempool_tx_row_of (first_seen d) now) (smTxs pool))"
    and chain: "chain_tables d' = chain_tables d"
  note p = assms(2) [unfolded typed_pool_def] and d = assms(4) [unfolded typed_db_def typed_mempool_def]
  have seen: "int64_range (case first_seen d x of Some v \<Rightarrow> v | None \<Rightarrow> now)" for x
    using d assms(3) first_seen_typed [of d x] by (auto split: option.splits)
  have "each typed_mempool_tx_row (dbMempoolTxs d')"
  proof
    fix t assume t: "t \<in> set (dbMempoolTxs d')"
    then obtain e where "e \<in> set (smTxs pool)" "t = with_fee d' (mempool_tx_row_of (first_seen d) now e)" by (auto simp: txs)
    then show "typed_mempool_tx_row t"
      using p seen replace_tx_amount [OF assms(1) t] by (simp add: typed_mempool_tx_row_def with_fee_def mempool_tx_row_of_def)
  qed
  moreover have "each typed_coin_row (dbMempoolOutputs d')"
    unfolding outs using p by (intro each_insert_new) (auto dest!: mapE_setD [OF rows] intro: typed_mempool_output_row)
  moreover have "each typed_mempool_spend_row (dbMempoolSpends d')"
    unfolding spends using p typed_key
    by (intro each_insert_new) (auto simp: typed_mempool_spend_row_def mempool_spend_row_def typed_spend_def)
  ultimately show ?thesis using d chain by (simp add: typed_db_def typed_chain_def typed_mempool_def chain_tables_def)
qed

lemma typed_writes:
  assumes "typed_db d"
  shows "typed_s_block b \<Longrightarrow> typed_db (snd (Apply pg b d))" and "typed_db (snd (Rollback pg h d))"
    and "typed_db (snd (SetMainHeight pg h m d))" and "typed_db (snd (Init pg c n d))"
    and "typed_pool pool \<Longrightarrow> int64_range now \<Longrightarrow> typed_db (snd (ReplaceMempool pg now pool d))"
proof -
  show "typed_db (snd (Apply pg b d))" if "typed_s_block b"
    using typed_apply_tx [OF _ that assms] assms by (cases "Apply pg b d") (auto simp: Apply_def elim!: inTx_cases)
  show "typed_db (snd (Rollback pg h d))"
    using typed_rolled_back [OF assms] assms
    by (cases "Rollback pg h d") (auto simp: Rollback_def elim!: inTx_cases dest!: rollback_tx_Inr)
  show "typed_db (snd (SetMainHeight pg h m d))"
    using typed_set_main [OF assms] assms by (cases "SetMainHeight pg h m d") (auto simp: SetMainHeight_alt elim!: autocommit_cases)
  show "typed_db (snd (Init pg c n d))"
    using assms by (cases "Init pg c n d")
      (auto simp: Init_def typed_db_def typed_chain_def typed_mempool_def typed_sync_row_def elim!: inTx_cases dest!: init_tx_Inr)
  show "typed_db (snd (ReplaceMempool pg now pool d))" if "typed_pool pool" "int64_range now"
    using typed_replace_tx [OF _ that assms] assms by (cases "ReplaceMempool pg now pool d") (auto simp: ReplaceMempool_def elim!: inTx_cases)
qed

subsection \<open>Passes\<close>

text \<open>What surrounds the loops, as far as types go: conforming answers, clocks that fit a \<open>bigint\<close>, and a
  mempool loop that writes conforming snapshots.\<close>

definition typed_env :: "env \<Rightarrow> bool" where
  "typed_env env \<longleftrightarrow> (\<forall>t. typed_node (moNode (env t)) \<and> (\<forall>x v. moTime (env t) x = Inr v \<longrightarrow> int64_range v)
     \<and> int64_range (moNow (env t)) \<and> each (\<lambda>(pg, now, pool). int64_range now \<and> typed_pool pool) (moOthers (env t)))"

abbreviation typed_state :: "syst \<Rightarrow> bool" where
  "typed_state s \<equiv> typed_db (syDb s)"

abbreviation stays :: "(syst, 'a) act \<Rightarrow> bool" where
  "stays m \<equiv> triple typed_state m (\<lambda>_. typed_state) typed_state"

named_theorems stays_rules \<open>actions that keep the types of the index\<close>

lemma typed_meddled:
  assumes "typed_env env" and "typed_state s"
  shows "typed_state (meddled env s)"
proof -
  have "typed_db (fold (\<lambda>(pg, now, pool) d. snd (ReplaceMempool pg now pool d)) rs d)"
    if "each (\<lambda>(pg, now, pool). int64_range now \<and> typed_pool pool) rs" "typed_db d" for rs d
    using that by (induction rs arbitrary: d) (auto intro: typed_writes(5))
  then show ?thesis using assms by (simp add: meddled_def meddle_def typed_env_def)
qed

lemma stays_ret [stays_rules]: "stays (retA x)" and stays_fail [stays_rules]: "stays (failA e)"
  and stays_lift [stays_rules]: "stays (liftA r)"
  by (auto intro: triple_ret triple_fail triple_lift)

lemma triple_typed_ask: "triple typed_state (ask env f) (\<lambda>x s. typed_state s \<and> (\<exists>t. f (env t) = Inr x)) typed_state"
  by (rule triple_ask) simp_all

lemma stays_ask [stays_rules]: "stays (ask env f)"
  by (rule triple_conseq [OF triple_typed_ask]) simp_all

lemma stays_read [stays_rules]: "typed_env env \<Longrightarrow> stays (store_read env q)"
  by (intro tripleI) (auto simp: store_read_def typed_meddled)

lemma stays_write:
  assumes "typed_env env" and "\<And>pg d. typed_db d \<Longrightarrow> typed_db (snd (w pg d))"
  shows "stays (store_write env w)"
proof -
  have w: "typed_db d" if "typed_state s" "w pg (syDb s) = (r, d)" for pg s r d
    using that assms(2) [of "syDb s" pg] by simp
  show ?thesis by (rule store_write_triple) (simp_all add: w typed_meddled [OF assms(1)])
qed

lemma stays_bind [stays_rules]: "stays m \<Longrightarrow> (\<And>x. stays (f x)) \<Longrightarrow> stays (bindA m f)"
  by (rule triple_bind)

lemma stays_if [stays_rules]: "stays m \<Longrightarrow> stays n \<Longrightarrow> stays (if c then m else n)"
  by simp

lemma stays_option [stays_rules]: "stays m \<Longrightarrow> (\<And>x. stays (f x)) \<Longrightarrow> stays (case r of None \<Rightarrow> m | Some x \<Rightarrow> f x)"
  by (cases r) simp_all

lemma stays_whileA [stays_rules]: "(\<And>x. stays (body x)) \<Longrightarrow> stays (whileA body xs)"
  by (induction xs) (auto intro!: stays_rules)

lemma stays_fork_scan [stays_rules]: "(\<And>h. stays (ours h)) \<Longrightarrow> (\<And>h. stays (theirs h)) \<Longrightarrow> stays (fork_scan ours theirs n)"
  by (induction n) (auto intro!: stays_rules)

lemma stays_read_tip [stays_rules]: "stays (read_tip env)"
  by (auto intro!: tripleI simp: read_tip_def ask_def bindA_def drop_node_def failA_def split: sum.splits error.splits prod.splits)

lemma stays_Rollback [stays_rules]: "typed_env env \<Longrightarrow> stays (store_Rollback env h)"
  unfolding store_Rollback_def by (rule stays_write) (simp_all add: typed_writes)

text \<open>Rules that hand on what an answer conforms to.\<close>

lemma stays_ask_bind:
  assumes "\<And>x t. f (env t) = Inr x \<Longrightarrow> stays (g x)"
  shows "stays (bindA (ask env f) g)"
proof (rule triple_bind [OF triple_typed_ask], rule triple_if)
  fix x assume "\<exists>t. f (env t) = Inr x"
  then show "stays (g x)" using assms by blast
qed

lemma stays_lift_bind: "(\<And>x. r = Inr x \<Longrightarrow> stays (g x)) \<Longrightarrow> stays (bindA (liftA r) g)"
  by (cases r) (simp_all add: liftA_Inr, simp add: triple_def bindA_def liftA_def)

lemma stays_case: "stays m \<Longrightarrow> (\<And>x. r = Some x \<Longrightarrow> stays (f x)) \<Longrightarrow> stays (case r of None \<Rightarrow> m | Some x \<Rightarrow> f x)"
  by (cases r) simp_all

lemma stays_time_bind:
  assumes "typed_env env" and "\<And>bt. pred_option int64_range bt \<Longrightarrow> stays (g bt)"
  shows "stays (bindA (blockTime cf env x) g)"
proof (cases "cfTimes cf")
  case True
  then show ?thesis
    unfolding blockTime_def using assms by (auto intro!: stays_ask_bind simp: bindE_eq_Inr typed_env_def)
qed (use assms(2) in \<open>simp add: blockTime_def\<close>)

lemma stays_applyHeight [stays_rules]:
  assumes env: "typed_env env" and dec: "output_decoder (cfDecoder cf)" and blake3: "\<And>bs. wf_hash (cfBlake3 cf bs)"
  shows "stays (applyHeight cf env h)"
  unfolding applyHeight_def BlockHashAt_def GetBlock_def GetBlockIndex_def
proof (intro stays_ask_bind stays_case stays_time_bind stays_lift_bind stays_ret stays_fail env)
  fix found t hash blk t1 block bi t2 bt rows
  assume got: "ndHashAt (moNode (env t)) h = Inr found" "found = Some hash" "ndBlock (moNode (env t1)) hash = Inr blk" "blk = Some block"
    "ndIndex (moNode (env t2)) hash = Inr bi" and bt: "pred_option int64_range bt"
    and rows: "Prepare (cfBlake3 cf) h hash block bi (cfDecoder cf) bt = Inr rows"
  have node: "typed_node (moNode (env t))" for t using env by (simp add: typed_env_def)
  have "wf_hash hash" "typed_block block" "typed_block_index bi" using node got unfolding typed_node_def by blast+
  from typed_Prepare [OF rows dec blake3 this bt] have "typed_s_block (rows\<lparr>sbMainHeight := main\<rparr>)" for main
    by (simp add: typed_s_block_def)
  then show "stays (bindA (mainHeight cf env (hPrevMainHash (bkHeader block))) (\<lambda>main.
      bindA (store_write env (\<lambda>pg. Apply pg (rows\<lparr>sbMainHeight := main\<rparr>))) (\<lambda>_. retA True)))"
    unfolding mainHeight_def by (intro stays_rules stays_write [OF env] typed_writes(1))
qed

lemma stays_eachA [stays_rules]: "(\<And>x. stays (body x)) \<Longrightarrow> stays (eachA body xs)"
  by (rule triple_eachA)

lemma stays_SetMainHeight [stays_rules]: "typed_env env \<Longrightarrow> stays (store_write env (\<lambda>pg. SetMainHeight pg h m))"
  by (rule stays_write) (simp_all add: typed_writes)

lemma stays_Once:
  assumes "typed_env env" and "output_decoder (cfDecoder cf)" and "\<And>bs. wf_hash (cfBlake3 cf bs)"
  shows "stays (Once cf env)"
  unfolding Once_def resolveStart_def findFork_def applyHeights_def backfillMainHeights_def mainHeight_def check_ctx_def
    store_HashAt_def BlockHashAt_def split_def
  by (intro stays_rules assms)

lemma stays_MempoolOnce:
  assumes env: "typed_env env" and dec: "output_decoder (cfDecoder cf)"
  shows "stays (MempoolOnce cf env)"
proof -
  have replace: "stays (bindA (ask env (\<lambda>m. Inr (moNow m))) (\<lambda>now. store_write env (\<lambda>pg. ReplaceMempool pg now pool)))"
    if "typed_pool pool" for pool
  proof (rule stays_ask_bind)
    fix now t assume "Inr (moNow (env t)) = Inr now"
    then have "int64_range now" using env by (auto simp: typed_env_def)
    then show "stays (store_write env (\<lambda>pg. ReplaceMempool pg now pool))"
      using that by (intro stays_write [OF env] typed_writes(5))
  qed
  have read: "triple typed_state (ask_or_drop env (\<lambda>m. ndMempool (moNode m))) (\<lambda>ts s. typed_state s \<and> each typed_mempool_tx ts) typed_state"
  proof -
    have "each typed_mempool_tx ts" if "ndMempool (moNode (env t)) = Inr ts" for ts t
      using that env by (simp add: typed_env_def typed_node_def)
    then show ?thesis
      by (intro tripleI) (auto simp: ask_or_drop_def ask_def bindA_def drop_node_def failA_def split: sum.splits prod.splits)
  qed
  have "stays (bindA (liftA (PrepareMempool ts (cfDecoder cf))) (\<lambda>pool.
      bindA (ask env (\<lambda>m. Inr (moNow m))) (\<lambda>now. store_write env (\<lambda>pg. ReplaceMempool pg now pool))))"
    if "each typed_mempool_tx ts" for ts
    by (intro stays_lift_bind replace typed_PrepareMempool [OF _ dec that])
  then have "stays (bindA (ask_or_drop env (\<lambda>m. ndMempool (moNode m))) (\<lambda>ts. bindA (liftA (PrepareMempool ts (cfDecoder cf))) (\<lambda>pool.
      bindA (ask env (\<lambda>m. Inr (moNow m))) (\<lambda>now. store_write env (\<lambda>pg. ReplaceMempool pg now pool)))))"
    by (intro triple_bind [OF read] triple_if)
  then show ?thesis unfolding MempoolOnce_def by (rule stays_bind [OF stays_ask stays_bind [OF stays_ask]])
qed

subsection \<open>Properties\<close>

text \<open>
  What the program is fed with: each moment of the environment has a client of the node with whatever exchange behind it, the clocks
  are \<open>int64\<close> values, and a snapshot of the other loop was read through such a client too.
\<close>

definition fed_by_texts :: "(string \<Rightarrow> bytes option) \<Rightarrow> (json \<Rightarrow> string) \<Rightarrow> parser \<Rightarrow> config \<Rightarrow> env \<Rightarrow> bool" where
  "fed_by_texts b58 print parse cf env \<longleftrightarrow> (\<forall>t. (\<exists>client. moNode (env t) = rpc_node b58 print parse client)
     \<and> (\<forall>x v. moTime (env t) x = Inr v \<longrightarrow> int64_range v) \<and> int64_range (moNow (env t))
     \<and> (\<forall>(pg, now, pool) \<in> set (moOthers (env t)). int64_range now
          \<and> (\<exists>client ts. ndMempool (rpc_node b58 print parse client) = Inr ts \<and> PrepareMempool ts (cfDecoder cf) = Inr pool)))"

lemma fed_typed_env:
  assumes "fed_by_texts b58 print parse cf env" and "output_decoder (cfDecoder cf)"
  shows "typed_env env"
  unfolding typed_env_def
proof (intro allI conjI ballI impI)
  fix t
  show "typed_node (moNode (env t))" using assms(1) rpc_node_typed by (metis fed_by_texts_def)
  show "int64_range v" if "moTime (env t) x = Inr v" for x v using assms(1) that by (auto simp: fed_by_texts_def)
  show "int64_range (moNow (env t))" using assms(1) by (simp add: fed_by_texts_def)
  fix other assume other: "other \<in> set (moOthers (env t))"
  obtain pg now pool where o: "other = (pg, now, pool)" by (cases other)
  obtain client ts where "int64_range now" "ndMempool (rpc_node b58 print parse client) = Inr ts" "PrepareMempool ts (cfDecoder cf) = Inr pool"
    using assms(1) other unfolding fed_by_texts_def o by blast
  then show "case other of (pg, now, pool) \<Rightarrow> int64_range now \<and> typed_pool pool"
    using typed_PrepareMempool [OF _ assms(2)] rpc_node_typed [of b58 print parse client] by (simp add: o typed_node_def)
qed

text \<open>
  C10. Whatever texts the other side of the node connection sends, in whatever moment, every column of the index
  holds a value of its type: a pass of either loop and a loop that has returned leave hashes of 32 bytes, addresses of 20, keys that are those of their rows and
  read back as outpoints of a known kind, amounts that are non-negative \<open>bigint\<close> values and integers in the range of their column. No order or
  consistency of the answers is assumed, only a registered decoder and a \<open>blake3\<close> with 32 bytes.
\<close>

theorem columns_keep_their_types:
  assumes "fed_by_texts b58 print parse cf env" and "Lookup registered name = Inr (spec, cfDecoder cf)"
    and "\<And>bs. length (cfBlake3 cf bs) = 32" and "typed_db (syDb s)"
  shows "typed_db (syDb (snd (Once cf env s))) \<and> typed_db (syDb (snd (MempoolOnce cf env s)))
    \<and> (\<forall>e s'. Run cf env s = Some (e, s') \<or> MempoolRun cf env s = Some (e, s') \<longrightarrow> typed_db (syDb s'))"
proof -
  have dec: "output_decoder (cfDecoder cf)" using assms(2) Lookup_range by blast
  have env: "typed_env env" using assms(1) dec by (rule fed_typed_env)
  have "wf_hash (cfBlake3 cf bs)" for bs using assms(3) by (simp add: wf_hash_def)
  note once = triple_keeps [OF stays_Once [OF env dec this]] and mempool = triple_keeps [OF stays_MempoolOnce [OF env dec]]
  have "typed_db (syDb s')" if "Run cf env s = Some (e, s') \<or> MempoolRun cf env s = Some (e, s')" for e s'
    using that poll_keeps [of typed_state env _ s "(e, s')", OF _ _ once] poll_keeps [of typed_state env _ s "(e, s')", OF _ _ mempool] assms(4)
    unfolding Run_def MempoolRun_def by auto
  then show ?thesis using once mempool assms(4) by (simp add: keeps_def)
qed

text \<open>The index of the example and the node of the end-to-end tests, both behind the texts of the protocol.\<close>

definition ex_fed :: env where
  "ex_fed t = (ex_env [] t)\<lparr>moNode := rpc_node ex_dec write_json read_json (ex_client t), moOthers := []\<rparr>"

lemma ex_typed_db: "typed_db ex_db1"
proof -
  have "typed_s_block ex_genesis" "typed_s_block ex_block1"
    by (simp_all add: ex_defs typed_s_block_def typed_create_def typed_spend_def typed_out_point_def wf_out_point_def
        known_kind_def amount_def wf_hash_def wf_address_def)
  moreover have "typed_db ex_empty"
    by (simp add: ex_empty_def empty_db_def typed_db_def typed_chain_def typed_mempool_def typed_sync_row_def)
  ultimately show ?thesis unfolding ex_db1_def ex_db0_def by (intro typed_writes(1))
qed

theorem columns_keep_their_types_witness:
  "typed_db (syDb (snd (Once ex_config ex_fed ex_index))) \<and> typed_db (syDb (snd (MempoolOnce ex_config ex_fed ex_index)))"
proof -
  have "fed_by_texts ex_dec write_json read_json ex_config ex_fed"
    by (auto simp: fed_by_texts_def ex_fed_def ex_env_def int64_range_def)
  moreover have "Lookup registered ''thunder'' = Inr (the (map_of specs ''thunder''), cfDecoder ex_config)"
    by (simp add: Lookup_def specs_def registered_def ex_config_def)
  moreover have "length (cfBlake3 ex_config bs) = 32" for bs by (simp add: ex_config_def)
  moreover have "typed_db (syDb ex_index)" using ex_typed_db by (simp add: ex_index_def)
  ultimately show ?thesis using columns_keep_their_types by blast
qed

end
