(* ===== verification/Migrate.thy ===== *)
theory Migrate
  imports Action Store "HOL-Library.List_Lexorder"
begin

text \<open>
  Opening the store: \<open>Open\<close> and the migrations of \<open>internal/store/store.go\<close>. What Postgres does with the
  text of a migration is an argument, \<open>run_sql\<close>, and so is the directory the program embeds. The catalog
  is what the statements have built so far, and the names the \<open>migrations\<close> table records; it is \<open>None\<close> before that
  table exists. The argument \<open>pgs\<close> is how Postgres behaves during one start: at each migration, by its
  name, and at the statements before them, under the empty name.
\<close>

record 's catalog =
  cgTables :: 's
  cgApplied :: "string list option"

definition applied_names :: "'s catalog \<Rightarrow> string list" where
  "applied_names c = (case cgApplied c of None \<Rightarrow> [] | Some names \<Rightarrow> names)"

text \<open>One embedded file: its name, whether it is a directory, and its text.\<close>

record entry =
  enName :: string
  enIsDir :: bool
  enBody :: string

definition migrationNames :: "entry list \<Rightarrow> string list" where
  "migrationNames entries = sort_key (map (of_char :: char \<Rightarrow> nat)) (map enName (filter (\<lambda>e. \<not> enIsDir e) entries))"

definition ReadFile :: "entry list \<Rightarrow> string \<Rightarrow> string res" where
  "ReadFile entries name = (case find (\<lambda>e. enName e = name \<and> \<not> enIsDir e) entries of
     None \<Rightarrow> Inl ErrNotFound | Some e \<Rightarrow> Inr (enBody e))"

definition create_table :: "pg \<Rightarrow> ('s catalog, unit) act" where
  "create_table pg c =
     (if pgFault pg (SQuery ''create migrations'') then (Inl ErrDatabase, c)
      else (Inr (), c\<lparr>cgApplied := Some (applied_names c)\<rparr>))"

definition migrationApplied :: "pg \<Rightarrow> string \<Rightarrow> ('s catalog, bool) act" where
  "migrationApplied pg name c = (exec pg (SQuery (''applied '' @ name)) (Inr (name \<in> set (applied_names c))), c)"

text \<open>The migration and its record in one transaction.\<close>

definition applyMigration :: "pg \<Rightarrow> (string \<Rightarrow> 's \<Rightarrow> 's res) \<Rightarrow> string \<Rightarrow> string \<Rightarrow> ('s catalog, unit) act" where
  "applyMigration pg run_sql name text c =
     (case exec pg SBegin
        (bindE (exec pg (SQuery (''run '' @ name)) (run_sql text (cgTables c))) (\<lambda>tables.
         exec pg (SQuery (''record '' @ name))
           (if name \<in> set (applied_names c) then Inl ErrUnique
            else Inr \<lparr>cgTables = tables, cgApplied = Some (applied_names c @ [name])\<rparr>))) of
        Inl e \<Rightarrow> (Inl e, c)
      | Inr c' \<Rightarrow> (case pgCommit pg of Committed \<Rightarrow> (Inr (), c') | Aborted \<Rightarrow> (Inl ErrDatabase, c) | Lost \<Rightarrow> (Inl ErrDatabase, c')))"

definition migrate_one :: "(string \<Rightarrow> pg) \<Rightarrow> (string \<Rightarrow> 's \<Rightarrow> 's res) \<Rightarrow> entry list \<Rightarrow> string \<Rightarrow> ('s catalog, unit) act" where
  "migrate_one pgs run_sql entries name =
     bindA (migrationApplied (pgs name) name) (\<lambda>applied.
       if applied then retA ()
       else bindA (liftA (ReadFile entries name)) (applyMigration (pgs name) run_sql name))"

definition migrate :: "(string \<Rightarrow> pg) \<Rightarrow> (string \<Rightarrow> 's \<Rightarrow> 's res) \<Rightarrow> entry list \<Rightarrow> ('s catalog, unit) act" where
  "migrate pgs run_sql entries =
     bindA (create_table (pgs [])) (\<lambda>_. eachA (migrate_one pgs run_sql entries) (migrationNames entries))"

text \<open>A pool that cannot be made or does not answer the ping is closed again.\<close>

definition Open :: "(string \<Rightarrow> pg) \<Rightarrow> (string \<Rightarrow> 's \<Rightarrow> 's res) \<Rightarrow> entry list \<Rightarrow> ('s catalog, unit) act" where
  "Open pgs run_sql entries =
     bindA (liftA (exec (pgs []) (SQuery ''connect'') (Inr ()))) (\<lambda>_.
     bindA (liftA (exec (pgs []) (SQuery ''ping'') (Inr ()))) (\<lambda>_.
     migrate pgs run_sql entries))"

subsection \<open>Each migration once and in order\<close>

text \<open>The first \<open>n\<close> migrations have run on \<open>start\<close>, in the order of their names, and are recorded.\<close>

definition migrated :: "(string \<Rightarrow> 's \<Rightarrow> 's res) \<Rightarrow> entry list \<Rightarrow> 's \<Rightarrow> nat \<Rightarrow> 's catalog \<Rightarrow> bool" where
  "migrated run_sql entries start n c \<longleftrightarrow>
     n \<le> length (migrationNames entries) \<and> applied_names c = take n (migrationNames entries)
     \<and> foldE (\<lambda>name s. bindE (ReadFile entries name) (\<lambda>text. run_sql text s)) (take n (migrationNames entries)) start = Inr (cgTables c)"

lemma foldE_snoc: "foldE f (xs @ [x]) s = bindE (foldE f xs s) (f x)"
  by (induction xs arbitrary: s) (simp_all add: bindE_def split: sum.splits)

lemma applyMigration_effect:
  assumes "applyMigration pg run_sql name text c = (r, c')"
  shows "c' = c \<and> (\<exists>e. r = Inl e)
    \<or> (\<exists>tables. run_sql text (cgTables c) = Inr tables \<and> name \<notin> set (applied_names c)
        \<and> c' = \<lparr>cgTables = tables, cgApplied = Some (applied_names c @ [name])\<rparr> \<and> (r = Inr () \<or> r = Inl ErrDatabase))"
  using assms by (auto simp: applyMigration_def exec_def bindE_def split: if_splits sum.splits commit_outcome.splits)

lemma migrated_step:
  assumes "migrated run_sql entries start n c" and "n < length (migrationNames entries)"
    and "ReadFile entries (migrationNames entries ! n) = Inr text" and "run_sql text (cgTables c) = Inr tables"
  shows "migrated run_sql entries start (Suc n) \<lparr>cgTables = tables, cgApplied = Some (applied_names c @ [migrationNames entries ! n])\<rparr>"
  using assms by (simp add: migrated_def take_Suc_conv_app_nth foldE_snoc applied_names_def)

text \<open>The loop from the \<open>k\<close>-th name on.\<close>

lemma migrate_loop:
  assumes "distinct (migrationNames entries)"
  shows "drop k (migrationNames entries) = rest \<Longrightarrow> k \<le> n \<Longrightarrow> migrated run_sql entries start n c
    \<Longrightarrow> eachA (migrate_one pg run_sql entries) rest c = (r, c')
    \<Longrightarrow> \<exists>m. migrated run_sql entries start m c' \<and> (r = Inr () \<longrightarrow> m = length (migrationNames entries))"
proof (induction rest arbitrary: k n c)
  case Nil
  then show ?case by (auto simp: retA_def migrated_def intro!: exI [of _ n])
next
  case (Cons name rest)
  let ?names = "migrationNames entries"
  have len: "k < length ?names" using Cons.prems(1) by (cases "k < length ?names") simp_all
  have "?names ! k # drop (Suc k) ?names = name # rest" using Cons_nth_drop_Suc [OF len] Cons.prems(1) by simp
  then have k: "k < length ?names" "?names ! k = name" "drop (Suc k) ?names = rest" using len by simp_all
  have applied: "applied_names c = take n ?names" using Cons.prems(3) by (simp add: migrated_def)
  obtain r1 c1 where one: "migrate_one pg run_sql entries name c = (r1, c1)" by (cases "migrate_one pg run_sql entries name c")
  show ?case
  proof (cases "k < n")
    case True
    then have "name \<in> set (applied_names c)" using k applied by (auto simp: in_set_conv_nth)
    then have c1: "c1 = c" "r1 = Inr () \<or> r1 = Inl ErrDatabase"
      using one by (auto simp: migrate_one_def bindA_def migrationApplied_def exec_def retA_def split: if_splits)
    show ?thesis
    proof (cases "r1 = Inr ()")
      case True
      then have "eachA (migrate_one pg run_sql entries) rest c = (r, c')" using Cons.prems(4) one c1(1) by (simp add: bindA_def)
      then show ?thesis using Cons.IH [OF k(3) _ Cons.prems(3)] \<open>k < n\<close> by simp
    next
      case False
      then have "r = Inl ErrDatabase" "c' = c" using Cons.prems(4) one c1 by (auto simp: bindA_def)
      then show ?thesis using Cons.prems(3) by blast
    qed
  next
    case False
    then have n: "n = k" using Cons.prems(2) by simp
    have "name \<notin> set (take k ?names)" using assms k by (auto simp: in_set_conv_nth nth_eq_iff_index_eq)
    then have "migrate_one pg run_sql entries name c = (Inl ErrDatabase, c)
      \<or> migrate_one pg run_sql entries name c = bindA (liftA (ReadFile entries name)) (applyMigration (pg name) run_sql name) c"
      using applied n by (auto simp: migrate_one_def bindA_def migrationApplied_def exec_def)
    then consider (untouched) e where "r1 = Inl e" "c1 = c"
      | (applied) sql tables where "ReadFile entries name = Inr sql" "run_sql sql (cgTables c) = Inr tables"
          "c1 = \<lparr>cgTables = tables, cgApplied = Some (applied_names c @ [name])\<rparr>" "r1 = Inr () \<or> r1 = Inl ErrDatabase"
      using one by (auto simp: bindA_def liftA_def split: sum.splits dest!: sym [THEN applyMigration_effect])
    then show ?thesis
    proof cases
      case untouched
      then have "r = Inl e" "c' = c" using Cons.prems(4) one by (auto simp: bindA_def)
      then show ?thesis using Cons.prems(3) by blast
    next
      case applied
      then have ran: "migrated run_sql entries start (Suc k) c1"
        using migrated_step [of run_sql entries start k c] Cons.prems(3) n k by auto
      show ?thesis
      proof (cases "r1 = Inr ()")
        case True
        then have "eachA (migrate_one pg run_sql entries) rest c1 = (r, c')" using Cons.prems(4) one by (simp add: bindA_def)
        then show ?thesis using Cons.IH [OF k(3) _ ran] by simp
      next
        case False
        then have "r = Inl ErrDatabase" "c' = c1" using applied(4) Cons.prems(4) one by (auto simp: bindA_def)
        then show ?thesis using ran by blast
      qed
    qed
  qed
qed

lemma Open_migrated:
  assumes "distinct (migrationNames entries)" and "migrated run_sql entries start n c" and "Open pg run_sql entries c = (r, c')"
  shows "\<exists>m. migrated run_sql entries start m c' \<and> (r = Inr () \<longrightarrow> m = length (migrationNames entries))"
proof -
  let ?c = "c\<lparr>cgApplied := Some (applied_names c)\<rparr>"
  have mc: "migrated run_sql entries start n ?c" using assms(2) by (simp add: migrated_def applied_names_def)
  consider "\<exists>e. r = Inl e" "c' = c" | "eachA (migrate_one pg run_sql entries) (migrationNames entries) ?c = (r, c')"
    using assms(3) by (auto simp: Open_def migrate_def bindA_def liftA_def exec_def create_table_def split: if_splits)
  then show ?thesis
  proof cases
    case 1
    then show ?thesis using assms(2) by auto
  next
    case 2
    then show ?thesis using migrate_loop [OF assms(1), of 0 _ n, OF _ _ mc] by simp
  qed
qed

text \<open>A start of the program after another, each with its own faults.\<close>

fun restarts :: "(string \<Rightarrow> 's \<Rightarrow> 's res) \<Rightarrow> entry list \<Rightarrow> (string \<Rightarrow> pg) list \<Rightarrow> 's catalog \<Rightarrow> 's catalog" where
  "restarts run_sql entries [] c = c"
| "restarts run_sql entries (pg # pgs) c = restarts run_sql entries pgs (snd (Open pg run_sql entries c))"

lemma restarts_migrated:
  assumes "distinct (migrationNames entries)"
  shows "migrated run_sql entries start n c \<Longrightarrow> \<exists>m. migrated run_sql entries start m (restarts run_sql entries pgs c)"
proof (induction pgs arbitrary: n c)
  case (Cons pg pgs)
  obtain r c' where o: "Open pg run_sql entries c = (r, c')" by (cases "Open pg run_sql entries c")
  obtain m where "migrated run_sql entries start m c'" using Open_migrated [OF assms Cons.prems o] by blast
  then show ?case using Cons.IH o by simp
qed auto

text \<open>
  C40. No migration is skipped, repeated or run out of order. After any number of starts on a new database,
  each broken off anywhere by a failed statement, an aborted commit or a commit whose answer was lost, the
  tables are those of the first migrations in the order of their names, each run once, and exactly these
  are recorded; and when a start reports success, these are all of them.
\<close>

theorem migrations_exactly_once:
  assumes "distinct (migrationNames entries)" and "cgApplied c = None"
  shows "\<exists>n. migrated run_sql entries (cgTables c) n (restarts run_sql entries pgs c)
    \<and> (fst (Open pg run_sql entries (restarts run_sql entries pgs c)) = Inr () \<longrightarrow>
        migrated run_sql entries (cgTables c) (length (migrationNames entries)) (snd (Open pg run_sql entries (restarts run_sql entries pgs c))))"
proof -
  have "migrated run_sql entries (cgTables c) 0 c" using assms(2) by (simp add: migrated_def applied_names_def)
  from restarts_migrated [OF assms(1) this, of pgs]
  obtain n where n: "migrated run_sql entries (cgTables c) n (restarts run_sql entries pgs c)" ..
  obtain r c' where o: "Open pg run_sql entries (restarts run_sql entries pgs c) = (r, c')" by fastforce
  show ?thesis using n Open_migrated [OF assms(1) n o] o by auto
qed

text \<open>Two files in the wrong order, and a first start whose second commit loses its answer.\<close>

definition ex_entries :: "entry list" where
  "ex_entries = [\<lparr>enName = ''002_b'', enIsDir = False, enBody = ''B''\<rparr>, \<lparr>enName = ''001_a'', enIsDir = False, enBody = ''A''\<rparr>,
     \<lparr>enName = ''old'', enIsDir = True, enBody = []\<rparr>]"

definition ex_run :: "string \<Rightarrow> string \<Rightarrow> string res" where
  "ex_run text tables = Inr (tables @ text)"

definition ex_good_pg :: pg where
  "ex_good_pg = \<lparr>pgFault = \<lambda>_. False, pgCommit = Committed, pgJsonb = Some, pgPick = \<lambda>_. 0\<rparr>"

text \<open>The second commit is done but its answer is lost.\<close>

definition ex_second_lost :: "string \<Rightarrow> pg" where
  "ex_second_lost name = (if name = ''002_b'' then ex_good_pg\<lparr>pgCommit := Lost\<rparr> else ex_good_pg)"

definition ex_catalog :: "string catalog" where
  "ex_catalog = \<lparr>cgTables = [], cgApplied = None\<rparr>"

lemma ex_catalog_tables: "cgTables ex_catalog = []"
  by (simp add: ex_catalog_def)

lemma ex_names: "migrationNames ex_entries = [''001_a'', ''002_b'']"
  by (simp add: migrationNames_def ex_entries_def)

lemma ex_read: "ReadFile ex_entries ''001_a'' = Inr ''A''" "ReadFile ex_entries ''002_b'' = Inr ''B''"
  by (simp_all add: ReadFile_def ex_entries_def)

lemmas ex_open_defs = Open_def migrate_def ex_names migrate_one_def migrationApplied_def applyMigration_def create_table_def
  ex_read exec_def bindA_def liftA_def retA_def ex_good_pg_def applied_names_def ex_run_def

lemma ex_lost: "Open ex_second_lost ex_run ex_entries ex_catalog = (Inl ErrDatabase, \<lparr>cgTables = ''AB'', cgApplied = Some [''001_a'', ''002_b'']\<rparr>)"
  by (simp add: ex_open_defs ex_catalog_def ex_second_lost_def)

lemma ex_again: "fst (Open (\<lambda>_. ex_good_pg) ex_run ex_entries \<lparr>cgTables = ''AB'', cgApplied = Some [''001_a'', ''002_b'']\<rparr>) = Inr ()"
  by (simp add: ex_open_defs)

theorem migrations_exactly_once_witness:
  "cgTables (snd (Open (\<lambda>_. ex_good_pg) ex_run ex_entries (restarts ex_run ex_entries [ex_second_lost] ex_catalog))) = ''AB''"
proof -
  have "distinct (migrationNames ex_entries)" "cgApplied ex_catalog = None" by (simp_all add: ex_names ex_catalog_def)
  from migrations_exactly_once [OF this, of ex_run "[ex_second_lost]" "\<lambda>_. ex_good_pg"] ex_again
  have "migrated ex_run ex_entries [] 2 (snd (Open (\<lambda>_. ex_good_pg) ex_run ex_entries (restarts ex_run ex_entries [ex_second_lost] ex_catalog)))"
    using \<open>cgApplied ex_catalog = None\<close> by (simp add: ex_lost ex_names numeral_2_eq_2 ex_catalog_tables)
  then show ?thesis by (simp add: migrated_def ex_names ex_read ex_run_def)
qed

end
