(* ===== verification/Command.thy ===== *)
theory Command
  imports Migrate Registry Node_Rpc
begin

text \<open>
  The program's start: \<open>cmd/drivechain-esplora/main.go\<close>. The flags are read the way package \<open>flag\<close>
  reads them, then come the checks of \<open>run\<close> in their order, the addresses it derives from the registry, and
  the two connectors it hands to the connection services. The text of a log line and of the usage is left
  out. What follows, from the goroutines to the exit, is in \<open>Process\<close>.
\<close>

subsection \<open>Flags\<close>

record command_config =
  ccChainName :: string
  ccNetwork :: string
  ccNodeURL :: string
  ccEnforcerURL :: string
  ccDatabaseURL :: string
  ccListen :: string
  ccLogLevel :: string

datatype stop = Exit nat | NoDatabaseURL | BadLogLevel | Refused_by error

text \<open>The values before the command line is read; \<open>DATABASE_URL\<close> is the only variable of the environment.\<close>

definition flag_defaults :: "string \<Rightarrow> command_config" where
  "flag_defaults databaseURL =
     \<lparr>ccChainName = ''thunder'', ccNetwork = ''signet'', ccNodeURL = [], ccEnforcerURL = [],
      ccDatabaseURL = databaseURL, ccListen = [], ccLogLevel = ''info''\<rparr>"

definition set_flag :: "string \<Rightarrow> string \<Rightarrow> command_config \<Rightarrow> command_config option" where
  "set_flag name value cfg =
     (if name = ''chain'' then Some (cfg\<lparr>ccChainName := value\<rparr>)
      else if name = ''network'' then Some (cfg\<lparr>ccNetwork := value\<rparr>)
      else if name = ''node-url'' then Some (cfg\<lparr>ccNodeURL := value\<rparr>)
      else if name = ''database-url'' then Some (cfg\<lparr>ccDatabaseURL := value\<rparr>)
      else if name = ''listen'' then Some (cfg\<lparr>ccListen := value\<rparr>)
      else if name = ''enforcer-url'' then Some (cfg\<lparr>ccEnforcerURL := value\<rparr>)
      else if name = ''log-level'' then Some (cfg\<lparr>ccLogLevel := value\<rparr>)
      else None)"

text \<open>
  One dash or two. Parsing stops at the first argument that is no flag, and after a bare \<open>--\<close>. A flag that
  does not exist, lacks its value or has a bad name ends the program with status 2, and a request for help with 0.
\<close>

fun parse_flags :: "string list \<Rightarrow> command_config \<Rightarrow> nat + command_config" where
  "parse_flags [] cfg = Inr cfg"
| "parse_flags (s # args) cfg =
     (if length s < 2 \<or> hd s \<noteq> CHR ''-'' then Inr cfg
      else if s = ''--'' then Inr cfg
      else let name = (if s ! 1 = CHR ''-'' then drop 2 s else drop 1 s) in
        if name = [] \<or> hd name = CHR ''-'' \<or> hd name = CHR ''='' then Inl 2
        else (case str_cut (CHR ''='') name of (key, value, hasValue) \<Rightarrow>
          if set_flag key value cfg = None then Inl (if key = ''help'' \<or> key = ''h'' then 0 else 2)
          else if hasValue then (case set_flag key value cfg of None \<Rightarrow> Inl 2 | Some cfg' \<Rightarrow> parse_flags args cfg')
          else (case args of [] \<Rightarrow> Inl 2
                | v # rest \<Rightarrow> (case set_flag key v cfg of None \<Rightarrow> Inl 2 | Some cfg' \<Rightarrow> parse_flags rest cfg'))))"

definition readConfig :: "string list \<Rightarrow> string \<Rightarrow> stop + command_config" where
  "readConfig args databaseURL =
     (case parse_flags args (flag_defaults databaseURL) of
        Inl code \<Rightarrow> Inl (Exit code)
      | Inr cfg \<Rightarrow> if ccDatabaseURL cfg = [] then Inl NoDatabaseURL else Inr cfg)"

subsection \<open>The log level\<close>

text \<open>
  \<open>slog.Level.UnmarshalText\<close>: a name in any case, and an offset after it. One character outside ASCII
  has an upper case in a name, the dotless i (in UTF-8).
\<close>

fun upper_name :: "string \<Rightarrow> string" where
  "upper_name (a # b # cs) =
     (if a = CHR 0xC4 \<and> b = CHR 0xB1 then CHR ''I'' # upper_name cs else ascii_upper a # upper_name (b # cs))"
| "upper_name [a] = [ascii_upper a]"
| "upper_name [] = []"

definition level_base :: "string \<Rightarrow> int option" where
  "level_base name =
     (if name = ''DEBUG'' then Some (-4) else if name = ''INFO'' then Some 0
      else if name = ''WARN'' then Some 4 else if name = ''ERROR'' then Some 8 else None)"

definition newLogger :: "string \<Rightarrow> stop + 64 word" where
  "newLogger text' =
     (let name = takeWhile (\<lambda>c. c \<noteq> CHR ''+'' \<and> c \<noteq> CHR ''-'') text'; rest = drop (length name) text' in
      case (if rest = [] then Inr 0 else parse_int rest) of
        Inl _ \<Rightarrow> Inl BadLogLevel
      | Inr offset \<Rightarrow>
          (case level_base (upper_name name) of None \<Rightarrow> Inl BadLogLevel
           | Some base \<Rightarrow> Inr (word_of_int base + word_of_int offset)))"

subsection \<open>The start\<close>

record startup =
  suChainName :: string
  suNetwork :: network
  suDecoder :: decoder
  suNodeURL :: string
  suListen :: string
  suDatabaseURL :: string
  suEnforcer :: "string option"
  suLevel :: "64 word"

definition refuse :: "'a res \<Rightarrow> stop + 'a" where
  "refuse r = (case r of Inl e \<Rightarrow> Inl (Refused_by e) | Inr x \<Rightarrow> Inr x)"

text \<open>\<open>fmt.Sprintf("http://127.0.0.1:%d", port)\<close> and \<open>fmt.Sprintf("127.0.0.1:%d", port)\<close>.\<close>

definition loopback :: "int \<Rightarrow> string" where
  "loopback port = ''127.0.0.1:'' @ format_int port"

definition node_url :: "spec \<Rightarrow> network \<Rightarrow> command_config \<Rightarrow> string res" where
  "node_url spec network cfg =
     (if ccNodeURL cfg \<noteq> [] then Inr (ccNodeURL cfg)
      else bindE (NodeRPCPort spec network) (\<lambda>port. Inr (''http://'' @ loopback port)))"

definition listen_address :: "spec \<Rightarrow> network \<Rightarrow> command_config \<Rightarrow> string res" where
  "listen_address spec network cfg =
     (if ccListen cfg \<noteq> [] then Inr (ccListen cfg)
      else bindE (APIPort spec network) (\<lambda>port. Inr (loopback port)))"

definition run_start :: "decoders \<Rightarrow> string list \<Rightarrow> string \<Rightarrow> stop + startup" where
  "run_start ds args databaseURL =
     bindE (readConfig args databaseURL) (\<lambda>cfg.
     bindE (newLogger (ccLogLevel cfg)) (\<lambda>lvl.
     bindE (refuse (ParseNetwork (ccNetwork cfg))) (\<lambda>network.
     bindE (refuse (Lookup ds (ccChainName cfg))) (\<lambda>(spec, decoder).
     bindE (refuse (node_url spec network cfg)) (\<lambda>nodeURL.
     bindE (refuse (listen_address spec network cfg)) (\<lambda>listen.
       Inr \<lparr>suChainName = ccChainName cfg, suNetwork = network, suDecoder = decoder, suNodeURL = nodeURL, suListen = listen,
         suDatabaseURL = ccDatabaseURL cfg, suEnforcer = (if ccEnforcerURL cfg \<noteq> [] then Some (ccEnforcerURL cfg) else None),
         suLevel = lvl\<rparr>))))))"

subsection \<open>The connectors\<close>

text \<open>A new client each time. A node without blocks is a connection too.\<close>

definition connect_node :: "(string \<Rightarrow> bytes option) \<Rightarrow> exchange \<Rightarrow> string \<Rightarrow> node res" where
  "connect_node dec http nodeURL =
     (let nd = rpc_node dec write_json read_json (rpc_New http nodeURL) in
      case TipHeight nd of Inr _ \<Rightarrow> Inr nd | Inl e \<Rightarrow> if e = ErrEmptyChain then Inr nd else Inl e)"

text \<open>The store is opened, then claimed for the chain and the network. \<open>pg\<close> is Postgres during the claim.\<close>

definition connect_store :: "(string \<Rightarrow> pg) \<Rightarrow> pg \<Rightarrow> (string \<Rightarrow> db \<Rightarrow> db res) \<Rightarrow> entry list \<Rightarrow> string \<Rightarrow> network \<Rightarrow> (db catalog, unit) act" where
  "connect_store pgs pg run_sql entries chainName network =
     bindA (Open pgs run_sql entries) (\<lambda>_ c.
       case Init pg chainName network (cgTables c) of (r, d) \<Rightarrow> (r, c\<lparr>cgTables := d\<rparr>))"

text \<open>What the start fixes for the sync loop: no source of block times, and mainchain heights only with an enforcer.\<close>

definition sync_config :: "(bytes \<Rightarrow> hash) \<Rightarrow> startup \<Rightarrow> config" where
  "sync_config blake3 su =
     (let syncer = NewSyncer blake3 (suDecoder su) False in
      if suEnforcer su \<noteq> None then syncer\<lparr>cfHeights := True\<rparr> else syncer)"

subsection \<open>A database belongs to one chain\<close>

lemma migrate_one_applied:
  assumes "name \<in> set (applied_names c)" and "migrate_one pgs run_sql entries name c = (r, c')"
  shows "c' = c"
  using assms by (auto simp: migrate_one_def bindA_def migrationApplied_def exec_def retA_def split: if_splits)

lemma migrate_loop_applied:
  "set names \<subseteq> set (applied_names c) \<Longrightarrow> eachA (migrate_one pgs run_sql entries) names c = (r, c') \<Longrightarrow> c' = c"
proof (induction names)
  case (Cons name names)
  obtain r1 c1 where one: "migrate_one pgs run_sql entries name c = (r1, c1)" by (cases "migrate_one pgs run_sql entries name c")
  then have "c1 = c" using Cons.prems(1) migrate_one_applied [of name c] by simp
  then show ?case using Cons one by (auto simp: bindA_def split: sum.splits)
qed (simp add: retA_def)

lemma migrate_one_records:
  assumes "migrate_one pgs run_sql entries name c = (Inr (), c')"
  shows "name \<in> set (applied_names c') \<and> set (applied_names c) \<subseteq> set (applied_names c')
    \<and> (cgApplied c \<noteq> None \<longrightarrow> cgApplied c' \<noteq> None)"
  using assms
  by (auto simp: migrate_one_def bindA_def migrationApplied_def exec_def retA_def liftA_def applied_names_def
      split: if_splits sum.splits dest!: applyMigration_effect)

lemma migrate_loop_records:
  "eachA (migrate_one pgs run_sql entries) names c = (Inr (), c') \<Longrightarrow> cgApplied c \<noteq> None
   \<Longrightarrow> set names \<subseteq> set (applied_names c') \<and> set (applied_names c) \<subseteq> set (applied_names c') \<and> cgApplied c' \<noteq> None"
proof (induction names arbitrary: c)
  case (Cons name names)
  obtain r1 c1 where one: "migrate_one pgs run_sql entries name c = (r1, c1)" by (cases "migrate_one pgs run_sql entries name c")
  then have "r1 = Inr ()" "eachA (migrate_one pgs run_sql entries) names c1 = (Inr (), c')"
    using Cons.prems(1) by (auto simp: bindA_def split: sum.splits)
  then show ?case using Cons.IH [of c1] migrate_one_records [of pgs run_sql entries name c c1] one Cons.prems(2) by auto
qed (simp add: retA_def)

text \<open>The catalog after a start that succeeded: every migration is recorded and the table of them exists.\<close>

definition settled :: "entry list \<Rightarrow> 's catalog \<Rightarrow> bool" where
  "settled entries c \<longleftrightarrow> cgApplied c \<noteq> None \<and> set (migrationNames entries) \<subseteq> set (applied_names c)"

lemma Open_settles:
  assumes "Open pgs run_sql entries c = (Inr (), c')"
  shows "settled entries c'"
proof -
  let ?c = "c\<lparr>cgApplied := Some (applied_names c)\<rparr>"
  have "eachA (migrate_one pgs run_sql entries) (migrationNames entries) ?c = (Inr (), c')"
    using assms by (auto simp: Open_def migrate_def bindA_def liftA_def exec_def create_table_def split: if_splits)
  then show ?thesis using migrate_loop_records [of pgs run_sql entries _ ?c c'] by (simp add: settled_def)
qed

lemma Open_settled:
  assumes "settled entries c" and "Open pgs run_sql entries c = (r, c')"
  shows "c' = c"
proof -
  let ?c = "c\<lparr>cgApplied := Some (applied_names c)\<rparr>"
  have same: "?c = c" using assms(1) by (auto simp: settled_def applied_names_def)
  have "c' = c \<or> eachA (migrate_one pgs run_sql entries) (migrationNames entries) ?c = (r, c')"
    using assms(2) by (auto simp: Open_def migrate_def bindA_def liftA_def exec_def create_table_def split: if_splits)
  then show ?thesis using migrate_loop_applied assms(1) unfolding same settled_def by metis
qed

definition claimed :: "string \<Rightarrow> network \<Rightarrow> db \<Rightarrow> bool" where
  "claimed chainName network d \<longleftrightarrow> (\<exists>s. dbSync d = Some s \<and> ssChain s = chainName \<and> ssNetwork s = network)"

lemma Init_claims:
  assumes "Init pg chainName network d = (Inr (), d')"
  shows "claimed chainName network d'"
  using assms [unfolded Init_def] by (cases rule: inTx_cases) (auto simp: claimed_def dest!: init_tx_Inr)

lemma Init_claimed:
  assumes "claimed chainName network d" and "Init pg chainName' network' d = (r, d')"
  shows "d' = d \<and> (r = Inr () \<longrightarrow> chainName' = chainName \<and> network' = network)"
  using assms(2) [unfolded Init_def] by (cases rule: inTx_cases) (use assms(1) in \<open>auto simp: claimed_def dest!: init_tx_Inr\<close>)

lemma connect_store_first:
  assumes "connect_store pgs pg run_sql entries chainName network c = (Inr (), c')"
  shows "settled entries c' \<and> claimed chainName network (cgTables c')"
proof -
  obtain r1 c1 where one: "Open pgs run_sql entries c = (r1, c1)" by (cases "Open pgs run_sql entries c")
  obtain r2 d where two: "Init pg chainName network (cgTables c1) = (r2, d)" by fastforce
  have "r1 = Inr ()" "r2 = Inr ()" "c' = c1\<lparr>cgTables := d\<rparr>"
    using assms one two by (auto simp: connect_store_def bindA_def split: sum.splits)
  then show ?thesis using Open_settles [of pgs run_sql entries c c1] Init_claims [of pg chainName network] one two
    by (simp add: settled_def applied_names_def)
qed

lemma connect_store_again:
  assumes "settled entries c" and "claimed chainName network (cgTables c)"
    and "connect_store pgs pg run_sql entries chainName' network' c = (r, c')"
  shows "c' = c \<and> (r = Inr () \<longrightarrow> chainName' = chainName \<and> network' = network)"
proof -
  obtain r1 c1 where one: "Open pgs run_sql entries c = (r1, c1)" by (cases "Open pgs run_sql entries c")
  then have c1: "c1 = c" using Open_settled [OF assms(1)] by blast
  obtain r2 d where two: "Init pg chainName' network' (cgTables c) = (r2, d)" by fastforce
  show ?thesis using assms(3) one c1 two Init_claimed [OF assms(2) two]
    by (cases r1) (auto simp: connect_store_def bindA_def)
qed

text \<open>Any number of later starts, each with its own flags and faults.\<close>

record attempt =
  atPgs :: "string \<Rightarrow> pg"
  atPg :: pg
  atChain :: string
  atNetwork :: network

fun reconnects :: "(string \<Rightarrow> db \<Rightarrow> db res) \<Rightarrow> entry list \<Rightarrow> attempt list \<Rightarrow> db catalog \<Rightarrow> db catalog" where
  "reconnects run_sql entries [] c = c"
| "reconnects run_sql entries (a # as) c =
     reconnects run_sql entries as (snd (connect_store (atPgs a) (atPg a) run_sql entries (atChain a) (atNetwork a) c))"

lemma reconnects_settled:
  "settled entries c \<Longrightarrow> claimed chainName network (cgTables c) \<Longrightarrow> reconnects run_sql entries as c = c"
proof (induction as)
  case (Cons a as)
  obtain r c' where "connect_store (atPgs a) (atPg a) run_sql entries (atChain a) (atNetwork a) c = (r, c')" by fastforce
  moreover from connect_store_again [OF Cons.prems this] have "c' = c" ..
  ultimately show ?case using Cons by simp
qed simp

subsection \<open>Properties\<close>


text \<open>Two migrations of the example on empty tables, then a start for another chain that loses its commit.\<close>

definition ex_no_sql :: "string \<Rightarrow> db \<Rightarrow> db res" where
  "ex_no_sql sql d = Inr d"

definition ex_new_catalog :: "db catalog" where
  "ex_new_catalog = \<lparr>cgTables = empty_db, cgApplied = None\<rparr>"

lemma ex_connects: "\<exists>c1. connect_store (\<lambda>_. ex_good_pg) ex_good_pg ex_no_sql ex_entries ''thunder'' ''signet'' ex_new_catalog = (Inr (), c1)"
  by (simp add: connect_store_def Open_def migrate_def ex_names migrate_one_def migrationApplied_def applyMigration_def create_table_def
      ex_read exec_def bindA_def liftA_def retA_def ex_good_pg_def applied_names_def ex_no_sql_def ex_new_catalog_def empty_db_def Init_def inTx_def init_tx_def)


text \<open>The ports of a chain are its slot on top of a base, and the slots are all different.\<close>

lemma spec_ports:
  assumes "map_of specs name = Some spec"
  shows "scAPIBasePort spec = 3000 + scSlot spec \<and> scNodeBasePort spec = 6000 + scSlot spec \<and> 0 \<le> scSlot spec \<and> scSlot spec \<le> 255"
  using assms by (auto simp: specs_def split: if_splits)

lemma slot_inject:
  assumes "map_of specs a = Some s" and "map_of specs b = Some t" and "scSlot s = scSlot t"
  shows "a = b"
  using assms by (auto simp: specs_def split: if_splits)

lemma portOffset_cases:
  assumes "portOffset n = Inr off"
  obtains "n = ''signet''" "off = 0" | "n = ''regtest''" "off = 10000" | "n = ''mainnet''" "off = 20000"
  using assms by (auto simp: portOffset_def split: if_splits)

lemma refuse_eq_Inr [simp]: "refuse r = Inr x \<longleftrightarrow> r = Inr x"
  by (simp add: refuse_def split: sum.splits)

lemma run_start_default:
  assumes "readConfig args databaseURL = Inr cfg" and "run_start registered args databaseURL = Inr su"
  obtains spec off where "map_of specs (suChainName su) = Some spec" and "portOffset (suNetwork su) = Inr off"
    and "ccListen cfg = [] \<Longrightarrow> suListen su = loopback (3000 + scSlot spec + off)"
    and "ccNodeURL cfg = [] \<Longrightarrow> suNodeURL su = ''http://'' @ loopback (6000 + scSlot spec + off)"
    and "0 \<le> scSlot spec" and "scSlot spec \<le> 255"
proof -
  obtain lvl network spec decoder where parts: "newLogger (ccLogLevel cfg) = Inr lvl" "ParseNetwork (ccNetwork cfg) = Inr network"
      "Lookup registered (ccChainName cfg) = Inr (spec, decoder)"
    and su: "suChainName su = ccChainName cfg" "suNetwork su = network"
      "node_url spec network cfg = Inr (suNodeURL su)" "listen_address spec network cfg = Inr (suListen su)"
    using assms by (auto simp: run_start_def bindE_eq_Inr)
  have spec: "map_of specs (suChainName su) = Some spec" using parts(3) su(1) by (auto simp: Lookup_def split: option.splits)
  obtain off where off: "portOffset (suNetwork su) = Inr off" using parts(2) su(2) by (auto simp: ParseNetwork_def bindE_eq_Inr)
  show ?thesis
  proof (rule that [OF spec off])
    show "suListen su = loopback (3000 + scSlot spec + off)" if "ccListen cfg = []"
      using su(2,4) that off spec_ports [OF spec] by (simp add: listen_address_def APIPort_def)
    show "suNodeURL su = ''http://'' @ loopback (6000 + scSlot spec + off)" if "ccNodeURL cfg = []"
      using su(2,3) that off spec_ports [OF spec] by (simp add: node_url_def NodeRPCPort_def)
  qed (use spec_ports [OF spec] in simp_all)
qed

lemma loopback_inject [simp]: "loopback p = loopback q \<longleftrightarrow> p = q"
  by (simp add: loopback_def)

text \<open>
  Indexers started without addresses do not collide. Two of them listen on the same address only when they
  index the same chain on the same network, and none listens where another one looks for its node.
\<close>

theorem start_addresses:
  assumes "readConfig args db = Inr cfg" and "run_start registered args db = Inr su"
    and "readConfig args' db' = Inr cfg'" and "run_start registered args' db' = Inr su'"
    and "ccListen cfg = []" and "ccListen cfg' = []" and "ccNodeURL cfg = []"
  shows "(suListen su = suListen su' \<longleftrightarrow> suChainName su = suChainName su' \<and> suNetwork su = suNetwork su')
    \<and> suNodeURL su \<noteq> ''http://'' @ suListen su'"
proof -
  from run_start_default [OF assms(1,2)] obtain spec off where
    a: "map_of specs (suChainName su) = Some spec" "portOffset (suNetwork su) = Inr off"
      "suListen su = loopback (3000 + scSlot spec + off)" "suNodeURL su = ''http://'' @ loopback (6000 + scSlot spec + off)"
      "0 \<le> scSlot spec" "scSlot spec \<le> 255" using assms(5,7) by metis
  from run_start_default [OF assms(3,4)] obtain spec' off' where
    b: "map_of specs (suChainName su') = Some spec'" "portOffset (suNetwork su') = Inr off'"
      "suListen su' = loopback (3000 + scSlot spec' + off')" "0 \<le> scSlot spec'" "scSlot spec' \<le> 255" using assms(6) by metis
  have "suChainName su = suChainName su' \<and> suNetwork su = suNetwork su'" if "suListen su = suListen su'"
  proof -
    have "scSlot spec + off = scSlot spec' + off'" using that a(3) b(3) by simp
    then have "scSlot spec = scSlot spec'" "off = off'"
      using a(2,5,6) b(2,4,5) by (auto elim!: portOffset_cases)
    then show ?thesis using slot_inject [OF a(1) b(1)] a(2) b(2) by (auto elim!: portOffset_cases)
  qed
  moreover have "6000 + scSlot spec + off \<noteq> 3000 + scSlot spec' + off'"
    using a(2,5,6) b(2,4,5) by (auto elim!: portOffset_cases)
  ultimately show ?thesis using a b by auto
qed

definition ex_photon :: "string list" where
  "ex_photon = [''--chain'', ''photon'', ''-database-url=postgres://a'', ''--log-level'', ''Warn+2'']"

definition ex_regtest :: "string list" where
  "ex_regtest = [''-network'', ''regtest'']"

lemmas start_defs = readConfig_def flag_defaults_def set_flag_def Let_def

lemma ex_photon_config: "readConfig ex_photon [] = Inr ((flag_defaults ''postgres://a'')\<lparr>ccChainName := ''photon'', ccLogLevel := ''Warn+2''\<rparr>)"
  by (simp add: start_defs ex_photon_def)

lemma ex_regtest_config: "readConfig ex_regtest ''postgres://b'' = Inr ((flag_defaults ''postgres://b'')\<lparr>ccNetwork := ''regtest''\<rparr>)"
  by (simp add: start_defs ex_regtest_def)

lemma ex_levels: "newLogger ''Warn+2'' = Inr 6" "newLogger ''info'' = Inr 0" "newLogger ''loud'' = Inl BadLogLevel"
  by (simp_all add: newLogger_def Let_def level_base_def ascii_upper_def parse_int_def parse_uint_def digit_val_def char_of_def bit_0)

lemma ex_photon_start: "\<exists>su. run_start registered ex_photon [] = Inr su \<and> suChainName su = ''photon''"
  by (simp add: run_start_def ex_photon_config ex_levels flag_defaults_def ParseNetwork_def portOffset_def Lookup_def specs_def registered_def
      node_url_def listen_address_def NodeRPCPort_def APIPort_def refuse_def)

lemma ex_regtest_start: "\<exists>su. run_start registered ex_regtest ''postgres://b'' = Inr su \<and> suChainName su = ''thunder''"
  by (simp add: run_start_def ex_regtest_config ex_levels flag_defaults_def ParseNetwork_def portOffset_def Lookup_def specs_def registered_def
      node_url_def listen_address_def NodeRPCPort_def APIPort_def refuse_def)

theorem start_addresses_witness:
  "\<exists>su su'. run_start registered ex_photon [] = Inr su \<and> run_start registered ex_regtest ''postgres://b'' = Inr su'
     \<and> suListen su \<noteq> suListen su' \<and> suNodeURL su \<noteq> ''http://'' @ suListen su'"
proof -
  obtain su su' where su: "run_start registered ex_photon [] = Inr su" "suChainName su = ''photon''"
    "run_start registered ex_regtest ''postgres://b'' = Inr su'" "suChainName su' = ''thunder''"
    using ex_photon_start ex_regtest_start by blast
  then show ?thesis
    using start_addresses [OF ex_photon_config su(1) ex_regtest_config su(3)] by (simp add: flag_defaults_def)
qed

end
