(* ===== verification/Service.thy ===== *)
theory Service
  imports Prelude "HOL-Library.Multiset"
begin

text \<open>
  The connection wrapper of \<open>internal/service/service.go\<close>. The first part is the wrapper as one caller
  sees it: its fields, and one function per method, with the connector's answer as an argument. The
  second part is the wrapper as several goroutines see it: a step relation with a program counter per
  goroutine, one step per critical section or atomic access of the code, so that calls of \<open>Get\<close>,
  \<open>Connect\<close>, \<open>Drop\<close> and the end of \<open>Run\<close> interleave at the points where the code releases its locks.
  Log lines are left out.

  A client is released when the closer is called on it. \<open>have\<close> says whether the code owns \<open>client\<close>.
  A channel of \<open>ConnectedChan\<close> is a list with room for one value.
\<close>

record 'c service =
  svClient :: 'c
  svHave :: bool
  svConnected :: bool
  svSubs :: "(nat \<times> bool list) list"
  svEnded :: "(nat \<times> bool list) list"
  svNext :: nat
  svReleased :: "'c list"

definition New :: "'c \<Rightarrow> 'c service" where
  "New zero = \<lparr>svClient = zero, svHave = False, svConnected = False, svSubs = [], svEnded = [], svNext = 0,
     svReleased = []\<rparr>"

subsection \<open>Methods\<close>

text \<open>\<open>select { case ch <- val: default: }\<close> on a channel with room for one value.\<close>

definition offer :: "bool \<Rightarrow> bool list \<Rightarrow> bool list" where
  "offer val buf = (if buf = [] then [val] else buf)"

definition tell_subs :: "bool \<Rightarrow> 'c service \<Rightarrow> 'c service" where
  "tell_subs val s = s\<lparr>svSubs := map (\<lambda>(ch, buf). (ch, offer val buf)) (svSubs s)\<rparr>"

definition setConnected :: "bool \<Rightarrow> 'c service \<Rightarrow> 'c service" where
  "setConnected val s = (if svConnected s = val then s else tell_subs val (s\<lparr>svConnected := val\<rparr>))"

text \<open>The critical section of \<open>Connect\<close>, and \<open>if had && s.closer != nil { s.closer(old) }\<close>.\<close>

definition install :: "'c \<Rightarrow> 'c service \<Rightarrow> 'c option \<times> 'c service" where
  "install client s = (if svHave s then Some (svClient s) else None, s\<lparr>svClient := client, svHave := True\<rparr>)"

definition release :: "'c option \<Rightarrow> 'c service \<Rightarrow> 'c service" where
  "release old s = (case old of None \<Rightarrow> s | Some c \<Rightarrow> s\<lparr>svReleased := svReleased s @ [c]\<rparr>)"

text \<open>The connector's answer is an argument; \<open>None\<close> is a service without a connector.\<close>

definition Connect :: "'c res option \<Rightarrow> 'c service \<Rightarrow> 'c res \<times> 'c service" where
  "Connect answer s =
     (case answer of
        Some (Inr client) \<Rightarrow> (case install client s of (old, s1) \<Rightarrow> (Inr client, setConnected True (release old s1)))
      | _ \<Rightarrow> (Inl ErrUnavailable, setConnected False s))"

definition Get :: "'c res option \<Rightarrow> 'c service \<Rightarrow> 'c res \<times> 'c service" where
  "Get answer s = (if svConnected s then (Inr (svClient s), s) else Connect answer s)"

definition IsConnected :: "'c service \<Rightarrow> bool" where
  "IsConnected s = svConnected s"

definition Drop :: "'c service \<Rightarrow> 'c service" where
  "Drop s = setConnected False s"

definition close_take :: "'c service \<Rightarrow> 'c option \<times> 'c service" where
  "close_take s = (if svHave s then Some (svClient s) else None, s\<lparr>svHave := False\<rparr>)"

definition close :: "'c service \<Rightarrow> 'c service" where
  "close s = (case close_take s of (client, s1) \<Rightarrow> release client s1)"

text \<open>One tick of \<open>Run\<close>; when the context ends it calls \<open>close\<close> instead.\<close>

definition Run_tick :: "'c res option \<Rightarrow> 'c service \<Rightarrow> 'c service" where
  "Run_tick answer s = (if svConnected s then s else snd (Connect answer s))"

definition ConnectedChan :: "'c service \<Rightarrow> nat \<times> 'c service" where
  "ConnectedChan s = (svNext s, s\<lparr>svNext := Suc (svNext s), svSubs := svSubs s @ [(svNext s, [svConnected s])]\<rparr>)"

text \<open>The goroutine of \<open>ConnectedChan\<close> when its context ends: the channel is closed, and a value that is
  still in it can be read.\<close>

definition end_chan :: "nat \<Rightarrow> 'c service \<Rightarrow> 'c service" where
  "end_chan ch s = s\<lparr>svSubs := filter (\<lambda>p. fst p \<noteq> ch) (svSubs s),
     svEnded := svEnded s @ filter (\<lambda>p. fst p = ch) (svSubs s)\<rparr>"

text \<open>A receive from an open channel; \<open>None\<close> blocks.\<close>

definition receive :: "nat \<Rightarrow> 'c service \<Rightarrow> bool option \<times> 'c service" where
  "receive ch s =
     (case map_of (svSubs s) ch of
        Some (v # rest) \<Rightarrow> (Some v, s\<lparr>svSubs := map (\<lambda>p. if fst p = ch then (ch, rest) else p) (svSubs s)\<rparr>)
      | _ \<Rightarrow> (None, s))"

subsection \<open>What a client relies on\<close>

text \<open>
  The contract the sync loops and the API use: \<open>get\<close> fails only as unavailable and then leaves the
  service down, what it returns stands, a standing connection is returned without a new one, and \<open>drop\<close>
  takes it down. \<open>retry\<close> is a caller that asks again until it has a connection, for as many answers of
  the connector as it is given.
\<close>

locale connection =
  fixes get :: "'a res option \<Rightarrow> 's \<Rightarrow> 'c res \<times> 's" and drop_conn :: "'s \<Rightarrow> 's" and up :: "'s \<Rightarrow> bool"
    and held :: "'s \<Rightarrow> 'c"
  assumes get_ok: "get a s = (Inr c, s') \<Longrightarrow> up s' \<and> held s' = c"
    and get_fails: "get a s = (Inl e, s') \<Longrightarrow> e = ErrUnavailable \<and> \<not> up s' \<and> \<not> up s"
    and get_up: "up s \<Longrightarrow> get a s = (Inr (held s), s)"
    and get_down: "\<not> up s \<Longrightarrow> (\<exists>c s'. get a s = (Inr c, s')) \<longleftrightarrow> (\<exists>x. a = Some (Inr x))"
    and drop_down: "\<not> up (drop_conn s)"
begin

fun retry :: "'a res option list \<Rightarrow> 's \<Rightarrow> 'c res \<times> 's" where
  "retry [] s = (Inl ErrUnavailable, s)"
| "retry (a # as) s = (case get a s of (Inr c, s') \<Rightarrow> (Inr c, s') | (Inl e, s') \<Rightarrow> retry as s')"

lemma retry_succeeds_iff:
  "\<not> up s \<Longrightarrow> (\<exists>c s'. retry as s = (Inr c, s') \<and> up s') \<longleftrightarrow> (\<exists>x. Some (Inr x) \<in> set as)"
proof (induction as arbitrary: s)
  case (Cons a as)
  show ?case
  proof (cases "get a s")
    case (Pair r s')
    show ?thesis
    proof (cases r)
      case (Inl e)
      then have down: "\<not> up s'" using get_fails Pair by blast
      have "\<not> (\<exists>x. a = Some (Inr x))" using get_down [OF Cons.prems, of a] Pair Inl by auto
      then show ?thesis using Cons.IH [OF down] Pair Inl by auto
    next
      case (Inr c)
      then have "up s'" and "\<exists>x. a = Some (Inr x)" using get_ok Pair get_down [OF Cons.prems, of a] by blast+
      then show ?thesis using Pair Inr by auto
    qed
  qed
qed simp

lemma drop_reopens: "fst (get (Some (Inr x)) (drop_conn s)) = Inr c \<Longrightarrow> up (snd (get (Some (Inr x)) (drop_conn s)))"
  using get_ok by (metis prod.collapse)

end

lemma setConnected_connected [simp]: "svConnected (setConnected v s) = v"
  by (simp add: setConnected_def tell_subs_def)

lemma setConnected_fields [simp]:
  "svClient (setConnected v s) = svClient s" "svHave (setConnected v s) = svHave s"
  "svReleased (setConnected v s) = svReleased s"
  by (simp_all add: setConnected_def tell_subs_def)

lemma release_fields [simp]:
  "svClient (release old s) = svClient s" "svHave (release old s) = svHave s" "svConnected (release old s) = svConnected s"
  by (simp_all add: release_def split: option.split)

interpretation service: connection Get Drop svConnected svClient
proof
  fix a and s s' :: "'a service" and c
  show "Get a s = (Inr c, s') \<Longrightarrow> svConnected s' \<and> svClient s' = c"
    by (auto simp: Get_def Connect_def install_def split: if_splits option.splits sum.splits)
next
  fix a and s s' :: "'a service" and e
  show "Get a s = (Inl e, s') \<Longrightarrow> e = ErrUnavailable \<and> \<not> svConnected s' \<and> \<not> svConnected s"
    by (auto simp: Get_def Connect_def install_def split: if_splits option.splits sum.splits)
next
  fix a and s :: "'a service"
  show "\<not> svConnected s \<Longrightarrow> (\<exists>c s'. Get a s = (Inr c, s')) = (\<exists>x. a = Some (Inr x))"
    by (auto simp: Get_def Connect_def install_def split: if_splits option.splits sum.splits)
qed (simp_all add: Get_def Drop_def)

subsection \<open>Goroutines\<close>

text \<open>
  Where a goroutine is. \<open>Calling\<close> is inside the connector, \<open>Opened\<close> has its answer and waits for the
  lock, \<open>Replaced\<close> has left the critical section and is about to release what was there, \<open>Closing\<close> is
  \<open>close\<close> past its critical section, \<open>Marking\<close> is about to swap the flag and \<open>Telling\<close> has swapped it
  and is about to tell the subscribers.
\<close>

datatype 'c pc = Idle | Calling | Opened 'c | Replaced "'c option" | Closing "'c option" | Marking bool | Telling bool

record 'c world =
  wdService :: "'c service"
  wdThreads :: "'c pc list"
  wdOpened :: "'c list"

abbreviation at :: "'c world \<Rightarrow> nat \<Rightarrow> 'c pc \<Rightarrow> bool" where
  "at w t pc \<equiv> t < length (wdThreads w) \<and> wdThreads w ! t = pc"

definition goto :: "nat \<Rightarrow> 'c pc \<Rightarrow> 'c service \<Rightarrow> 'c world \<Rightarrow> 'c world" where
  "goto t pc s w = w\<lparr>wdService := s, wdThreads := (wdThreads w)[t := pc]\<rparr>"

inductive step :: "'c world \<Rightarrow> 'c world \<Rightarrow> bool" where
  connect: "at w t Idle \<Longrightarrow> step w (goto t Calling (wdService w) w)"
| refused: "at w t Calling \<Longrightarrow> step w (goto t (Marking False) (wdService w) w)"
| opened: "at w t Calling \<Longrightarrow> c \<notin> set (wdOpened w)
    \<Longrightarrow> step w ((goto t (Opened c) (wdService w) w)\<lparr>wdOpened := wdOpened w @ [c]\<rparr>)"
| replace: "at w t (Opened c) \<Longrightarrow> install c (wdService w) = (old, s) \<Longrightarrow> step w (goto t (Replaced old) s w)"
| release_old: "at w t (Replaced old) \<Longrightarrow> step w (goto t (Marking True) (release old (wdService w)) w)"
| drop: "at w t Idle \<Longrightarrow> step w (goto t (Marking False) (wdService w) w)"
| swap_same: "at w t (Marking v) \<Longrightarrow> svConnected (wdService w) = v \<Longrightarrow> step w (goto t Idle (wdService w) w)"
| swap: "at w t (Marking v) \<Longrightarrow> svConnected (wdService w) \<noteq> v
    \<Longrightarrow> step w (goto t (Telling v) ((wdService w)\<lparr>svConnected := v\<rparr>) w)"
| tell: "at w t (Telling v) \<Longrightarrow> step w (goto t Idle (tell_subs v (wdService w)) w)"
| finish: "at w t Idle \<Longrightarrow> close_take (wdService w) = (old, s) \<Longrightarrow> step w (goto t (Closing old) s w)"
| finish_release: "at w t (Closing old) \<Longrightarrow> step w (goto t Idle (release old (wdService w)) w)"
| subscribe: "step w (w\<lparr>wdService := snd (ConnectedChan (wdService w))\<rparr>)"
| unsubscribe: "step w (w\<lparr>wdService := end_chan ch (wdService w)\<rparr>)"
| read_chan: "step w (w\<lparr>wdService := snd (receive ch (wdService w))\<rparr>)"

definition start :: "'c \<Rightarrow> nat \<Rightarrow> 'c world" where
  "start zero n = \<lparr>wdService = New zero, wdThreads = replicate n Idle, wdOpened = []\<rparr>"

inductive reach :: "'c world \<Rightarrow> bool" where
  init: "reach (start zero n)"
| more: "reach w \<Longrightarrow> step w w' \<Longrightarrow> reach w'"

subsection \<open>Ownership\<close>

text \<open>Where the clients are: in the hands of a goroutine, standing, or released.\<close>

fun in_hand :: "'c pc \<Rightarrow> 'c multiset" where
  "in_hand (Opened c) = {#c#}"
| "in_hand (Replaced old) = mset_set (set_option old)"
| "in_hand (Closing old) = mset_set (set_option old)"
| "in_hand _ = {#}"

definition standing :: "'c service \<Rightarrow> 'c multiset" where
  "standing s = (if svHave s then {#svClient s#} else {#})"

definition owned :: "'c world \<Rightarrow> 'c multiset" where
  "owned w = sum_list (map in_hand (wdThreads w)) + standing (wdService w) + mset (svReleased (wdService w))"

lemma sum_list_update:
  fixes f :: "'a \<Rightarrow> 'b::comm_monoid_add"
  assumes "t < length xs"
  shows "sum_list (map f (xs[t := x])) + f (xs ! t) = sum_list (map f xs) + f x"
  using assms
proof (induction xs arbitrary: t)
  case (Cons a xs)
  then show ?case by (cases t) (simp_all add: add_ac)
qed simp

lemma owned_goto:
  assumes "t < length (wdThreads w)"
    and "in_hand pc + standing s + mset (svReleased s)
      = in_hand (wdThreads w ! t) + standing (wdService w) + mset (svReleased (wdService w)) + extra"
  shows "owned (goto t pc s w) = owned w + extra"
proof -
  let ?S = "\<lambda>xs. sum_list (map in_hand xs)"
  have "?S ((wdThreads w)[t := pc]) + in_hand (wdThreads w ! t) = ?S (wdThreads w) + in_hand pc"
    by (rule sum_list_update [OF assms(1)])
  then have "owned (goto t pc s w) + in_hand (wdThreads w ! t)
      = ?S (wdThreads w) + (in_hand pc + standing s + mset (svReleased s))"
    by (simp add: owned_def goto_def add_ac)
  also have "\<dots> = owned w + extra + in_hand (wdThreads w ! t)"
    unfolding assms(2) by (simp add: owned_def add_ac)
  finally show ?thesis by simp
qed

lemma service_parts [simp]:
  "standing (s\<lparr>svConnected := v\<rparr>) = standing s" "standing (tell_subs v s) = standing s" "svReleased (tell_subs v s) = svReleased s"
  "standing (snd (ConnectedChan s)) = standing s" "svReleased (snd (ConnectedChan s)) = svReleased s"
  "standing (end_chan ch s) = standing s" "svReleased (end_chan ch s) = svReleased s"
  "standing (snd (receive ch s)) = standing s" "svReleased (snd (receive ch s)) = svReleased s"
  by (auto simp: standing_def tell_subs_def ConnectedChan_def end_chan_def receive_def split: option.split list.split)

lemma release_parts [simp]:
  "standing (release old s) = standing s" "mset (svReleased (release old s)) = mset (svReleased s) + mset_set (set_option old)"
  by (auto simp: standing_def release_def split: option.split)

lemma owned_keep:
  assumes "at w t old" and "owned w = mset (wdOpened w)"
    and "in_hand pc + standing s + mset (svReleased s)
      = in_hand old + standing (wdService w) + mset (svReleased (wdService w))"
  shows "owned (goto t pc s w) = mset (wdOpened (goto t pc s w))"
  using owned_goto [of t w pc s "{#}"] assms by (simp add: goto_def)

lemma step_owned: "step w w' \<Longrightarrow> owned w = mset (wdOpened w) \<Longrightarrow> owned w' = mset (wdOpened w')"
proof (induction rule: step.induct)
  case (opened w t c)
  have "owned (goto t (Opened c) (wdService w) w) = owned w + {#c#}"
    using opened by (intro owned_goto) (simp_all add: add_ac)
  then show ?case using opened.prems by (simp add: owned_def goto_def)
next
  case (replace w t c old s)
  then show ?case by (elim owned_keep) (auto simp: install_def standing_def split: if_splits)
next
  case (finish w t old s)
  then show ?case by (elim owned_keep) (auto simp: close_take_def standing_def split: if_splits)
qed (simp_all add: owned_keep add_ac, simp_all add: owned_def)

lemma step_opened: "step w w' \<Longrightarrow> distinct (wdOpened w) \<Longrightarrow> distinct (wdOpened w')"
  by (induction rule: step.induct) (simp_all add: goto_def)

lemma sum_empty: "sum_list (replicate n {#}) = ({#} :: 'a multiset)"
  by (induction n) auto

lemma reach_owned: "reach w \<Longrightarrow> owned w = mset (wdOpened w) \<and> distinct (wdOpened w)"
proof (induction rule: reach.induct)
  case (init zero n)
  show ?case by (simp add: owned_def start_def standing_def New_def map_replicate sum_empty)
next
  case (more w w')
  then show ?case using step_owned [OF more.hyps(2)] step_opened [OF more.hyps(2)] by blast
qed

text \<open>
  C29. Under every interleaving of \<open>Get\<close>, \<open>Connect\<close>, \<open>Drop\<close>, subscriptions and the end of \<open>Run\<close> in
  any number of goroutines, the connections are accounted for: each one the connector opened is, exactly
  once, in the hands of the goroutine that installs or releases it, standing, or released. So no
  connection is released twice, the standing one is not released, and none is lost.
\<close>

theorem no_connection_lost_or_closed_twice:
  assumes "reach w"
  shows "owned w = mset (wdOpened w) \<and> distinct (svReleased (wdService w))
    \<and> (svHave (wdService w) \<longrightarrow> svClient (wdService w) \<notin> set (svReleased (wdService w)))
    \<and> ((\<forall>pc \<in> set (wdThreads w). pc = Idle) \<longrightarrow>
        set (wdOpened w) = set_mset (standing (wdService w)) \<union> set (svReleased (wdService w)))"
proof -
  have own: "owned w = mset (wdOpened w)" and dist: "distinct (wdOpened w)"
    using reach_owned [OF assms] by blast+
  let ?s = "wdService w" and ?H = "sum_list (map in_hand (wdThreads w))"
  have whole: "?H + standing ?s + mset (svReleased ?s) = mset (wdOpened w)" using own by (simp add: owned_def)
  have once: "count (?H + standing ?s + mset (svReleased ?s)) c \<le> 1" for c
    unfolding whole using dist by (simp add: distinct_count_atmost_1)
  have "count (mset (svReleased ?s)) c \<le> 1" for c using once [of c] by simp
  then have "distinct (svReleased ?s)"
    unfolding distinct_count_atmost_1 by (metis One_nat_def count_mset_0_iff le_SucE le_zero_eq)
  moreover have "svClient ?s \<notin> set (svReleased ?s)" if "svHave ?s"
    using once [of "svClient ?s"] that by (auto simp: standing_def count_eq_zero_iff [symmetric] dest: Suc_leD)
  moreover have "set (wdOpened w) = set_mset (standing ?s) \<union> set (svReleased ?s)" if "\<forall>pc \<in> set (wdThreads w). pc = Idle"
  proof -
    have "map in_hand (wdThreads w) = replicate (length (wdThreads w)) {#}"
      unfolding map_replicate_const [symmetric] using that by (intro map_cong) auto
    then have "mset (wdOpened w) = standing ?s + mset (svReleased ?s)" using whole by (simp add: sum_empty)
    then show ?thesis by (metis set_mset_mset set_mset_union)
  qed
  ultimately show ?thesis using own by blast
qed

text \<open>Two goroutines that connect one after the other: the second releases what the first installed.\<close>

lemma ex_two_connects: "\<exists>w. reach w \<and> wdOpened w = [5, 6 :: nat] \<and> svReleased (wdService w) = [5] \<and> svHave (wdService w)"
proof -
  let ?w0 = "start 0 2 :: nat world"
  let ?w1 = "goto 0 Calling (wdService ?w0) ?w0"
  let ?w2 = "(goto 0 (Opened 5) (wdService ?w1) ?w1)\<lparr>wdOpened := wdOpened ?w1 @ [5]\<rparr>"
  let ?w3 = "goto 0 (Replaced None) (snd (install 5 (wdService ?w2))) ?w2"
  let ?w4 = "goto 1 Calling (wdService ?w3) ?w3"
  let ?w5 = "(goto 1 (Opened 6) (wdService ?w4) ?w4)\<lparr>wdOpened := wdOpened ?w4 @ [6]\<rparr>"
  let ?w6 = "goto 1 (Replaced (Some 5)) (snd (install 6 (wdService ?w5))) ?w5"
  let ?w7 = "goto 1 (Marking True) (release (Some 5) (wdService ?w6)) ?w6"
  note defs = goto_def start_def New_def install_def
  have "reach ?w1" by (rule reach.more [OF reach.init step.connect]) (simp add: defs)
  then have "reach ?w2" by (rule reach.more [OF _ step.opened]) (simp_all add: defs)
  then have "reach ?w3" by (rule reach.more [OF _ step.replace [where c = 5]]) (simp_all add: defs)
  then have "reach ?w4" by (rule reach.more [OF _ step.connect]) (simp add: defs)
  then have "reach ?w5" by (rule reach.more [OF _ step.opened]) (simp_all add: defs)
  then have "reach ?w6" by (rule reach.more [OF _ step.replace [where c = 6]]) (simp_all add: defs)
  then have "reach ?w7" by (rule reach.more [OF _ step.release_old]) (simp add: defs)
  then show ?thesis by (intro exI [of _ ?w7]) (simp add: defs release_def)
qed

theorem no_connection_lost_or_closed_twice_witness:
  "\<exists>w. reach w \<and> wdOpened w = [5, 6 :: nat] \<and> svReleased (wdService w) = [5] \<and> svClient (wdService w) \<noteq> 5"
proof -
  obtain w where w: "reach w" "wdOpened w = [5, 6 :: nat]" "svReleased (wdService w) = [5]" "svHave (wdService w)"
    using ex_two_connects by blast
  then have "svClient (wdService w) \<noteq> 5" using no_connection_lost_or_closed_twice [OF w(1)] by auto
  then show ?thesis using w by blast
qed

subsection \<open>Methods and goroutines\<close>

lemma goto_goto [simp]: "goto t pc s (goto t pc' s' w) = goto t pc s w"
  by (simp add: goto_def)

lemma goto_fields [simp]:
  "wdService (goto t pc s w) = s" "wdOpened (goto t pc s w) = wdOpened w"
  "length (wdThreads (goto t pc s w)) = length (wdThreads w)"
  "t < length (wdThreads w) \<Longrightarrow> wdThreads (goto t pc s w) ! t = pc"
  by (simp_all add: goto_def)

lemma mark_run:
  assumes "t < length (wdThreads w)"
  shows "step\<^sup>*\<^sup>* (goto t (Marking v) s w) (goto t Idle (setConnected v s) w)"
proof (cases "svConnected s = v")
  case True
  then have "step (goto t (Marking v) s w) (goto t Idle s (goto t (Marking v) s w))"
    using step.swap_same [where w = "goto t (Marking v) s w" and t = t and v = v] assms by simp
  then show ?thesis using True by (simp add: setConnected_def)
next
  case False
  let ?s = "s\<lparr>svConnected := v\<rparr>"
  have "step (goto t (Marking v) s w) (goto t (Telling v) ?s w)"
    using step.swap [where w = "goto t (Marking v) s w" and t = t and v = v] assms False by simp
  moreover have "step (goto t (Telling v) ?s w) (goto t Idle (tell_subs v ?s) w)"
    using step.tell [where w = "goto t (Telling v) ?s w" and t = t and v = v] assms by simp
  ultimately show ?thesis using False by (simp add: setConnected_def)
qed

definition with_opened :: "'c \<Rightarrow> 'c world \<Rightarrow> 'c world" where
  "with_opened c w = w\<lparr>wdOpened := wdOpened w @ [c]\<rparr>"

lemma with_opened_goto [simp]: "with_opened c (goto t pc s w) = goto t pc s (with_opened c w)"
  by (simp add: with_opened_def goto_def)

lemma with_opened_fields [simp]:
  "wdService (with_opened c w) = wdService w" "wdThreads (with_opened c w) = wdThreads w"
  by (simp_all add: with_opened_def)

lemma connect_run:
  assumes t: "t < length (wdThreads w)" and c: "c \<notin> set (wdOpened w)"
  shows "step\<^sup>*\<^sup>* (goto t Idle s w) (goto t Idle (snd (Connect (Some (Inr c)) s)) (with_opened c w))"
proof -
  obtain old s1 where inst: "install c s = (old, s1)" by (cases "install c s")
  let ?w = "with_opened c w"
  have "step\<^sup>*\<^sup>* (goto t Idle s w) (goto t Calling s w)"
    using step.connect [where w = "goto t Idle s w" and t = t] t by simp
  also have "step (goto t Calling s w) (goto t (Opened c) s ?w)"
    using step.opened [where w = "goto t Calling s w" and t = t and c = c] t c
    by (cases w) (simp add: with_opened_def goto_def)
  also have "step\<^sup>*\<^sup>* (goto t (Opened c) s ?w) (goto t (Replaced old) s1 ?w)"
    using step.replace [where w = "goto t (Opened c) s ?w" and t = t and c = c] t inst by simp
  also have "step\<^sup>*\<^sup>* (goto t (Replaced old) s1 ?w) (goto t (Marking True) (release old s1) ?w)"
    using step.release_old [where w = "goto t (Replaced old) s1 ?w" and t = t and old = old] t by simp
  also have "step\<^sup>*\<^sup>* (goto t (Marking True) (release old s1) ?w) (goto t Idle (setConnected True (release old s1)) ?w)"
    using t by (intro mark_run) simp
  finally show ?thesis by (simp add: Connect_def inst)
qed

lemma refused_run:
  assumes t: "t < length (wdThreads w)"
  shows "step\<^sup>*\<^sup>* (goto t Idle s w) (goto t Idle (snd (Connect (Some (Inl e)) s)) w)"
proof -
  have "step (goto t Idle s w) (goto t Calling s w)"
    using step.connect [where w = "goto t Idle s w" and t = t] t by simp
  also have "step\<^sup>*\<^sup>* (goto t Calling s w) (goto t (Marking False) s w)"
    using step.refused [where w = "goto t Calling s w" and t = t] t by simp
  also have "step\<^sup>*\<^sup>* (goto t (Marking False) s w) (goto t Idle (setConnected False s) w)"
    using t by (rule mark_run)
  finally show ?thesis by (simp add: Connect_def)
qed

lemma drop_run:
  assumes t: "t < length (wdThreads w)"
  shows "step\<^sup>*\<^sup>* (goto t Idle s w) (goto t Idle (Drop s) w)"
proof -
  have "step (goto t Idle s w) (goto t (Marking False) s w)"
    using step.drop [where w = "goto t Idle s w" and t = t] t by simp
  also have "step\<^sup>*\<^sup>* (goto t (Marking False) s w) (goto t Idle (setConnected False s) w)"
    using t by (rule mark_run)
  finally show ?thesis by (simp add: Drop_def)
qed

lemma close_run:
  assumes t: "t < length (wdThreads w)"
  shows "step\<^sup>*\<^sup>* (goto t Idle s w) (goto t Idle (close s) w)"
proof -
  obtain old s1 where taken: "close_take s = (old, s1)" by (cases "close_take s")
  have "step (goto t Idle s w) (goto t (Closing old) s1 w)"
    using step.finish [where w = "goto t Idle s w" and t = t] t taken by simp
  also have "step\<^sup>*\<^sup>* (goto t (Closing old) s1 w) (goto t Idle (release old s1) w)"
    using step.finish_release [where w = "goto t (Closing old) s1 w" and t = t and old = old] t by simp
  finally show ?thesis by (simp add: close_def taken)
qed

text \<open>
  A method that runs alone is a run of the step relation: from any state with the goroutine idle,
  its steps lead to the state the method returns, for a \<open>Connect\<close> with a fresh connection and with a
  refused one, for \<open>Drop\<close> and for the \<open>close\<close> at the end of \<open>Run\<close>.
\<close>

theorem methods_are_runs:
  assumes "t < length (wdThreads w)" and "c \<notin> set (wdOpened w)"
  shows "step\<^sup>*\<^sup>* (goto t Idle s w) (goto t Idle (snd (Connect (Some (Inr c)) s)) (with_opened c w))
    \<and> step\<^sup>*\<^sup>* (goto t Idle s w) (goto t Idle (snd (Connect (Some (Inl e)) s)) w)
    \<and> step\<^sup>*\<^sup>* (goto t Idle s w) (goto t Idle (Drop s) w)
    \<and> step\<^sup>*\<^sup>* (goto t Idle s w) (goto t Idle (close s) w)"
  by (intro conjI connect_run refused_run drop_run close_run assms)

theorem methods_are_runs_witness:
  "step\<^sup>*\<^sup>* (goto 0 Idle (New 0) (start 0 1)) (goto 0 Idle (snd (Connect (Some (Inr (7 :: nat))) (New 0))) (with_opened 7 (start 0 1)))"
  using methods_are_runs [of 0 "start (0 :: nat) 1" 7 "New 0" ErrNode] by (simp add: start_def)

subsection \<open>What a closed service still serves\<close>

text \<open>
  The end of \<open>Run\<close> releases the standing connection and leaves the flag up: a later \<open>Get\<close> then
  returns the released connection as if it stood, without asking the connector, and so does every
  \<open>Get\<close> after it until some caller drops it.
\<close>

theorem Get_after_close:
  assumes "svConnected s" and "svHave s"
  shows "Get answer (close s) = (Inr (svClient s), close s)
    \<and> svClient s \<in> set (svReleased (close s)) \<and> IsConnected (close s)"
  using assms by (simp add: Get_def close_def close_take_def release_def IsConnected_def)

theorem Get_after_close_witness:
  "Get None (close (snd (Connect (Some (Inr (7 :: nat))) (New 0)))) = (Inr 7, close (snd (Connect (Some (Inr 7)) (New 0))))"
  using Get_after_close [of "snd (Connect (Some (Inr (7 :: nat))) (New 0))" None]
  by (simp add: Connect_def install_def New_def release_def)

subsection \<open>Subscribers\<close>

text \<open>A reader of channel \<open>ch\<close> that reads once after each call of \<open>setConnected\<close>: what it reads.\<close>

fun watch :: "nat \<Rightarrow> bool list \<Rightarrow> 'c service \<Rightarrow> bool list" where
  "watch ch [] s = []"
| "watch ch (v # vs) s = (case receive ch (setConnected v s) of
     (Some x, s') \<Rightarrow> x # watch ch vs s' | (None, s') \<Rightarrow> watch ch vs s')"

fun changes :: "bool \<Rightarrow> bool list \<Rightarrow> bool list" where
  "changes prev [] = []"
| "changes prev (v # vs) = (if v = prev then changes prev vs else v # changes v vs)"

lemma map_of_subs: "map_of (map (\<lambda>(ch, buf). (ch, f buf)) subs) ch = map_option f (map_of subs ch)"
  by (induction subs) auto

lemma map_of_read: "map_of subs ch = Some buf \<Longrightarrow> map_of (map (\<lambda>p. if fst p = ch then (ch, rest) else p) subs) ch = Some rest"
  by (induction subs) (auto split: if_splits)

lemma receive_empty: "map_of (svSubs s) ch = Some [] \<Longrightarrow> receive ch s = (None, s)"
  by (simp add: receive_def)

lemma receive_change:
  assumes "map_of (svSubs s) ch = Some []" and "svConnected s \<noteq> v"
  shows "\<exists>s'. receive ch (setConnected v s) = (Some v, s') \<and> map_of (svSubs s') ch = Some [] \<and> svConnected s' = v"
proof -
  have "map_of (svSubs (setConnected v s)) ch = Some [v]"
    using assms by (simp add: setConnected_def tell_subs_def map_of_subs offer_def)
  then show ?thesis using map_of_read [of "svSubs (setConnected v s)" ch "[v]" "[]"] by (auto simp: receive_def)
qed

text \<open>
  A subscriber that has read its channel and reads again after every call that sets the state sees
  every change of the connection state, once and in order, and nothing else; one that has not yet read
  the value its channel started with when the state changes is left with the old value, and no later
  value follows until the state changes again.
\<close>

theorem subscriber_sees_changes:
  "(map_of (svSubs s) ch = Some [] \<longrightarrow> watch ch vs s = changes (svConnected s) vs)
   \<and> (map_of (svSubs s) (svNext s) = None \<longrightarrow>
      (let v = svConnected s; s1 = setConnected (\<not> v) (snd (ConnectedChan s)) in
         \<exists>s2. receive (svNext s) s1 = (Some v, s2) \<and> svConnected s2 \<noteq> v \<and> receive (svNext s) s2 = (None, s2)))"
  unfolding Let_def
proof (intro conjI impI)
  show "watch ch vs s = changes (svConnected s) vs" if "map_of (svSubs s) ch = Some []"
    using that
  proof (induction vs arbitrary: s)
    case (Cons v vs)
    show ?case
    proof (cases "v = svConnected s")
      case True
      then show ?thesis using Cons by (simp add: setConnected_def receive_empty)
    next
      case False
      then obtain s' where "receive ch (setConnected v s) = (Some v, s')" "map_of (svSubs s') ch = Some []" "svConnected s' = v"
        using receive_change [OF Cons.prems] by metis
      then show ?thesis using Cons.IH [of s'] False by simp
    qed
  qed simp
next
  assume fresh: "map_of (svSubs s) (svNext s) = None"
  let ?v = "svConnected s" and ?ch = "svNext s"
  let ?s1 = "setConnected (\<not> ?v) (snd (ConnectedChan s))"
  have sub: "map_of (svSubs ?s1) ?ch = Some [?v]"
    using fresh by (simp add: setConnected_def tell_subs_def ConnectedChan_def map_of_subs offer_def map_add_def)
  let ?s2 = "?s1\<lparr>svSubs := map (\<lambda>p. if fst p = ?ch then (?ch, []) else p) (svSubs ?s1)\<rparr>"
  have "receive ?ch ?s1 = (Some ?v, ?s2)" using sub by (simp add: receive_def)
  moreover have "receive ?ch ?s2 = (None, ?s2)"
    using map_of_read [OF sub] by (intro receive_empty) simp
  ultimately show "\<exists>s2. receive ?ch ?s1 = (Some ?v, s2) \<and> svConnected s2 \<noteq> ?v \<and> receive ?ch s2 = (None, s2)"
    by (intro exI [of _ ?s2]) simp
qed

theorem subscriber_sees_changes_witness:
  "watch 0 [True, True, False] (snd (receive 0 (snd (ConnectedChan (New (0 :: nat)))))) = [True, False]"
  using subscriber_sees_changes [of "snd (receive 0 (snd (ConnectedChan (New (0 :: nat)))))" 0 "[True, True, False]"]
  by (simp add: ConnectedChan_def New_def receive_def)

end
