(* ===== verification/Process.thy ===== *)
theory Process
  imports Command Service
begin

text \<open>
  The running command: what \<open>main.go\<close> does between the start of its goroutines and the exit. The five
  goroutines that follow the context, the HTTP server and \<open>run\<close> itself interleave as a step relation. A
  signal ends the context at any time, a listener fails at any time, a request comes while the listener
  stands and is answered at some later time (what it is answered is the subject of \<open>Router\<close>).
  \<open>Shutdown\<close> closes the listener, then waits for the requests under way or fails with the end of its grace
  period. The process ends with the return of \<open>run\<close>, whatever the goroutines are doing. The database service is
  part of the state, since its owner ends with the same context; each of its methods is one step here, and the
  finer interleavings are those of \<open>Service\<close>.
\<close>

subsection \<open>The state\<close>

datatype goroutine = NodesRun | MempoolNodesRun | StoresRun | SyncerRun | MempoolSyncerRun

datatype failure = ServeFailed error | StopFailed error

text \<open>Where \<open>run\<close> is: at its \<open>select\<close>, before \<open>Shutdown\<close>, inside it, or done.\<close>

datatype main_at = Selecting | Stopping | Draining | Returned "failure + unit"

text \<open>\<open>serverFailed\<close> is a channel with room for one error.\<close>

record 'c process =
  prDone :: bool
  prLoops :: "goroutine list"
  prListening :: bool
  prServerFailed :: "error list"
  prAccepted :: nat
  prAnswered :: nat
  prStores :: "'c service"
  prMain :: main_at

definition launch :: "'c \<Rightarrow> 'c process" where
  "launch zero =
     \<lparr>prDone = False, prLoops = [NodesRun, MempoolNodesRun, StoresRun, SyncerRun, MempoolSyncerRun], prListening = True,
      prServerFailed = [], prAccepted = 0, prAnswered = 0, prStores = New zero, prMain = Selecting\<rparr>"

definition alive :: "'c process \<Rightarrow> bool" where
  "alive p = (case prMain p of Returned _ \<Rightarrow> False | _ \<Rightarrow> True)"

text \<open>Who calls \<open>Get\<close> on the database: the two loops of the index and the requests under way.\<close>

definition uses_store :: "'c process \<Rightarrow> bool" where
  "uses_store p \<longleftrightarrow> SyncerRun \<in> set (prLoops p) \<or> MempoolSyncerRun \<in> set (prLoops p) \<or> prAnswered p < prAccepted p"

inductive proc_step :: "'c process \<Rightarrow> 'c process \<Rightarrow> bool" where
  signal: "alive p \<Longrightarrow> proc_step p (p\<lparr>prDone := True\<rparr>)"
| loop_ends: "alive p \<Longrightarrow> prDone p \<Longrightarrow> l \<in> set (prLoops p) \<Longrightarrow> l \<noteq> StoresRun
    \<Longrightarrow> proc_step p (p\<lparr>prLoops := removeAll l (prLoops p)\<rparr>)"
| stores_end: "alive p \<Longrightarrow> prDone p \<Longrightarrow> StoresRun \<in> set (prLoops p)
    \<Longrightarrow> proc_step p (p\<lparr>prLoops := removeAll StoresRun (prLoops p), prStores := close (prStores p)\<rparr>)"
| stores_tick: "alive p \<Longrightarrow> StoresRun \<in> set (prLoops p) \<Longrightarrow> proc_step p (p\<lparr>prStores := Run_tick answer (prStores p)\<rparr>)"
| stores_get: "alive p \<Longrightarrow> uses_store p \<Longrightarrow> proc_step p (p\<lparr>prStores := snd (Get answer (prStores p))\<rparr>)"
| accept: "alive p \<Longrightarrow> prListening p \<Longrightarrow> proc_step p (p\<lparr>prAccepted := Suc (prAccepted p)\<rparr>)"
| answer: "alive p \<Longrightarrow> prAnswered p < prAccepted p \<Longrightarrow> proc_step p (p\<lparr>prAnswered := Suc (prAnswered p)\<rparr>)"
| listen_fails: "alive p \<Longrightarrow> prListening p \<Longrightarrow> length (prServerFailed p) < 1
    \<Longrightarrow> proc_step p (p\<lparr>prListening := False, prServerFailed := prServerFailed p @ [e]\<rparr>)"
| select_failed: "prMain p = Selecting \<Longrightarrow> prServerFailed p = e # es
    \<Longrightarrow> proc_step p (p\<lparr>prServerFailed := es, prMain := Returned (Inl (ServeFailed e))\<rparr>)"
| select_done: "prMain p = Selecting \<Longrightarrow> prDone p \<Longrightarrow> proc_step p (p\<lparr>prMain := Stopping\<rparr>)"
| shutdown: "prMain p = Stopping \<Longrightarrow> proc_step p (p\<lparr>prListening := False, prMain := Draining\<rparr>)"
| drained: "prMain p = Draining \<Longrightarrow> prAnswered p = prAccepted p \<Longrightarrow> proc_step p (p\<lparr>prMain := Returned (Inr ())\<rparr>)"
| shutdown_fails: "prMain p = Draining \<Longrightarrow> proc_step p (p\<lparr>prMain := Returned (Inl (StopFailed e))\<rparr>)"

inductive proc_reach :: "'c process \<Rightarrow> bool" where
  launched: "proc_reach (launch zero)"
| moves: "proc_reach p \<Longrightarrow> proc_step p q \<Longrightarrow> proc_reach q"

text \<open>\<open>main\<close>: the status of the process, after a start that was refused and after a run.\<close>

definition refused_status :: "stop \<Rightarrow> nat" where
  "refused_status s = (case s of Exit code \<Rightarrow> code | _ \<Rightarrow> 1)"

definition exit_status :: "failure + unit \<Rightarrow> nat" where
  "exit_status r = (case r of Inl _ \<Rightarrow> 1 | Inr _ \<Rightarrow> 0)"

inductive_cases proc_stepE: "proc_step p q"

subsection \<open>Invariants\<close>

definition orderly :: "'c process \<Rightarrow> bool" where
  "orderly p \<longleftrightarrow> prAnswered p \<le> prAccepted p
     \<and> (prListening p \<longrightarrow> prServerFailed p = [])
     \<and> (case prMain p of
          Selecting \<Rightarrow> prListening p \<or> prServerFailed p \<noteq> []
        | Stopping \<Rightarrow> prDone p
        | Draining \<Rightarrow> prDone p \<and> \<not> prListening p
        | Returned (Inr _) \<Rightarrow> prDone p \<and> \<not> prListening p \<and> prAnswered p = prAccepted p
        | Returned (Inl (ServeFailed _)) \<Rightarrow> \<not> prListening p
        | Returned (Inl (StopFailed _)) \<Rightarrow> prDone p \<and> \<not> prListening p)"

lemma orderly_step:
  assumes "proc_step p q" and "orderly p"
  shows "orderly q"
  using assms(1)
  by (rule proc_stepE) (use assms(2) in \<open>auto simp: orderly_def alive_def split: main_at.splits sum.splits failure.splits\<close>)

lemma orderly_reach: "proc_reach p \<Longrightarrow> orderly p"
proof (induction rule: proc_reach.induct)
  case launched
  show ?case by (simp add: orderly_def launch_def)
qed (rule orderly_step)

text \<open>Until its owner ends, a database that is marked as connected is owned.\<close>

definition owned_store :: "'c process \<Rightarrow> bool" where
  "owned_store p \<longleftrightarrow> (StoresRun \<in> set (prLoops p) \<longrightarrow> svConnected (prStores p) \<longrightarrow> svHave (prStores p))"

lemma Connect_have: "svConnected (snd (Connect a s)) \<Longrightarrow> svHave (snd (Connect a s))"
  by (auto simp: Connect_def install_def release_def setConnected_def tell_subs_def split: option.splits sum.splits if_splits)

lemma owned_store_step:
  assumes "proc_step p q" and "owned_store p"
  shows "owned_store q"
  using assms(1) by (rule proc_stepE) (use assms(2) in \<open>auto simp: owned_store_def Run_tick_def Get_def Connect_have\<close>)

lemma owned_store_reach: "proc_reach p \<Longrightarrow> owned_store p"
proof (induction rule: proc_reach.induct)
  case launched
  show ?case by (simp add: owned_store_def launch_def New_def)
qed (rule owned_store_step)

lemma closed_store_step:
  assumes "proc_step p q" and "StoresRun \<notin> set (prLoops p)" and "svConnected (prStores p)"
  shows "StoresRun \<notin> set (prLoops q) \<and> prStores q = prStores p"
  using assms(1) by (rule proc_stepE) (use assms(2,3) in \<open>auto simp: Get_def\<close>)

lemma closed_store_steps:
  assumes "proc_step\<^sup>*\<^sup>* p q" and "StoresRun \<notin> set (prLoops p)" and "svConnected (prStores p)"
  shows "StoresRun \<notin> set (prLoops q) \<and> prStores q = prStores p"
  using assms by (induction rule: rtranclp_induct) (auto dest: closed_store_step)

subsection \<open>The way out\<close>

lemma answers_out:
  "alive p \<Longrightarrow> prAnswered p \<le> prAccepted p \<Longrightarrow> proc_step\<^sup>*\<^sup>* p (p\<lparr>prAnswered := prAccepted p\<rparr>)"
proof (induction "prAccepted p - prAnswered p" arbitrary: p)
  case 0
  then have "p\<lparr>prAnswered := prAccepted p\<rparr> = p" by simp
  then show ?case by simp
next
  case (Suc n)
  let ?q = "p\<lparr>prAnswered := Suc (prAnswered p)\<rparr>"
  have "proc_step p ?q" using Suc by (intro proc_step.answer) auto
  moreover have "proc_step\<^sup>*\<^sup>* ?q (?q\<lparr>prAnswered := prAccepted ?q\<rparr>)"
    using Suc by (intro Suc.hyps(1)) (auto simp: alive_def)
  ultimately show ?case by (simp add: converse_rtranclp_into_rtranclp)
qed

lemma drains:
  assumes "prMain p = Draining" and "prAnswered p \<le> prAccepted p"
  shows "\<exists>q. proc_step\<^sup>*\<^sup>* p q \<and> prMain q = Returned (Inr ())"
proof -
  let ?p = "p\<lparr>prAnswered := prAccepted p\<rparr>"
  have "proc_step\<^sup>*\<^sup>* p ?p" using assms by (intro answers_out) (simp_all add: alive_def)
  moreover have "proc_step ?p (?p\<lparr>prMain := Returned (Inr ())\<rparr>)" using assms(1) by (intro proc_step.drained) simp_all
  ultimately show ?thesis by (intro exI [of _ "?p\<lparr>prMain := Returned (Inr ())\<rparr>"]) simp
qed

lemma stops:
  assumes "prMain p = Stopping" and "prAnswered p \<le> prAccepted p"
  shows "\<exists>q. proc_step\<^sup>*\<^sup>* p q \<and> prMain q = Returned (Inr ())"
  using proc_step.shutdown [OF assms(1)] drains [of "p\<lparr>prListening := False, prMain := Draining\<rparr>"] assms(2)
  by (auto intro: converse_rtranclp_into_rtranclp)

lemma leaves:
  assumes "alive p" and "prDone p" and "prAnswered p \<le> prAccepted p"
  shows "\<exists>q. proc_step\<^sup>*\<^sup>* p q \<and> prMain q = Returned (Inr ())"
proof (cases "prMain p")
  case Selecting
  then show ?thesis using proc_step.select_done [OF Selecting assms(2)] stops [of "p\<lparr>prMain := Stopping\<rparr>"] assms(3)
    by (auto intro: converse_rtranclp_into_rtranclp)
qed (use assms stops drains in \<open>auto simp: alive_def\<close>)

subsection \<open>Properties\<close>

text \<open>
  C23. The command runs until a signal comes or its listener fails, and its status tells which. While the
  listener stands and no signal came, \<open>run\<close> waits. After a signal there is always a way to a clean exit, and
  when the listener has failed its error is in the channel or was returned, since the send never blocks. The
  process ends with status 0 only after a signal, with the listener closed and every request it accepted
  answered; without a signal it ends only with the error of the listener.
\<close>

theorem run_until_signal:
  assumes "proc_reach p"
  shows "(prListening p \<and> \<not> prDone p \<longrightarrow> prMain p = Selecting)
    \<and> (alive p \<and> prDone p \<longrightarrow> (\<exists>q. proc_step\<^sup>*\<^sup>* p q \<and> prMain q = Returned (Inr ())))
    \<and> (prMain p = Selecting \<and> \<not> prListening p \<longrightarrow> prServerFailed p \<noteq> [])
    \<and> (\<forall>r. prMain p = Returned r \<and> exit_status r = 0 \<longrightarrow> prDone p \<and> \<not> prListening p \<and> prAnswered p = prAccepted p)
    \<and> (\<forall>r. prMain p = Returned r \<and> \<not> prDone p \<longrightarrow> (\<exists>e. r = Inl (ServeFailed e)))"
proof (intro conjI allI impI; (elim conjE)?)
  note inv = orderly_reach [OF assms]
  show "\<exists>q. proc_step\<^sup>*\<^sup>* p q \<and> prMain q = Returned (Inr ())" if "alive p" "prDone p"
    using leaves [OF that] inv by (simp add: orderly_def)
  show "prMain p = Selecting" if "prListening p" "\<not> prDone p"
    using inv that by (auto simp: orderly_def split: main_at.splits sum.splits failure.splits)
  show "prServerFailed p \<noteq> []" if "prMain p = Selecting" "\<not> prListening p"
    using inv that by (simp add: orderly_def)
  show "prDone p" "\<not> prListening p" "prAnswered p = prAccepted p" if "prMain p = Returned r" "exit_status r = 0" for r
    using inv that by (auto simp: orderly_def exit_status_def split: sum.splits)
  show "\<exists>e. r = Inl (ServeFailed e)" if "prMain p = Returned r" "\<not> prDone p" for r
    using inv that by (auto simp: orderly_def split: sum.splits failure.splits)
qed


text \<open>A shutdown with one request under way: the database is connected, then closed, and the request asks for it.\<close>

definition ex_draining :: "nat process" where
  "ex_draining = (launch 0)\<lparr>prStores := snd (Get (Some (Inr 7)) (New 0)), prAccepted := 1, prDone := True,
     prListening := False, prMain := Draining\<rparr>"

lemma ex_draining_reach: "proc_reach ex_draining"
proof -
  let ?p1 = "(launch 0)\<lparr>prStores := snd (Get (Some (Inr (7 :: nat))) (New 0))\<rparr>"
  have "proc_reach ?p1"
    using proc_reach.moves [OF proc_reach.launched proc_step.stores_get, of "0 :: nat" "Some (Inr 7)"]
    by (simp add: launch_def alive_def uses_store_def)
  then have "proc_reach (?p1\<lparr>prAccepted := 1\<rparr>)"
    using proc_step.accept [of ?p1] by (auto simp: launch_def alive_def intro: proc_reach.moves)
  then have "proc_reach (?p1\<lparr>prAccepted := 1, prDone := True\<rparr>)"
    using proc_step.signal [of "?p1\<lparr>prAccepted := 1\<rparr>"] by (auto simp: launch_def alive_def intro: proc_reach.moves)
  then have "proc_reach (?p1\<lparr>prAccepted := 1, prDone := True, prMain := Stopping\<rparr>)"
    using proc_step.select_done [of "?p1\<lparr>prAccepted := 1, prDone := True\<rparr>"] by (auto simp: launch_def intro: proc_reach.moves)
  then show ?thesis
    using proc_step.shutdown [of "?p1\<lparr>prAccepted := 1, prDone := True, prMain := Stopping\<rparr>"]
    by (auto simp: launch_def ex_draining_def intro: proc_reach.moves)
qed

theorem run_until_signal_witness:
  "prAnswered ex_draining < prAccepted ex_draining
     \<and> (\<exists>q. proc_step\<^sup>*\<^sup>* ex_draining q \<and> prMain q = Returned (Inr ()) \<and> exit_status (Inr ()) = 0)"
  using run_until_signal [OF ex_draining_reach]
  by (auto simp: ex_draining_def launch_def alive_def exit_status_def)


end
