(* ===== verification/Esplora.thy ===== *)
theory Esplora
  imports Mempool
begin

text \<open>
  The wire types of the REST API: \<open>internal/api/esplora.go\<close> and \<open>internal/api/write.go\<close>, with the
  types of \<open>activity.go\<close> and \<open>handlers.go\<close>. Each Go struct is a record, with a pointer as an
  \<open>option\<close>, and a function that gives what \<open>encoding/json\<close> writes for it: the members in the order of
  the struct, \<open>null\<close> for a nil pointer, and no member for an empty \<open>omitempty\<close> field. The base58
  encoder of addresses is an argument.

  A response is its status, its content type and its body. The text of an error is the error itself.
\<close>

subsection \<open>Options\<close>

definition j_opt :: "('a \<Rightarrow> json) \<Rightarrow> 'a option \<Rightarrow> json" where
  "j_opt enc x = (case x of None \<Rightarrow> JNull | Some y \<Rightarrow> enc y)"

definition omit_empty :: "string \<Rightarrow> string \<Rightarrow> (string \<times> json) list" where
  "omit_empty name s = (if s = [] then [] else [(name, JStr s)])"

subsection \<open>Responses\<close>

datatype payload = BJson json | BText string | BError error

record response =
  rsStatus :: nat
  rsType :: string
  rsBody :: payload

definition writeJSON :: "json \<Rightarrow> response" where
  "writeJSON j = \<lparr>rsStatus = 200, rsType = ''application/json'', rsBody = BJson j\<rparr>"

definition writeText :: "string \<Rightarrow> response" where
  "writeText s = \<lparr>rsStatus = 200, rsType = ''text/plain'', rsBody = BText s\<rparr>"

definition writeError :: "nat \<Rightarrow> payload \<Rightarrow> response" where
  "writeError status message = \<lparr>rsStatus = status, rsType = ''text/plain'', rsBody = message\<rparr>"

lemma response_sel [simp]:
  "rsStatus (writeJSON j) = 200" "rsStatus (writeText s) = 200" "rsStatus (writeError n m) = n"
  "rsBody (writeJSON j) = BJson j" "rsBody (writeText s) = BText s" "rsBody (writeError n m) = m"
  by (simp_all add: writeJSON_def writeText_def writeError_def)

subsection \<open>Request bodies\<close>

text \<open>
  A request body is what the connection delivers: the bytes, or the error after which it stopped.
  \<open>bytes.TrimSpace\<close> drops the six ASCII spaces here; a body with a space outside ASCII at its ends is
  not JSON either way. The JSON parser of the standard library is the argument \<open>parse\<close>, as the value a
  text stands for.
\<close>

abbreviation maxBroadcastBytes :: nat where "maxBroadcastBytes \<equiv> 1048576"

definition is_space :: "char \<Rightarrow> bool" where
  "is_space c \<longleftrightarrow> c \<in> {CHR 0x09, CHR 0x0A, CHR 0x0B, CHR 0x0C, CHR 0x0D, CHR 0x20}"

definition trim_space :: "string \<Rightarrow> string" where
  "trim_space s = rev (dropWhile is_space (rev (dropWhile is_space s)))"

text \<open>The reader is limited, so an error of the connection past the limit is never seen.\<close>

definition readTransactionBody :: "(string \<Rightarrow> json option) \<Rightarrow> string \<times> bool \<Rightarrow> raw_message res" where
  "readTransactionBody parse body =
     (case body of (delivered, broken) \<Rightarrow>
       if broken \<and> length delivered < maxBroadcastBytes then Inl ErrBody
       else (let trimmed = trim_space (take maxBroadcastBytes delivered) in
         if trimmed = [] then Inl ErrBodyEmpty
         else (case parse trimmed of None \<Rightarrow> Inl ErrBodyJson | Some j \<Rightarrow> Inr (Some j))))"

subsection \<open>Where a transaction sits\<close>

record es_status =
  esConfirmed :: bool
  esBlockHeight :: "u32 option"
  esBlockHash :: "string option"
  esBlockTime :: "int option"

definition json_Status :: "es_status \<Rightarrow> json" where
  "json_Status s = JObj [(''confirmed'', JBool (esConfirmed s)), (''block_height'', j_opt j_uint (esBlockHeight s)),
     (''block_hash'', j_opt JStr (esBlockHash s)), (''block_time'', j_opt j_int (esBlockTime s))]"

definition newStatus :: "u32 \<Rightarrow> hash \<Rightarrow> int option \<Rightarrow> es_status" where
  "newStatus height hash blockTime = \<lparr>esConfirmed = True, esBlockHeight = Some height,
     esBlockHash = Some (Hash_String hash), esBlockTime = blockTime\<rparr>"

definition pendingStatus :: es_status where
  "pendingStatus = \<lparr>esConfirmed = False, esBlockHeight = None, esBlockHash = None, esBlockTime = None\<rparr>"

text \<open>\<open>row.Block\<close> is a struct, all zero on a row that no block carries.\<close>

definition txStatus :: "tx_detail \<Rightarrow> es_status" where
  "txStatus row =
     (if twUnconfirmed row then pendingStatus
      else (case twBlock row of
          Some b \<Rightarrow> newStatus (twHeight row) (bwHash b) (bwBlockTime b)
        | None \<Rightarrow> newStatus (twHeight row) zero_hash None))"

subsection \<open>Coins and transactions\<close>

abbreviation ScriptPubKeyType :: string where "ScriptPubKeyType \<equiv> ''sidechain_address''"

definition sourceString_api :: "out_point \<Rightarrow> string" where
  "sourceString_api o' = (if opKind o' = KindDeposit then BitcoinHash_String (opSource o') else Hash_String (opSource o'))"

record es_vout =
  evScriptPubKey :: string
  evScriptPubKeyAsm :: string
  evScriptPubKeyType :: string
  evScriptPubKeyAddress :: string
  evValue :: int
  evOutpointKind :: string
  evContentType :: string
  evContent :: json

definition json_Vout :: "es_vout \<Rightarrow> json" where
  "json_Vout v = JObj [(''scriptpubkey'', JStr (evScriptPubKey v)), (''scriptpubkey_asm'', JStr (evScriptPubKeyAsm v)),
     (''scriptpubkey_type'', JStr (evScriptPubKeyType v)), (''scriptpubkey_address'', JStr (evScriptPubKeyAddress v)),
     (''value'', j_int (evValue v)), (''outpoint_kind'', JStr (evOutpointKind v)),
     (''content_type'', JStr (evContentType v)), (''content'', evContent v)]"

definition newVout :: "(bytes \<Rightarrow> string) \<Rightarrow> coin \<Rightarrow> es_vout" where
  "newVout b58 c = \<lparr>evScriptPubKey = hex_encode (ccAddress c), evScriptPubKeyAsm = [],
     evScriptPubKeyType = ScriptPubKeyType, evScriptPubKeyAddress = Address_String b58 (ccAddress c),
     evValue = ccValueSats c, evOutpointKind = OutPointKind_String (opKind (ccOutPoint c)),
     evContentType = ccContentType c, evContent = ccContent c\<rparr>"

record es_vin =
  eiTxid :: string
  eiVout :: u32
  eiPrevout :: "es_vout option"
  eiScriptSig :: string
  eiWitness :: "string list"
  eiIsCoinbase :: bool
  eiSequence :: u32

definition json_Vin :: "es_vin \<Rightarrow> json" where
  "json_Vin v = JObj [(''txid'', JStr (eiTxid v)), (''vout'', j_uint (eiVout v)), (''prevout'', j_opt json_Vout (eiPrevout v)),
     (''scriptsig'', JStr (eiScriptSig v)), (''witness'', JArr (map JStr (eiWitness v))),
     (''is_coinbase'', JBool (eiIsCoinbase v)), (''sequence'', j_uint (eiSequence v))]"

record es_tx =
  exTxid :: string
  exVersion :: int
  exLocktime :: u32
  exSize :: int
  exWeight :: int
  exFee :: int
  exVin :: "es_vin list"
  exVout :: "es_vout list"
  exStatus :: es_status

definition json_Tx :: "es_tx \<Rightarrow> json" where
  "json_Tx t = JObj [(''txid'', JStr (exTxid t)), (''version'', j_int (exVersion t)), (''locktime'', j_uint (exLocktime t)),
     (''size'', j_int (exSize t)), (''weight'', j_int (exWeight t)), (''fee'', j_int (exFee t)),
     (''vin'', JArr (map json_Vin (exVin t))), (''vout'', JArr (map json_Vout (exVout t))),
     (''status'', json_Status (exStatus t))]"

definition new_vin :: "(bytes \<Rightarrow> string) \<Rightarrow> coin \<Rightarrow> es_vin" where
  "new_vin b58 c = \<lparr>eiTxid = sourceString_api (ccOutPoint c), eiVout = opVout (ccOutPoint c),
     eiPrevout = Some (newVout b58 c), eiScriptSig = [], eiWitness = [],
     eiIsCoinbase = (opKind (ccOutPoint c) = KindCoinbase), eiSequence = 0\<rparr>"

definition newTx :: "(bytes \<Rightarrow> string) \<Rightarrow> tx_detail \<Rightarrow> es_tx" where
  "newTx b58 row = \<lparr>exTxid = Hash_String (twTxid row), exVersion = 0, exLocktime = 0, exSize = twSizeBytes row,
     exWeight = twSizeBytes row * 4, exFee = twFeeSats row, exVin = map (new_vin b58) (twVin row),
     exVout = map (newVout b58) (twVout row), exStatus = txStatus row\<rparr>"

subsection \<open>Unspent outputs and spends\<close>

record es_utxo =
  euTxid :: string
  euVout :: u32
  euValue :: int
  euStatus :: es_status
  euOutpointKind :: string
  euHeightExact :: bool
  euContentType :: string
  euContent :: json

definition json_UTXO :: "es_utxo \<Rightarrow> json" where
  "json_UTXO u = JObj [(''txid'', JStr (euTxid u)), (''vout'', j_uint (euVout u)), (''value'', j_int (euValue u)),
     (''status'', json_Status (euStatus u)), (''outpoint_kind'', JStr (euOutpointKind u)),
     (''height_exact'', JBool (euHeightExact u)), (''content_type'', JStr (euContentType u)), (''content'', euContent u)]"

definition newUTXO :: "utxo \<Rightarrow> es_utxo" where
  "newUTXO u = \<lparr>euTxid = sourceString_api (utOutPoint u), euVout = opVout (utOutPoint u), euValue = utValueSats u,
     euStatus = (if utUnconfirmed u then pendingStatus else newStatus (utHeight u) (utBlockHash u) (utBlockTime u)),
     euOutpointKind = OutPointKind_String (opKind (utOutPoint u)), euHeightExact = utHeightExact u,
     euContentType = utContentType u, euContent = utContent u\<rparr>"

definition toUTXOs :: "utxo list \<Rightarrow> es_utxo list" where
  "toUTXOs rows = map newUTXO rows"

record es_outspend =
  eoSpent :: bool
  eoTxid :: "string option"
  eoVin :: "u32 option"
  eoStatus :: "es_status option"
  eoSpentBy :: string

definition json_Outspend :: "es_outspend \<Rightarrow> json" where
  "json_Outspend o' = JObj ([(''spent'', JBool (eoSpent o')), (''txid'', j_opt JStr (eoTxid o')),
     (''vin'', j_opt j_uint (eoVin o')), (''status'', j_opt json_Status (eoStatus o'))] @ omit_empty ''spent_by'' (eoSpentBy o'))"

subsection \<open>Addresses\<close>

record es_txo_stats =
  xsFundedTxoCount :: int
  xsFundedTxoSum :: int
  xsSpentTxoCount :: int
  xsSpentTxoSum :: int
  xsTxCount :: int

definition newTxoStats :: "txo_stats \<Rightarrow> es_txo_stats" where
  "newTxoStats s = \<lparr>xsFundedTxoCount = tsFundedCount s, xsFundedTxoSum = tsFundedSum s, xsSpentTxoCount = tsSpentCount s,
     xsSpentTxoSum = tsSpentSum s, xsTxCount = tsTxCount s\<rparr>"

definition json_TxoStats :: "es_txo_stats \<Rightarrow> json" where
  "json_TxoStats s = JObj [(''funded_txo_count'', j_int (xsFundedTxoCount s)), (''funded_txo_sum'', j_int (xsFundedTxoSum s)),
     (''spent_txo_count'', j_int (xsSpentTxoCount s)), (''spent_txo_sum'', j_int (xsSpentTxoSum s)),
     (''tx_count'', j_int (xsTxCount s))]"

record address_info =
  aiAddress :: string
  aiScriptHash :: string
  aiChainStats :: es_txo_stats
  aiMempoolStats :: es_txo_stats

definition json_AddressInfo :: "address_info \<Rightarrow> json" where
  "json_AddressInfo a = JObj (omit_empty ''address'' (aiAddress a) @ omit_empty ''scripthash'' (aiScriptHash a)
     @ [(''chain_stats'', json_TxoStats (aiChainStats a)), (''mempool_stats'', json_TxoStats (aiMempoolStats a))])"

subsection \<open>Blocks\<close>

record es_block =
  ebID :: string
  ebHeight :: u32
  ebVersion :: int
  ebTimestamp :: "int option"
  ebTxCount :: int
  ebSize :: int
  ebWeight :: int
  ebMerkleRoot :: string
  ebPreviousHash :: "string option"
  ebMainchainHash :: string
  ebMainchainHeight :: "u32 option"
  ebFees :: int
  ebValue :: int

definition json_Block :: "es_block \<Rightarrow> json" where
  "json_Block b = JObj [(''id'', JStr (ebID b)), (''height'', j_uint (ebHeight b)), (''version'', j_int (ebVersion b)),
     (''timestamp'', j_opt j_int (ebTimestamp b)), (''tx_count'', j_int (ebTxCount b)), (''size'', j_int (ebSize b)),
     (''weight'', j_int (ebWeight b)), (''merkle_root'', JStr (ebMerkleRoot b)),
     (''previousblockhash'', j_opt JStr (ebPreviousHash b)), (''mainchain_blockhash'', JStr (ebMainchainHash b)),
     (''mainchain_height'', j_opt j_uint (ebMainchainHeight b)), (''fees'', j_int (ebFees b)), (''value'', j_int (ebValue b))]"

definition newBlock :: "block_info \<Rightarrow> es_block" where
  "newBlock b = \<lparr>ebID = Hash_String (bwHash b), ebHeight = bwHeight b, ebVersion = 0, ebTimestamp = bwBlockTime b,
     ebTxCount = bwTxCount b, ebSize = 0, ebWeight = 0, ebMerkleRoot = Hash_String (bwMerkleRoot b),
     ebPreviousHash = map_option Hash_String (bwPrevHash b), ebMainchainHash = BitcoinHash_String (bwMainHash b),
     ebMainchainHeight = bwMainHeight b, ebFees = bwFeeSats b, ebValue = bwValueSats b\<rparr>"

record es_block_status =
  etInBestChain :: bool
  etHeight :: "u32 option"
  etNextBest :: "string option"

definition json_BlockStatus :: "es_block_status \<Rightarrow> json" where
  "json_BlockStatus s = JObj [(''in_best_chain'', JBool (etInBestChain s)), (''height'', j_opt j_uint (etHeight s)),
     (''next_best'', j_opt JStr (etNextBest s))]"

subsection \<open>The feed and the mempool\<close>

record es_activity =
  eaKind :: string
  eaID :: string
  eaValue :: int
  eaFee :: int
  eaSize :: int
  eaStatus :: es_status

definition json_Activity :: "es_activity \<Rightarrow> json" where
  "json_Activity a = JObj [(''kind'', JStr (eaKind a)), (''id'', JStr (eaID a)), (''value'', j_int (eaValue a)),
     (''fee'', j_int (eaFee a)), (''size'', j_int (eaSize a)), (''status'', json_Status (eaStatus a))]"

definition newActivity :: "activity_row \<Rightarrow> es_activity" where
  "newActivity row = \<lparr>eaKind = avKind row, eaID = Hash_String (avID row), eaValue = avValueSats row, eaFee = avFeeSats row,
     eaSize = avSizeBytes row, eaStatus = newStatus (avHeight row) (avBlockHash row) (avBlockTime row)\<rparr>"

record recent_tx =
  rtTxid :: string
  rtFee :: int
  rtVsize :: int
  rtValue :: int

definition json_RecentTx :: "recent_tx \<Rightarrow> json" where
  "json_RecentTx t = JObj [(''txid'', JStr (rtTxid t)), (''fee'', j_int (rtFee t)), (''vsize'', j_int (rtVsize t)),
     (''value'', j_int (rtValue t))]"

record withdrawal_state =
  wsBundle :: raw_message
  wsLastFailedHeight :: "u32 option"

text \<open>A nil raw message is written as \<open>null\<close>.\<close>

definition json_WithdrawalState :: "withdrawal_state \<Rightarrow> json" where
  "json_WithdrawalState w = JObj [(''bundle'', j_opt id (wsBundle w)), (''last_failed_height'', j_opt j_uint (wsLastFailedHeight w))]"

record treasury =
  tyTxid :: string
  tyVout :: u32
  tyValueSats :: int

definition json_Treasury :: "treasury \<Rightarrow> json" where
  "json_Treasury t = JObj [(''txid'', JStr (tyTxid t)), (''vout'', j_uint (tyVout t)), (''value_sats'', j_int (tyValueSats t))]"

record sidechain_info =
  siSlot :: u32
  siTitle :: string
  siDescription :: string
  siVoteCount :: u32
  siProposalHeight :: u32
  siActivationHeight :: u32
  siTreasury :: "treasury option"

definition json_SidechainInfo :: "sidechain_info \<Rightarrow> json" where
  "json_SidechainInfo s = JObj [(''slot'', j_uint (siSlot s)), (''title'', JStr (siTitle s)),
     (''description'', JStr (siDescription s)), (''vote_count'', j_uint (siVoteCount s)),
     (''proposal_height'', j_uint (siProposalHeight s)), (''activation_height'', j_uint (siActivationHeight s)),
     (''treasury'', j_opt json_Treasury (siTreasury s))]"

end
