(* ===== verification/Enforcer.thy ===== *)
theory Enforcer
  imports Http "HOL-Library.Multiset"
begin

text \<open>
  The reader of the mainchain's hashrate escrow: \<open>internal/mainchain/enforcer.go\<close>. The enforcer is not
  this program, so the exchange with it is an argument, and so is the JSON parser. Each answer is
  decoded by a table of the fields its struct has.
\<close>

record sidechain =
  scSlot :: u32
  scTitle :: string
  scDescription :: string
  scVoteCount :: u32
  scProposalHeight :: u32
  scActivationHeight :: u32
  scBalanceSats :: int
  scCtipTxid :: string
  scCtipVout :: u32

record ctip =
  ctTxid :: string
  ctVout :: u32
  ctValueSats :: int

record enforcer =
  efBaseURL :: string
  efHttp :: exchange

definition New_Enforcer :: "string \<Rightarrow> exchange \<Rightarrow> enforcer" where
  "New_Enforcer baseURL http = \<lparr>efBaseURL = trim_slashes baseURL, efHttp = http\<rparr>"

definition post :: "parser \<Rightarrow> enforcer \<Rightarrow> string \<Rightarrow> string \<Rightarrow> (json \<Rightarrow> 'a \<Rightarrow> 'a res) \<Rightarrow> 'a \<Rightarrow> 'a res" where
  "post parse e method body un zero =
     (case efHttp e (efBaseURL e @ ''/cusf.mainchain.v1.ValidatorService/'' @ method) body of
        NoAnswer \<Rightarrow> Inl ErrHttp
      | Broken \<Rightarrow> Inl ErrHttp
      | Answer status answer \<Rightarrow>
          if status \<noteq> 200 then Inl (ErrHttpStatus status) else unmarshal parse un answer zero)"

definition call :: "parser \<Rightarrow> enforcer \<Rightarrow> string \<Rightarrow> (json \<Rightarrow> 'a \<Rightarrow> 'a res) \<Rightarrow> 'a \<Rightarrow> 'a res" where
  "call parse e method un zero = post parse e method ''{}'' un zero"

subsection \<open>Sidechains\<close>

text \<open>The declaration is a pointer to a struct with a pointer to the version 0 form.\<close>

record v0 =
  v0Title :: string
  v0Description :: string

record slot_wire =
  swNumber :: u32
  swDeclaration :: "v0 option option"
  swVoteCount :: u32
  swProposalHeight :: u32
  swActivationHeight :: u32

definition v0_fields :: "v0 fields" where
  "v0_fields =
    [(''title'', \<lambda>j s. bindE (un_string j (v0Title s)) (\<lambda>x. Inr (s\<lparr>v0Title := x\<rparr>))),
     (''description'', \<lambda>j s. bindE (un_string j (v0Description s)) (\<lambda>x. Inr (s\<lparr>v0Description := x\<rparr>)))]"

definition declaration_fields :: "v0 option fields" where
  "declaration_fields = [(''v0'', un_ptr (un_struct v0_fields) \<lparr>v0Title = [], v0Description = []\<rparr>)]"

definition slot_fields :: "slot_wire fields" where
  "slot_fields =
    [(''sidechainNumber'', \<lambda>j s. bindE (un_uint j (swNumber s)) (\<lambda>x. Inr (s\<lparr>swNumber := x\<rparr>))),
     (''declaration'', \<lambda>j s. bindE (un_ptr (un_struct declaration_fields) None j (swDeclaration s)) (\<lambda>x. Inr (s\<lparr>swDeclaration := x\<rparr>))),
     (''voteCount'', \<lambda>j s. bindE (un_uint j (swVoteCount s)) (\<lambda>x. Inr (s\<lparr>swVoteCount := x\<rparr>))),
     (''proposalHeight'', \<lambda>j s. bindE (un_uint j (swProposalHeight s)) (\<lambda>x. Inr (s\<lparr>swProposalHeight := x\<rparr>))),
     (''activationHeight'', \<lambda>j s. bindE (un_uint j (swActivationHeight s)) (\<lambda>x. Inr (s\<lparr>swActivationHeight := x\<rparr>)))]"

definition zero_slot :: slot_wire where
  "zero_slot = \<lparr>swNumber = 0, swDeclaration = None, swVoteCount = 0, swProposalHeight = 0, swActivationHeight = 0\<rparr>"

definition sidechains_fields :: "slot_wire list fields" where
  "sidechains_fields = [(''sidechains'', \<lambda>j s. un_slice (\<lambda>j. un_struct slot_fields j zero_slot) j)]"

definition sidechain_of :: "slot_wire \<Rightarrow> sidechain" where
  "sidechain_of s =
     (let titles = (case swDeclaration s of Some (Some d) \<Rightarrow> (v0Title d, v0Description d) | _ \<Rightarrow> ([], [])) in
      \<lparr>scSlot = swNumber s, scTitle = fst titles, scDescription = snd titles, scVoteCount = swVoteCount s,
       scProposalHeight = swProposalHeight s, scActivationHeight = swActivationHeight s,
       scBalanceSats = 0, scCtipTxid = [], scCtipVout = 0\<rparr>)"

definition Sidechains :: "parser \<Rightarrow> enforcer \<Rightarrow> sidechain list res" where
  "Sidechains parse e =
     bindE (call parse e ''GetSidechains'' (un_struct sidechains_fields) []) (\<lambda>resp.
       Inr (sort_key scSlot (map sidechain_of resp)))"

subsection \<open>The treasury of a slot\<close>

record ctip_wire =
  cwHex :: string
  cwVout :: u32
  cwValue :: string

definition hex_fields :: "ctip_wire fields" where
  "hex_fields = [(''hex'', \<lambda>j s. bindE (un_string j (cwHex s)) (\<lambda>x. Inr (s\<lparr>cwHex := x\<rparr>)))]"

definition ctip_fields :: "ctip_wire fields" where
  "ctip_fields =
    [(''txid'', un_struct hex_fields),
     (''vout'', \<lambda>j s. bindE (un_uint j (cwVout s)) (\<lambda>x. Inr (s\<lparr>cwVout := x\<rparr>))),
     (''value'', \<lambda>j s. bindE (un_string j (cwValue s)) (\<lambda>x. Inr (s\<lparr>cwValue := x\<rparr>)))]"

definition ctip_answer_fields :: "ctip_wire option fields" where
  "ctip_answer_fields = [(''ctip'', un_ptr (un_struct ctip_fields) \<lparr>cwHex = [], cwVout = 0, cwValue = []\<rparr>)]"

definition ctip_request :: "u32 \<Rightarrow> string" where
  "ctip_request slot = ''{'' @ quoted ''sidechainNumber'' @ '':'' @ format_uint (unat slot) @ ''}''"

text \<open>A slot without a treasury is \<open>None\<close>. An absent value is the zero that the encoding leaves out.\<close>

definition Ctip :: "parser \<Rightarrow> enforcer \<Rightarrow> u32 \<Rightarrow> ctip option res" where
  "Ctip parse e slot =
     bindE (post parse e ''GetCtip'' (ctip_request slot) (un_struct ctip_answer_fields) None) (\<lambda>resp.
       case resp of None \<Rightarrow> Inr None
       | Some c \<Rightarrow>
         (case parse_int (cwValue c) of
            Inr value \<Rightarrow> Inr (Some \<lparr>ctTxid = cwHex c, ctVout = cwVout c, ctValueSats = value\<rparr>)
          | Inl _ \<Rightarrow> if cwValue c \<noteq> [] then Inl ErrNotNumber
                     else Inr (Some \<lparr>ctTxid = cwHex c, ctVout = cwVout c, ctValueSats = 0\<rparr>)))"

subsection \<open>The height of a mainchain block\<close>

definition height_fields :: "u32 fields" where
  "height_fields = [(''height'', un_uint)]"

definition header_info_fields :: "u32 list fields" where
  "header_info_fields = [(''headerInfos'', \<lambda>j s. un_slice (\<lambda>j. un_struct height_fields j 0) j)]"

definition header_request :: "string \<Rightarrow> string" where
  "header_request hash = ''{'' @ quoted ''blockHash'' @ '':{'' @ quoted ''hex'' @ '':'' @ quoted hash @ ''}}''"

definition BlockHeight :: "parser \<Rightarrow> enforcer \<Rightarrow> string \<Rightarrow> u32 option res" where
  "BlockHeight parse e hash =
     bindE (post parse e ''GetBlockHeaderInfo'' (header_request hash) (un_struct header_info_fields) []) (\<lambda>infos.
       case infos of [] \<Rightarrow> Inr None | h # _ \<Rightarrow> Inr (Some h))"

subsection \<open>Reading what an enforcer writes\<close>

text \<open>
  The proto3 JSON form of the answers: a number of 32 bits is a JSON number, a 64-bit one is a string,
  and a field with its zero value is left out.
\<close>

definition opt_uint :: "string \<Rightarrow> u32 \<Rightarrow> (string \<times> json) list" where
  "opt_uint name n = (if n = 0 then [] else [(name, j_uint n)])"

definition opt_str :: "string \<Rightarrow> string \<Rightarrow> (string \<times> json) list" where
  "opt_str name s = (if s = [] then [] else [(name, JStr s)])"

definition write_slot :: "slot_wire \<Rightarrow> json" where
  "write_slot s = JObj (opt_uint ''sidechainNumber'' (swNumber s)
     @ (case swDeclaration s of None \<Rightarrow> []
        | Some None \<Rightarrow> [(''declaration'', JObj [])]
        | Some (Some d) \<Rightarrow> [(''declaration'', JObj [(''v0'', JObj (opt_str ''title'' (v0Title d) @ opt_str ''description'' (v0Description d)))])])
     @ opt_uint ''voteCount'' (swVoteCount s) @ opt_uint ''proposalHeight'' (swProposalHeight s)
     @ opt_uint ''activationHeight'' (swActivationHeight s))"

definition write_sidechains :: "slot_wire list \<Rightarrow> json" where
  "write_sidechains ss = (if ss = [] then JObj [] else JObj [(''sidechains'', JArr (map write_slot ss))])"

lemma un_write_slot: "un_struct slot_fields (write_slot s) zero_slot = Inr s"
proof (cases s)
  case (fields n d v p a)
  show ?thesis
    by (auto simp: fields write_slot_def zero_slot_def slot_fields_def opt_uint_def opt_str_def store_member_def find_field_def
        declaration_fields_def v0_fields_def un_ptr_def split: option.splits)
qed

lemma un_write_sidechains: "un_struct sidechains_fields (write_sidechains ss) [] = Inr ss"
proof -
  have "mapE (\<lambda>j. un_struct slot_fields j zero_slot) (map write_slot ss) = Inr ss"
    by (induction ss) (simp_all add: un_write_slot)
  then show ?thesis
    by (simp add: write_sidechains_def sidechains_fields_def store_member_def find_field_def)
qed


definition ex_slot :: "u32 \<Rightarrow> string \<Rightarrow> slot_wire" where
  "ex_slot n title = zero_slot\<lparr>swNumber := n, swDeclaration := Some (Some \<lparr>v0Title = title, v0Description = []\<rparr>), swVoteCount := 7\<rparr>"


end
