(* ===== verification/Web.thy ===== *)
theory Web
  imports Esplora Sync Enforcer
begin

text \<open>
  The frame of the request handlers of \<open>internal/api\<close>. A handler threads the state of the calls it
  makes and may end early with a response: \<open>if s.failed(w, r, err) { return }\<close> is a bind. Every call a
  handler makes reads the moment of its tick, and the tables it sees are those of that tick, so the sync
  loop may write between any two calls of one request. A handler never writes the tables.

  A request is its method, the segments of its path as the router decodes them, and its body. The text
  of the path is the segments joined again.
\<close>

record request =
  rqMethod :: string
  rqSegments :: "string list"
  rqBody :: "string \<times> bool"

definition rqPath :: "request \<Rightarrow> string" where
  "rqPath r = concat (map (\<lambda>seg. CHR ''/'' # seg) (rqSegments r))"

text \<open>
  The \<open>Server\<close>: the moments and the tables of its calls, and which of the optional parts it has. The
  functions of \<open>base58\<close> and the JSON parser are those of the libraries.
\<close>

record server =
  svEnv :: env
  svTables :: "nat \<Rightarrow> db"
  svUp :: bool
  svBroadcaster :: bool
  svWithdrawals :: bool
  svMainchain :: "(nat \<Rightarrow> enforcer) option"
  svParse :: parser
  svEnc58 :: "bytes \<Rightarrow> string"
  svDec58 :: "string \<Rightarrow> bytes option"

type_synonym 'a web = "syst \<Rightarrow> (response + 'a) \<times> syst"

definition retW :: "'a \<Rightarrow> 'a web" where
  "retW x s = (Inr x, s)"

definition answer :: "response \<Rightarrow> 'a web" where
  "answer r s = (Inl r, s)"

definition bindW :: "'a web \<Rightarrow> ('a \<Rightarrow> 'b web) \<Rightarrow> 'b web" where
  "bindW m f s = (case m s of (Inl r, t) \<Rightarrow> (Inl r, t) | (Inr x, t) \<Rightarrow> f x t)"

text \<open>A call that returns a value and an error, both handed to the code that follows it.\<close>

definition callW :: "(syst, 'a) act \<Rightarrow> 'a res web" where
  "callW m s = (case m s of (r, t) \<Rightarrow> (Inr r, t))"

text \<open>One read of the store.\<close>

definition query :: "server \<Rightarrow> (pg \<Rightarrow> db \<Rightarrow> 'a res) \<Rightarrow> 'a res web" where
  "query sv q s = (Inr (q (moPg (svEnv sv (syClock s))) (svTables sv (syClock s))), tick s)"

text \<open>What the client gets; a handler that writes nothing answers 200 with an empty body.\<close>

definition run_web :: "'a web \<Rightarrow> syst \<Rightarrow> response" where
  "run_web m s = (case m s of (Inl r, t) \<Rightarrow> r | (Inr x, t) \<Rightarrow> writeText [])"

subsection \<open>Errors\<close>

definition failed :: "'a res \<Rightarrow> 'a web" where
  "failed r = (case r of
     Inr x \<Rightarrow> retW x
   | Inl e \<Rightarrow> if e = ErrUnavailable then answer (writeError 503 (BText ''the index database is not reachable''))
              else answer (writeError 500 (BText ''the request failed'')))"

definition notFound :: "'a res \<Rightarrow> 'a web" where
  "notFound r = (if r = Inl ErrNotFound then answer (writeError 404 (BText ''not found'')) else failed r)"

text \<open>\<open>writeError(w, http.StatusBadRequest, err.Error())\<close>.\<close>

definition bad_request :: "'a res \<Rightarrow> 'a web" where
  "bad_request r = (case r of Inr x \<Rightarrow> retW x | Inl e \<Rightarrow> answer (writeError 400 (BError e)))"

definition store :: "server \<Rightarrow> unit web" where
  "store sv = bindW (callW (ask (svEnv sv) moGetStore)) (\<lambda>r.
     case r of Inr _ \<Rightarrow> retW ()
     | Inl _ \<Rightarrow> answer (writeError 503 (BText ''the index database is not reachable'')))"

definition parseUint32 :: "string \<Rightarrow> u32 res" where
  "parseUint32 raw = (case parse_uint 32 raw of Inl _ \<Rightarrow> Inl ErrNotNumber | Inr n \<Rightarrow> Inr (word_of_nat n))"

definition hashStrings :: "hash list \<Rightarrow> json" where
  "hashStrings hs = JArr (map (\<lambda>h. JStr (Hash_String h)) hs)"

text \<open>A loop that appends one value per element, with an early return.\<close>

fun mapW :: "('x \<Rightarrow> 'y web) \<Rightarrow> 'x list \<Rightarrow> 'y list web" where
  "mapW body [] = retW []"
| "mapW body (x # xs) = bindW (body x) (\<lambda>y. bindW (mapW body xs) (\<lambda>ys. retW (y # ys)))"

subsection \<open>Path values\<close>

text \<open>The named segments of the pattern that matched, empty for a name the pattern has not.\<close>

type_synonym path_values = "string \<Rightarrow> string"

subsection \<open>Laws\<close>

lemma bindW_retW [simp]: "bindW (retW x) f = f x"
  by (simp add: bindW_def retW_def fun_eq_iff)

lemma bindW_answer [simp]: "bindW (answer r) f = answer r"
  by (simp add: bindW_def answer_def fun_eq_iff)

lemma failed_simps [simp]:
  "failed (Inr x) = retW x"
  "failed (Inl e) = answer (if e = ErrUnavailable then writeError 503 (BText ''the index database is not reachable'')
     else writeError 500 (BText ''the request failed''))"
  by (simp_all add: failed_def)

lemma notFound_simps [simp]:
  "notFound (Inr x) = retW x" "notFound (Inl ErrNotFound) = answer (writeError 404 (BText ''not found''))"
  "e \<noteq> ErrNotFound \<Longrightarrow> notFound (Inl e) = failed (Inl e)"
  by (simp_all add: notFound_def)

lemma bad_request_simps [simp]:
  "bad_request (Inr x) = retW x" "bad_request (Inl e) = answer (writeError 400 (BError e))"
  by (simp_all add: bad_request_def)

lemma run_web_simps [simp]:
  "run_web (answer r) s = r" "run_web (retW x) s = writeText []"
  by (simp_all add: run_web_def answer_def retW_def)

text \<open>
  \<open>early R m\<close> says that a response \<open>m\<close> ends the request with is in \<open>R\<close>, and \<open>answers R m\<close> that it does end
  it with one, from every state.
\<close>

definition early :: "(response \<Rightarrow> bool) \<Rightarrow> 'a web \<Rightarrow> bool" where
  "early R m \<longleftrightarrow> (\<forall>s. case m s of (Inl r, t) \<Rightarrow> R r | (Inr x, t) \<Rightarrow> True)"

definition answers :: "(response \<Rightarrow> bool) \<Rightarrow> 'a web \<Rightarrow> bool" where
  "answers R m \<longleftrightarrow> (\<forall>s. case m s of (Inl r, t) \<Rightarrow> R r | (Inr x, t) \<Rightarrow> False)"

named_theorems web_rules \<open>which responses the pieces of a handler give\<close>

lemma answers_run:
  assumes "answers R m"
  shows "R (run_web m s)"
  using assms [unfolded answers_def, rule_format, of s]
  by (cases "m s"; cases "fst (m s)") (simp_all add: run_web_def)

lemma early_retW [web_rules]: "early R (retW x)"
  by (simp add: early_def retW_def)

lemma early_answer [web_rules]: "R r \<Longrightarrow> early R (answer r)"
  by (simp add: early_def answer_def)

lemma answers_answer [web_rules]: "R r \<Longrightarrow> answers R (answer r)"
  by (simp add: answers_def answer_def)

lemma bindW_cases:
  obtains (early) r t where "m s = (Inl r, t)" "bindW m f s = (Inl r, t)"
    | (on) x t where "m s = (Inr x, t)" "bindW m f s = f x t"
  by (cases "m s"; cases "fst (m s)") (auto simp: bindW_def)

lemma early_bindW [web_rules]:
  assumes "early R m" and "\<And>x. early R (f x)"
  shows "early R (bindW m f)"
  unfolding early_def
proof
  fix s show "case bindW m f s of (Inl r, t) \<Rightarrow> R r | (Inr x, t) \<Rightarrow> True"
    using assms(1) [unfolded early_def, rule_format, of s] assms(2) [unfolded early_def, rule_format]
    by (cases rule: bindW_cases [of m s f]) simp_all
qed

lemma answers_bindW [web_rules]:
  assumes "early R m" and "\<And>x. answers R (f x)"
  shows "answers R (bindW m f)"
  unfolding answers_def
proof
  fix s show "case bindW m f s of (Inl r, t) \<Rightarrow> R r | (Inr x, t) \<Rightarrow> False"
    using assms(1) [unfolded early_def, rule_format, of s] assms(2) [unfolded answers_def, rule_format]
    by (cases rule: bindW_cases [of m s f]) simp_all
qed

lemma early_callW [web_rules]: "early R (callW m)"
  by (simp add: early_def callW_def split: prod.splits)

lemma early_query [web_rules]: "early R (query sv q)"
  by (simp add: early_def query_def)

lemma early_mapW [web_rules]: "(\<And>x. early R (body x)) \<Longrightarrow> early R (mapW body xs)"
  by (induction xs) (auto intro!: web_rules)

lemma web_if [web_rules]:
  "(c \<Longrightarrow> early R m) \<Longrightarrow> (\<not> c \<Longrightarrow> early R n) \<Longrightarrow> early R (if c then m else n)"
  "(c \<Longrightarrow> answers R m) \<Longrightarrow> (\<not> c \<Longrightarrow> answers R n) \<Longrightarrow> answers R (if c then m else n)"
  by simp_all

text \<open>The statuses of the handlers.\<close>

definition known_status :: "response \<Rightarrow> bool" where
  "known_status r \<longleftrightarrow> rsStatus r \<in> {200, 400, 404, 500, 502, 503}"

lemma known_writes [web_rules, simp]:
  "known_status (writeJSON j)" "known_status (writeText s)" "known_status (writeError 400 m)"
  "known_status (writeError 404 m)" "known_status (writeError 500 m)" "known_status (writeError 502 m)"
  "known_status (writeError 503 m)"
  by (simp_all add: known_status_def)

lemma early_failed [web_rules]: "early known_status (failed r)"
  by (cases r) (auto intro: web_rules)

lemma early_notFound [web_rules]: "early known_status (notFound r)"
  by (auto simp: notFound_def intro: web_rules)

lemma early_bad_request [web_rules]: "early known_status (bad_request r)"
  by (cases r) (auto intro: web_rules)

lemma early_store [web_rules]: "early known_status (store sv)"
  unfolding store_def by (intro web_rules) (auto intro!: web_rules split: sum.split)

text \<open>When the store cannot be had.\<close>

definition store_down :: "server \<Rightarrow> bool" where
  "store_down sv \<longleftrightarrow> (\<forall>t. \<exists>e. moGetStore (svEnv sv t) = Inl e)"

lemma store_down_answer:
  assumes "store_down sv"
  shows "run_web (bindW (store sv) f) s = writeError 503 (BText ''the index database is not reachable'')"
proof -
  obtain e where "moGetStore (svEnv sv (syClock s)) = Inl e" using assms by (auto simp: store_down_def)
  then show ?thesis by (simp add: run_web_def bindW_def store_def callW_def ask_def answer_def)
qed

lemma bindW_assoc: "bindW (bindW m f) g = bindW m (\<lambda>x. bindW (f x) g)"
  by (simp add: bindW_def fun_eq_iff split: prod.split sum.split)

end
