(* ===== verification/Handlers.thy ===== *)
theory Handlers
  imports Web
begin

text \<open>
  The request handlers of \<open>internal/api/handlers.go\<close>, \<open>address.go\<close> and \<open>activity.go\<close>, one definition per
  method. \<open>pv\<close> gives the path values of the request.
\<close>

abbreviation PageSize :: nat where "PageSize \<equiv> 25"

abbreviation blockListSize :: int where "blockListSize \<equiv> 10"

abbreviation recentListSize :: int where "recentListSize \<equiv> 10"

abbreviation activityListSize :: int where "activityListSize \<equiv> 25"

abbreviation depositListSize :: int where "depositListSize \<equiv> 50"

abbreviation FeeRateSatPerVByte :: json where "FeeRateSatPerVByte \<equiv> JNum ''1''"

subsection \<open>Shared steps\<close>

definition startHeight :: "server \<Rightarrow> path_values \<Rightarrow> u32 res web" where
  "startHeight sv pv =
     (if pv ''start_height'' \<noteq> [] then retW (parseUint32 (pv ''start_height''))
      else bindW (query sv Tip) (\<lambda>tip. retW (bindE tip (\<lambda>t.
        case t of None \<Rightarrow> Inr 0 | Some (height, _) \<Rightarrow> Inr height))))"

definition blockByHash :: "server \<Rightarrow> path_values \<Rightarrow> block_info web" where
  "blockByHash sv pv =
     bindW (store sv) (\<lambda>_.
     bindW (bad_request (ParseHash (pv ''hash''))) (\<lambda>hash.
     bindW (query sv (\<lambda>pg. BlockByHash pg hash)) notFound))"

definition txid_of :: "server \<Rightarrow> path_values \<Rightarrow> hash web" where
  "txid_of sv pv = bindW (store sv) (\<lambda>_. bad_request (ParseHash (pv ''txid'')))"

definition txRow :: "server \<Rightarrow> hash \<Rightarrow> tx_detail res web" where
  "txRow sv txid =
     bindW (query sv (\<lambda>pg. Tx pg txid)) (\<lambda>row.
       if row = Inl ErrNotFound then query sv (\<lambda>pg. MempoolTxRow pg txid) else retW row)"

subsection \<open>Blocks\<close>

definition no_blocks :: response where
  "no_blocks = writeError 404 (BText ''the index holds no blocks yet'')"

definition tipHeight :: "server \<Rightarrow> unit web" where
  "tipHeight sv =
     bindW (store sv) (\<lambda>_.
     bindW (query sv Tip) (\<lambda>tip.
     bindW (failed tip) (\<lambda>have'.
       case have' of None \<Rightarrow> answer no_blocks
       | Some (height, _) \<Rightarrow> answer (writeText (format_uint (unat height))))))"

definition tipHash :: "server \<Rightarrow> unit web" where
  "tipHash sv =
     bindW (store sv) (\<lambda>_.
     bindW (query sv Tip) (\<lambda>tip.
     bindW (failed tip) (\<lambda>have'.
       case have' of None \<Rightarrow> answer no_blocks
       | Some (_, hash) \<Rightarrow> answer (writeText (Hash_String hash)))))"

definition blocks :: "server \<Rightarrow> path_values \<Rightarrow> unit web" where
  "blocks sv pv =
     bindW (store sv) (\<lambda>_.
     bindW (startHeight sv pv) (\<lambda>start.
     bindW (failed start) (\<lambda>start.
     bindW (query sv (\<lambda>pg. Blocks pg start blockListSize)) (\<lambda>rows.
     bindW (failed rows) (\<lambda>rows.
       answer (writeJSON (JArr (map (json_Block \<circ> newBlock) rows))))))))"

definition blockHeight :: "server \<Rightarrow> path_values \<Rightarrow> unit web" where
  "blockHeight sv pv =
     bindW (store sv) (\<lambda>_.
     bindW (bad_request (parseUint32 (pv ''height''))) (\<lambda>height.
     bindW (query sv (\<lambda>pg. BlockAtHeight pg height)) (\<lambda>row.
     bindW (notFound row) (\<lambda>row.
       answer (writeText (Hash_String (bwHash row)))))))"

definition block_route :: "server \<Rightarrow> path_values \<Rightarrow> unit web" where
  "block_route sv pv = bindW (blockByHash sv pv) (\<lambda>row. answer (writeJSON (json_Block (newBlock row))))"

definition blockHeader :: "server \<Rightarrow> path_values \<Rightarrow> unit web" where
  "blockHeader sv pv = bindW (blockByHash sv pv) (\<lambda>row. answer (writeJSON (json_Block (newBlock row))))"

text \<open>The height above the row wraps around at the top of the \<open>uint32\<close>.\<close>

definition blockStatus :: "server \<Rightarrow> path_values \<Rightarrow> unit web" where
  "blockStatus sv pv =
     bindW (blockByHash sv pv) (\<lambda>row.
     bindW (query sv (\<lambda>pg. BlockAtHeight pg (bwHeight row + 1))) (\<lambda>next.
     bindW (if next = Inl ErrNotFound then retW None
            else bindW (failed next) (\<lambda>b. retW (Some (Hash_String (bwHash b))))) (\<lambda>nextBest.
       answer (writeJSON (json_BlockStatus
         \<lparr>etInBestChain = True, etHeight = Some (bwHeight row), etNextBest = nextBest\<rparr>)))))"

definition block_txids :: "server \<Rightarrow> block_info \<Rightarrow> hash list web" where
  "block_txids sv row = bindW (query sv (\<lambda>pg. BlockTxids pg (bwHash row))) failed"

definition blockTxids :: "server \<Rightarrow> path_values \<Rightarrow> unit web" where
  "blockTxids sv pv =
     bindW (blockByHash sv pv) (\<lambda>row.
     bindW (block_txids sv row) (\<lambda>txids.
       answer (writeJSON (hashStrings txids))))"

text \<open>\<open>strconv.Atoi\<close> and the check that follows it.\<close>

definition whole_number :: "string \<Rightarrow> string \<Rightarrow> nat web" where
  "whole_number message raw =
     (case parse_int raw of
        Inr n \<Rightarrow> if n < 0 then answer (writeError 400 (BText message)) else retW (nat n)
      | Inl _ \<Rightarrow> answer (writeError 400 (BText message)))"

definition blockTxid :: "server \<Rightarrow> path_values \<Rightarrow> unit web" where
  "blockTxid sv pv =
     bindW (blockByHash sv pv) (\<lambda>row.
     bindW (whole_number ''index must be a whole number'' (pv ''index'')) (\<lambda>index.
     bindW (block_txids sv row) (\<lambda>txids.
       if length txids \<le> index then answer (writeError 404 (BText ''the block has no transaction at that index''))
       else answer (writeText (Hash_String (txids ! index))))))"

text \<open>
  \<open>start + PageSize\<close> is at most \<open>len(txids) + 25\<close> once \<open>start\<close> is cut to the length, so it does not
  overflow.
\<close>

definition blockTxs :: "server \<Rightarrow> path_values \<Rightarrow> unit web" where
  "blockTxs sv pv =
     bindW (blockByHash sv pv) (\<lambda>row.
     bindW (if pv ''start_index'' = [] then retW 0
            else whole_number ''start index must be a whole number'' (pv ''start_index'')) (\<lambda>start.
     bindW (block_txids sv row) (\<lambda>txids.
     let start = min start (length txids); end' = min (start + PageSize) (length txids) in
     bindW (mapW (\<lambda>txid. bindW (query sv (\<lambda>pg. Tx pg txid)) failed) (take (end' - start) (drop start txids))) (\<lambda>txs.
       answer (writeJSON (JArr (map (json_Tx \<circ> newTx (svEnc58 sv)) txs)))))))"

subsection \<open>Transactions\<close>

definition tx :: "server \<Rightarrow> path_values \<Rightarrow> unit web" where
  "tx sv pv =
     bindW (txid_of sv pv) (\<lambda>txid.
     bindW (txRow sv txid) (\<lambda>row.
     bindW (notFound row) (\<lambda>row.
       answer (writeJSON (json_Tx (newTx (svEnc58 sv) row))))))"

definition txStatus_route :: "server \<Rightarrow> path_values \<Rightarrow> unit web" where
  "txStatus_route sv pv =
     bindW (txid_of sv pv) (\<lambda>txid.
     bindW (txRow sv txid) (\<lambda>row.
     bindW (notFound row) (\<lambda>row.
       answer (writeJSON (json_Status (txStatus row))))))"

definition txHex :: "server \<Rightarrow> path_values \<Rightarrow> unit web" where
  "txHex sv pv =
     bindW (txid_of sv pv) (\<lambda>txid.
     bindW (txRow sv txid) (\<lambda>row.
     bindW (notFound row) (\<lambda>row.
       answer (writeText (hex_encode (twRaw row))))))"

text \<open>What took a coin: a transaction, a withdrawal bundle, or market code, which names nothing.\<close>

definition spender :: "coin \<Rightarrow> hash \<Rightarrow> es_outspend" where
  "spender coin source =
     (let out = \<lparr>eoSpent = True, eoTxid = None, eoVin = None, eoStatus = None, eoSpentBy = ''transaction''\<rparr> in
      if ccSpentKind coin = Some SpendWithdrawal
      then out\<lparr>eoSpentBy := ''withdrawal_bundle'', eoTxid := Some (BitcoinHash_String source)\<rparr>
      else if ccSpentKind coin = Some SpendMarket then out\<lparr>eoSpentBy := ''market''\<rparr>
      else out\<lparr>eoTxid := Some (Hash_String source)\<rparr>)"

definition newOutspend :: "server \<Rightarrow> coin \<Rightarrow> es_outspend res web" where
  "newOutspend sv coin =
     (case ccSpentSource coin of
        None \<Rightarrow> retW (Inr \<lparr>eoSpent = False, eoTxid = None, eoVin = None, eoStatus = None, eoSpentBy = []\<rparr>)
      | Some source \<Rightarrow>
        (case ccSpentHeight coin of
           None \<Rightarrow> retW (Inr (spender coin source))
         | Some height \<Rightarrow>
           bindW (query sv (\<lambda>pg. BlockAtHeight pg height)) (\<lambda>block.
             retW (case block of
               Inr b \<Rightarrow> Inr ((spender coin source)\<lparr>eoStatus := Some (newStatus (bwHeight b) (bwHash b) (bwBlockTime b))\<rparr>)
             | Inl ErrNotFound \<Rightarrow> Inr (spender coin source)
             | Inl e \<Rightarrow> Inl e))))"

definition outspends :: "server \<Rightarrow> path_values \<Rightarrow> unit web" where
  "outspends sv pv =
     bindW (txid_of sv pv) (\<lambda>txid.
     bindW (query sv (\<lambda>pg. Outspends pg txid)) (\<lambda>coins.
     bindW (failed coins) (\<lambda>coins.
     bindW (mapW (\<lambda>coin. bindW (newOutspend sv coin) failed) coins) (\<lambda>out.
       answer (writeJSON (JArr (map json_Outspend out)))))))"

definition outspend :: "server \<Rightarrow> path_values \<Rightarrow> unit web" where
  "outspend sv pv =
     bindW (txid_of sv pv) (\<lambda>txid.
     bindW (bad_request (parseUint32 (pv ''vout''))) (\<lambda>vout.
     bindW (query sv (\<lambda>pg. Outspends pg txid)) (\<lambda>coins.
     bindW (failed coins) (\<lambda>coins.
       case find (\<lambda>coin. opVout (ccOutPoint coin) = vout) coins of
         None \<Rightarrow> answer (writeError 404 (BText ''the transaction has no output at that index''))
       | Some coin \<Rightarrow> bindW (newOutspend sv coin) (\<lambda>spend.
           bindW (failed spend) (\<lambda>spend. answer (writeJSON (json_Outspend spend))))))))"

definition broadcast :: "server \<Rightarrow> request \<Rightarrow> unit web" where
  "broadcast sv r =
     (if \<not> svBroadcaster sv then answer (writeError 503 (BText ''no node connection for a broadcast''))
      else bindW (bad_request (readTransactionBody (svParse sv) (rqBody r))) (\<lambda>raw.
        bindW (callW (Broadcast (svEnv sv) raw)) (\<lambda>txid.
        bindW (bad_request txid) (\<lambda>txid.
          answer (writeText (Hash_String txid))))))"

text \<open>A map is written with its keys in the order of their texts.\<close>

definition feeEstimates :: "unit web" where
  "feeEstimates =
     (let targets = map (\<lambda>n. format_uint n) [1..<26] in
      answer (writeJSON (JObj (map (\<lambda>t. (t, FeeRateSatPerVByte)) (sort_key (map (of_char :: char \<Rightarrow> nat)) targets)))))"

subsection \<open>The mempool and the state of the server\<close>

definition mempool :: "server \<Rightarrow> unit web" where
  "mempool sv =
     bindW (store sv) (\<lambda>_.
     bindW (query sv MempoolSummary) (\<lambda>summary.
     bindW (failed summary) (\<lambda>(count, vsize, fees).
       answer (writeJSON (JObj [(''count'', j_int count), (''fee_histogram'', JArr []), (''total_fee'', j_int fees),
         (''vsize'', j_int vsize)])))))"

definition mempoolTxids :: "server \<Rightarrow> unit web" where
  "mempoolTxids sv =
     bindW (store sv) (\<lambda>_.
     bindW (query sv MempoolTxids) (\<lambda>txids.
     bindW (failed txids) (\<lambda>txids.
       answer (writeJSON (hashStrings txids)))))"

definition mempoolRecent :: "server \<Rightarrow> unit web" where
  "mempoolRecent sv =
     bindW (store sv) (\<lambda>_.
     bindW (query sv (\<lambda>pg. MempoolRecent pg recentListSize)) (\<lambda>rows.
     bindW (failed rows) (\<lambda>rows.
       answer (writeJSON (JArr (map (\<lambda>row. json_RecentTx
         \<lparr>rtTxid = Hash_String (meTxid row), rtFee = meFeeSats row, rtVsize = meSizeBytes row, rtValue = meValueSats row\<rparr>) rows))))))"

definition health :: "server \<Rightarrow> unit web" where
  "health sv = answer \<lparr>rsStatus = (if svUp sv then 200 else 503), rsType = ''application/json'',
     rsBody = BJson (JObj [(''database'', JBool (svUp sv))])\<rparr>"

end
