(* ===== verification/Routes.thy ===== *)
theory Routes
  imports Handlers
begin

text \<open>
  The handlers of \<open>internal/api/address.go\<close>, of \<open>internal/api/activity.go\<close> and of the drivechain routes
  of \<open>handlers.go\<close>, and the router of \<open>internal/api/server.go\<close>.
\<close>

subsection \<open>Addresses\<close>

abbreviation scripthash_prefix :: string where "scripthash_prefix \<equiv> ''/scripthash/''"

definition isScriptHashRoute :: "request \<Rightarrow> bool" where
  "isScriptHashRoute r \<longleftrightarrow> length scripthash_prefix \<le> length (rqPath r) \<and> take (length scripthash_prefix) (rqPath r) = scripthash_prefix"

definition addressKey :: "server \<Rightarrow> request \<Rightarrow> path_values \<Rightarrow> (string \<times> bytes) web" where
  "addressKey sv r pv =
     bindW (store sv) (\<lambda>_.
       if isScriptHashRoute r
       then (case hex_decode (pv ''key'') of
               Inr key \<Rightarrow> if length key \<noteq> 32 then answer (writeError 400 (BText ''a scripthash is 32 hex bytes''))
                          else retW (ColumnScriptHash, key)
             | Inl _ \<Rightarrow> answer (writeError 400 (BText ''a scripthash is 32 hex bytes'')))
       else bindW (bad_request (ParseAddress (svDec58 sv) (pv ''key''))) (\<lambda>address. retW (ColumnAddress, address)))"

definition addressInfo :: "server \<Rightarrow> request \<Rightarrow> path_values \<Rightarrow> unit web" where
  "addressInfo sv r pv =
     bindW (addressKey sv r pv) (\<lambda>(column, key).
     bindW (query sv (\<lambda>pg. Stats pg column key)) (\<lambda>stats.
     bindW (failed stats) (\<lambda>stats.
     bindW (query sv (\<lambda>pg. MempoolStats pg column key)) (\<lambda>pending.
     bindW (failed pending) (\<lambda>pending.
     let out = \<lparr>aiAddress = [], aiScriptHash = [], aiChainStats = newTxoStats stats, aiMempoolStats = newTxoStats pending\<rparr> in
       answer (writeJSON (json_AddressInfo
         (if column = ColumnScriptHash then out\<lparr>aiScriptHash := pv ''key''\<rparr> else out\<lparr>aiAddress := pv ''key''\<rparr>))))))))"

definition addressUTXOs :: "server \<Rightarrow> request \<Rightarrow> path_values \<Rightarrow> unit web" where
  "addressUTXOs sv r pv =
     bindW (addressKey sv r pv) (\<lambda>(column, key).
     bindW (query sv (\<lambda>pg. UTXOs pg column key)) (\<lambda>rows.
     bindW (failed rows) (\<lambda>rows.
     bindW (query sv MempoolSpentOutpoints) (\<lambda>spent.
     bindW (failed spent) (\<lambda>spent.
     bindW (query sv (\<lambda>pg. MempoolUTXOs pg column key)) (\<lambda>pending.
     bindW (failed pending) (\<lambda>pending.
       answer (writeJSON (JArr (map (json_UTXO \<circ> newUTXO)
         (filter (\<lambda>row. \<not> spent (Key (utOutPoint row))) rows @ pending)))))))))))"

text \<open>A transaction that has left the mempool is skipped.\<close>

fun mempoolTxs :: "server \<Rightarrow> hash list \<Rightarrow> es_tx list res web" where
  "mempoolTxs sv [] = retW (Inr [])"
| "mempoolTxs sv (txid # txids) =
     bindW (query sv (\<lambda>pg. MempoolTxRow pg txid)) (\<lambda>row.
       case row of
         Inr row \<Rightarrow> bindW (mempoolTxs sv txids) (\<lambda>rest. retW (bindE rest (\<lambda>txs. Inr (newTx (svEnc58 sv) row # txs))))
       | Inl e \<Rightarrow> if e = ErrNotFound then mempoolTxs sv txids else retW (Inl e))"

definition addressMempoolTxs :: "server \<Rightarrow> request \<Rightarrow> path_values \<Rightarrow> unit web" where
  "addressMempoolTxs sv r pv =
     bindW (addressKey sv r pv) (\<lambda>(column, key).
     bindW (query sv (\<lambda>pg. MempoolTxidsFor pg column key)) (\<lambda>txids.
     bindW (failed txids) (\<lambda>txids.
     bindW (mempoolTxs sv txids) (\<lambda>out.
     bindW (failed out) (\<lambda>out.
       answer (writeJSON (JArr (map json_Tx out))))))))"

text \<open>The mined rows of a page; a row that is no transaction is skipped.\<close>

fun history_txs :: "server \<Rightarrow> tx_ref list \<Rightarrow> es_tx list web" where
  "history_txs sv [] = retW []"
| "history_txs sv (ref # refs) =
     bindW (query sv (\<lambda>pg. Tx pg (rfTxid ref))) (\<lambda>row.
       if row = Inl ErrNotFound then history_txs sv refs
       else bindW (failed row) (\<lambda>row.
            bindW (history_txs sv refs) (\<lambda>txs. retW (newTx (svEnc58 sv) row # txs))))"

text \<open>The height below which a page starts: the tip, or one below the transaction the client names.\<close>

definition page_start :: "server \<Rightarrow> path_values \<Rightarrow> u32 web" where
  "page_start sv pv =
     bindW (startHeight sv pv) (\<lambda>before.
     bindW (failed before) (\<lambda>before.
       if pv ''last_seen'' = [] then retW before
       else bindW (bad_request (ParseHash (pv ''last_seen''))) (\<lambda>txid.
            bindW (query sv (\<lambda>pg. Tx pg txid)) (\<lambda>row.
            bindW (notFound row) (\<lambda>row.
              if twHeight row = 0 then answer (writeJSON (JArr [])) else retW (twHeight row - 1))))))"

definition addressTxs :: "server \<Rightarrow> request \<Rightarrow> path_values \<Rightarrow> unit web" where
  "addressTxs sv r pv =
     bindW (addressKey sv r pv) (\<lambda>(column, key).
     bindW (page_start sv pv) (\<lambda>before.
     bindW (query sv (\<lambda>pg. History pg column key before (int PageSize))) (\<lambda>refs.
     bindW (failed refs) (\<lambda>refs.
     bindW (if pv ''last_seen'' \<noteq> [] then retW []
            else bindW (query sv (\<lambda>pg. MempoolTxidsFor pg column key)) (\<lambda>txids.
                 bindW (failed txids) (\<lambda>txids.
                 bindW (mempoolTxs sv txids) failed))) (\<lambda>out.
     bindW (history_txs sv refs) (\<lambda>mined.
       answer (writeJSON (JArr (map json_Tx (out @ mined))))))))))"

definition addressDeposits :: "server \<Rightarrow> path_values \<Rightarrow> unit web" where
  "addressDeposits sv pv =
     bindW (store sv) (\<lambda>_.
     bindW (bad_request (ParseAddress (svDec58 sv) (pv ''key''))) (\<lambda>address.
     bindW (query sv (\<lambda>pg. AddressDeposits pg address depositListSize)) (\<lambda>rows.
     bindW (failed rows) (\<lambda>rows.
       answer (writeJSON (JArr (map json_UTXO (toUTXOs rows))))))))"

text \<open>The path value is put between quotes and read as a JSON string.\<close>

definition deposit_route :: "server \<Rightarrow> path_values \<Rightarrow> unit web" where
  "deposit_route sv pv =
     bindW (store sv) (\<lambda>_.
     bindW (bad_request (bindE (quoted_json (pv ''txid'')) BitcoinHash_UnmarshalJSON)) (\<lambda>mainTxid.
     bindW (query sv (\<lambda>pg. Deposits pg mainTxid (-1) depositListSize)) (\<lambda>rows.
     bindW (failed rows) (\<lambda>rows.
       if rows = [] then answer (writeError 404 (BText ''no deposit from that transaction''))
       else answer (writeJSON (JArr (map json_UTXO (toUTXOs rows))))))))"

definition deposits :: "server \<Rightarrow> path_values \<Rightarrow> unit web" where
  "deposits sv pv =
     bindW (store sv) (\<lambda>_.
     bindW (startHeight sv pv) (\<lambda>start.
     bindW (failed start) (\<lambda>start.
     bindW (query sv (\<lambda>pg. Deposits pg [] start depositListSize)) (\<lambda>rows.
     bindW (failed rows) (\<lambda>rows.
       answer (writeJSON (JArr (map json_UTXO (toUTXOs rows)))))))))"

subsection \<open>The feed\<close>

definition recentActivity :: "server \<Rightarrow> unit web" where
  "recentActivity sv =
     bindW (store sv) (\<lambda>_.
     bindW (query sv (\<lambda>pg. MempoolRecent pg activityListSize)) (\<lambda>pending.
     bindW (failed pending) (\<lambda>pending.
     let out = map (\<lambda>row. \<lparr>eaKind = ''transfer'', eaID = Hash_String (meTxid row), eaValue = meValueSats row,
          eaFee = meFeeSats row, eaSize = meSizeBytes row, eaStatus = pendingStatus\<rparr>) pending in
     bindW (query sv (\<lambda>pg. Activity pg (activityListSize - int (length out)))) (\<lambda>confirmed.
     bindW (failed confirmed) (\<lambda>confirmed.
       answer (writeJSON (JArr (map json_Activity (out @ map newActivity confirmed)))))))))"

definition blockActivity :: "server \<Rightarrow> path_values \<Rightarrow> unit web" where
  "blockActivity sv pv =
     bindW (blockByHash sv pv) (\<lambda>row.
     bindW (query sv (\<lambda>pg. ActivityInBlock pg (bwHash row))) (\<lambda>rows.
     bindW (failed rows) (\<lambda>rows.
       answer (writeJSON (JArr (map (json_Activity \<circ> newActivity) rows))))))"

subsection \<open>The mainchain\<close>

definition bad_gateway :: "'a res \<Rightarrow> 'a web" where
  "bad_gateway r = (case r of Inr x \<Rightarrow> retW x | Inl e \<Rightarrow> answer (writeError 502 (BError e)))"

definition drivechainWithdrawals :: "server \<Rightarrow> unit web" where
  "drivechainWithdrawals sv =
     (if \<not> svWithdrawals sv then answer (writeError 503 (BText ''this index reads no node''))
      else bindW (callW (Pending (svEnv sv))) (\<lambda>bundle.
        bindW (bad_gateway bundle) (\<lambda>bundle.
        bindW (callW (LastFailedHeight (svEnv sv))) (\<lambda>height.
        bindW (bad_gateway height) (\<lambda>height.
          answer (writeJSON (json_WithdrawalState \<lparr>wsBundle = bundle, wsLastFailedHeight = height\<rparr>)))))))"

text \<open>One call of the enforcer, at the current tick.\<close>

definition ask_enforcer :: "(nat \<Rightarrow> enforcer) \<Rightarrow> (enforcer \<Rightarrow> 'a res) \<Rightarrow> 'a res web" where
  "ask_enforcer mc f s = (Inr (f (mc (syClock s))), tick s)"

definition sidechainInfo :: "server \<Rightarrow> (nat \<Rightarrow> enforcer) \<Rightarrow> sidechain \<Rightarrow> sidechain_info web" where
  "sidechainInfo sv mc c =
     (let info = \<lparr>siSlot = scSlot c, siTitle = scTitle c, siDescription = scDescription c, siVoteCount = scVoteCount c,
          siProposalHeight = scProposalHeight c, siActivationHeight = scActivationHeight c, siTreasury = None\<rparr> in
      bindW (ask_enforcer mc (\<lambda>e. Ctip (svParse sv) e (scSlot c))) (\<lambda>ctip.
        retW (case ctip of
            Inr (Some t) \<Rightarrow> info\<lparr>siTreasury := Some \<lparr>tyTxid = ctTxid t, tyVout = ctVout t, tyValueSats = ctValueSats t\<rparr>\<rparr>
          | _ \<Rightarrow> info)))"

definition no_mainchain :: response where
  "no_mainchain = writeError 503 (BText ''this index reads no mainchain'')"

definition drivechainSidechains :: "server \<Rightarrow> unit web" where
  "drivechainSidechains sv =
     (case svMainchain sv of None \<Rightarrow> answer no_mainchain
      | Some mc \<Rightarrow>
        bindW (ask_enforcer mc (Sidechains (svParse sv))) (\<lambda>chains.
        bindW (bad_gateway chains) (\<lambda>chains.
        bindW (mapW (sidechainInfo sv mc) chains) (\<lambda>out.
          answer (writeJSON (JArr (map json_SidechainInfo out)))))))"

definition drivechainSidechain :: "server \<Rightarrow> path_values \<Rightarrow> unit web" where
  "drivechainSidechain sv pv =
     (case svMainchain sv of None \<Rightarrow> answer no_mainchain
      | Some mc \<Rightarrow>
        bindW (case parse_uint 8 (pv ''slot'') of
            Inr slot \<Rightarrow> retW slot
          | Inl _ \<Rightarrow> answer (writeError 400 (BText ''the slot must be a number from 0 to 255''))) (\<lambda>slot.
        bindW (ask_enforcer mc (Sidechains (svParse sv))) (\<lambda>chains.
        bindW (bad_gateway chains) (\<lambda>chains.
          case find (\<lambda>c. scSlot c = word_of_nat slot) chains of
            None \<Rightarrow> answer (writeError 404 (BText ''no sidechain holds that slot''))
          | Some c \<Rightarrow> bindW (sidechainInfo sv mc c) (\<lambda>info. answer (writeJSON (json_SidechainInfo info)))))))"

end
