(* ===== verification/Router.thy ===== *)
theory Router
  imports Routes
begin

text \<open>
  The router of \<open>internal/api/server.go\<close>: the patterns as the code writes them, each with its handler,
  and what \<open>http.ServeMux\<close> does with a request. A pattern is cut at its slashes; a segment in braces
  takes any nonempty segment. A \<open>GET\<close> pattern also takes \<open>HEAD\<close>. The redirect of a path that is not
  clean happens before, so it is not part of the model.
\<close>

subsection \<open>Patterns\<close>

datatype seg = Lit string | Wild string

text \<open>The segments of a text that starts with a slash.\<close>

fun cut_segments :: "string \<Rightarrow> string list" where
  "cut_segments [] = []"
| "cut_segments (c # cs) = (if c = CHR ''/'' then [] # cut_segments cs
     else (case cut_segments cs of [] \<Rightarrow> [[c]] | w # ws \<Rightarrow> (c # w) # ws))"

definition parse_seg :: "string \<Rightarrow> seg" where
  "parse_seg w = (if w \<noteq> [] \<and> hd w = CHR ''{'' then Wild (butlast (tl w)) else Lit w)"

text \<open>The first segment of a pattern is what stands before its first slash, which is nothing.\<close>

definition parse_pattern :: "string \<Rightarrow> seg list" where
  "parse_pattern p = map parse_seg (cut_segments p)"

fun match_segs :: "seg list \<Rightarrow> string list \<Rightarrow> (string \<times> string) list option" where
  "match_segs [] [] = Some []"
| "match_segs (Lit l # ps) (w # ws) = (if l = w then match_segs ps ws else None)"
| "match_segs (Wild n # ps) (w # ws) = (if w = [] then None else map_option (Cons (n, w)) (match_segs ps ws))"
| "match_segs _ _ = None"

definition path_value :: "(string \<times> string) list \<Rightarrow> path_values" where
  "path_value bs name = (case map_of bs name of Some v \<Rightarrow> v | None \<Rightarrow> [])"

subsection \<open>The table\<close>

type_synonym handler = "server \<Rightarrow> request \<Rightarrow> path_values \<Rightarrow> unit web"

definition key_routes :: "string \<Rightarrow> (string \<times> string \<times> handler) list" where
  "key_routes prefix =
    [(''GET'', ''/'' @ prefix @ ''/{key}'', addressInfo),
     (''GET'', ''/'' @ prefix @ ''/{key}/utxo'', addressUTXOs),
     (''GET'', ''/'' @ prefix @ ''/{key}/txs'', addressTxs),
     (''GET'', ''/'' @ prefix @ ''/{key}/txs/chain'', addressTxs),
     (''GET'', ''/'' @ prefix @ ''/{key}/txs/chain/{last_seen}'', addressTxs),
     (''GET'', ''/'' @ prefix @ ''/{key}/txs/mempool'', addressMempoolTxs)]"

definition routes :: "(string \<times> string \<times> handler) list" where
  "routes =
    [(''GET'', ''/blocks/tip/height'', \<lambda>sv r pv. tipHeight sv),
     (''GET'', ''/blocks/tip/hash'', \<lambda>sv r pv. tipHash sv),
     (''GET'', ''/blocks'', \<lambda>sv r. blocks sv),
     (''GET'', ''/blocks/{start_height}'', \<lambda>sv r. blocks sv),
     (''GET'', ''/block-height/{height}'', \<lambda>sv r. blockHeight sv),
     (''GET'', ''/block/{hash}'', \<lambda>sv r. block_route sv),
     (''GET'', ''/block/{hash}/header'', \<lambda>sv r. blockHeader sv),
     (''GET'', ''/block/{hash}/status'', \<lambda>sv r. blockStatus sv),
     (''GET'', ''/block/{hash}/txids'', \<lambda>sv r. blockTxids sv),
     (''GET'', ''/block/{hash}/txid/{index}'', \<lambda>sv r. blockTxid sv),
     (''GET'', ''/block/{hash}/txs'', \<lambda>sv r. blockTxs sv),
     (''GET'', ''/block/{hash}/txs/{start_index}'', \<lambda>sv r. blockTxs sv),
     (''GET'', ''/tx/{txid}'', \<lambda>sv r. tx sv),
     (''GET'', ''/tx/{txid}/status'', \<lambda>sv r. txStatus_route sv),
     (''GET'', ''/tx/{txid}/hex'', \<lambda>sv r. txHex sv),
     (''GET'', ''/tx/{txid}/raw'', \<lambda>sv r. txHex sv),
     (''GET'', ''/tx/{txid}/outspends'', \<lambda>sv r. outspends sv),
     (''GET'', ''/tx/{txid}/outspend/{vout}'', \<lambda>sv r. outspend sv),
     (''POST'', ''/tx'', \<lambda>sv r pv. broadcast sv r)]
    @ key_routes ''address'' @ key_routes ''scripthash'' @
    [(''GET'', ''/address/{key}/deposits'', \<lambda>sv r. addressDeposits sv),
     (''GET'', ''/deposit/{txid}'', \<lambda>sv r. deposit_route sv),
     (''GET'', ''/deposits'', \<lambda>sv r. deposits sv),
     (''GET'', ''/deposits/{start_height}'', \<lambda>sv r. deposits sv),
     (''GET'', ''/txs/recent'', \<lambda>sv r pv. recentActivity sv),
     (''GET'', ''/block/{hash}/activity'', \<lambda>sv r. blockActivity sv),
     (''GET'', ''/mempool'', \<lambda>sv r pv. mempool sv),
     (''GET'', ''/mempool/txids'', \<lambda>sv r pv. mempoolTxids sv),
     (''GET'', ''/mempool/recent'', \<lambda>sv r pv. mempoolRecent sv),
     (''GET'', ''/fee-estimates'', \<lambda>sv r pv. feeEstimates),
     (''GET'', ''/drivechain/withdrawals'', \<lambda>sv r pv. drivechainWithdrawals sv),
     (''GET'', ''/drivechain/sidechains'', \<lambda>sv r pv. drivechainSidechains sv),
     (''GET'', ''/drivechain/sidechain/{slot}'', \<lambda>sv r. drivechainSidechain sv),
     (''GET'', ''/health'', \<lambda>sv r pv. health sv)]"

subsection \<open>Routing\<close>

definition takes_method :: "string \<Rightarrow> string \<Rightarrow> bool" where
  "takes_method m have' \<longleftrightarrow> have' = m \<or> m = ''GET'' \<and> have' = ''HEAD''"

definition path_match :: "string \<Rightarrow> request \<Rightarrow> (string \<times> string) list option" where
  "path_match p r = match_segs (parse_pattern p) ([] # rqSegments r)"

definition not_found :: response where
  "not_found = \<lparr>rsStatus = 404, rsType = ''text/plain; charset=utf-8'', rsBody = BText (''404 page not found'' @ [CHR 0x0A])\<rparr>"

definition wrong_method :: response where
  "wrong_method = \<lparr>rsStatus = 405, rsType = ''text/plain; charset=utf-8'', rsBody = BText (''Method Not Allowed'' @ [CHR 0x0A])\<rparr>"

definition Handler :: "server \<Rightarrow> request \<Rightarrow> syst \<Rightarrow> response" where
  "Handler sv r s =
     (case find (\<lambda>(m, p, h). takes_method m (rqMethod r) \<and> path_match p r \<noteq> None) routes of
        Some (m, p, h) \<Rightarrow> run_web (h sv r (path_value (the (path_match p r)))) s
      | None \<Rightarrow> if \<exists>(m, p, h) \<in> set routes. path_match p r \<noteq> None then wrong_method else not_found)"

subsection \<open>No two patterns meet\<close>

fun overlap :: "seg list \<Rightarrow> seg list \<Rightarrow> bool" where
  "overlap [] [] = True"
| "overlap (Lit a # ps) (Lit b # qs) \<longleftrightarrow> a = b \<and> overlap ps qs"
| "overlap (p # ps) (q # qs) \<longleftrightarrow> overlap ps qs"
| "overlap _ _ = False"

lemma match_overlap: "match_segs ps ws \<noteq> None \<Longrightarrow> match_segs qs ws \<noteq> None \<Longrightarrow> overlap ps qs"
proof (induction ps ws arbitrary: qs rule: match_segs.induct)
  case 1
  then show ?case by (cases qs rule: list.exhaust) (auto split: if_splits)
next
  case (2 l ps w ws)
  then show ?case by (cases qs; cases "hd qs") (auto split: if_splits)
next
  case (3 n ps w ws)
  then show ?case by (cases qs; cases "hd qs") (auto split: if_splits)
qed (auto)

text \<open>The patterns of the table, without their handlers, so that they can be computed with.\<close>

definition patterns :: "(string \<times> seg list) list" where
  "patterns = map (\<lambda>(m, p, h). (m, parse_pattern p)) routes"

fun apart :: "(string \<times> seg list) list \<Rightarrow> bool" where
  "apart [] = True"
| "apart ((m, p) # rest) \<longleftrightarrow> list_all (\<lambda>(m', q). \<not> (m = m' \<and> overlap p q)) rest \<and> apart rest"

lemma apart_iff: "apart xs \<longleftrightarrow> sorted_wrt (\<lambda>(m, p) (m', q). \<not> (m = m' \<and> overlap p q)) xs"
  by (induction xs) (auto simp: list_all_iff)

lemma patterns_apart: "apart patterns"
  by (simp add: patterns_def routes_def key_routes_def parse_pattern_def parse_seg_def)

subsection \<open>Every handler answers\<close>

lemma early_startHeight [web_rules]: "early known_status (startHeight sv pv)"
  unfolding startHeight_def by (intro web_rules)

lemma early_blockByHash [web_rules]: "early known_status (blockByHash sv pv)"
  unfolding blockByHash_def by (intro web_rules)

lemma early_txid_of [web_rules]: "early known_status (txid_of sv pv)"
  unfolding txid_of_def by (intro web_rules)

lemma early_txRow [web_rules]: "early known_status (txRow sv t)"
  unfolding txRow_def by (intro web_rules)

lemma early_block_txids [web_rules]: "early known_status (block_txids sv row)"
  unfolding block_txids_def by (intro web_rules)

lemma early_whole_number [web_rules]: "early known_status (whole_number message raw)"
  unfolding whole_number_def by (auto intro!: web_rules split: sum.split)

lemma early_newOutspend [web_rules]: "early known_status (newOutspend sv coin)"
  unfolding newOutspend_def by (auto intro!: web_rules split: option.split)

lemma early_addressKey [web_rules]: "early known_status (addressKey sv r pv)"
  unfolding addressKey_def by (auto intro!: web_rules split: sum.split)

lemma early_mempoolTxs [web_rules]: "early known_status (mempoolTxs sv txids)"
  by (induction txids) (auto intro!: web_rules split: sum.split)

lemma early_history_txs [web_rules]: "early known_status (history_txs sv refs)"
  by (induction refs) (auto intro!: web_rules)

lemma early_page_start [web_rules]: "early known_status (page_start sv pv)"
  unfolding page_start_def by (intro web_rules)

lemma early_bad_gateway [web_rules]: "early known_status (bad_gateway r)"
  unfolding bad_gateway_def by (auto intro!: web_rules split: sum.split)

lemma early_ask_enforcer [web_rules]: "early known_status (ask_enforcer mc f)"
  by (simp add: early_def ask_enforcer_def)

lemma early_sidechainInfo [web_rules]: "early known_status (sidechainInfo sv mc c)"
  unfolding sidechainInfo_def Let_def by (intro web_rules)

lemma known_fixed [web_rules, simp]: "known_status no_blocks" "known_status no_mainchain"
  by (simp_all add: no_blocks_def no_mainchain_def)

lemma block_handlers_answer [web_rules]:
  "answers known_status (tipHeight sv)" "answers known_status (tipHash sv)" "answers known_status (blocks sv pv)"
  "answers known_status (blockHeight sv pv)" "answers known_status (block_route sv pv)" "answers known_status (blockHeader sv pv)"
  "answers known_status (blockStatus sv pv)" "answers known_status (blockTxids sv pv)" "answers known_status (blockTxid sv pv)"
  "answers known_status (blockTxs sv pv)"
  unfolding tipHeight_def tipHash_def blocks_def blockHeight_def block_route_def blockHeader_def blockStatus_def
    blockTxids_def blockTxid_def blockTxs_def Let_def
  by (auto intro!: web_rules split: option.split)

lemma tx_handlers_answer [web_rules]:
  "answers known_status (tx sv pv)" "answers known_status (txStatus_route sv pv)" "answers known_status (txHex sv pv)"
  "answers known_status (outspends sv pv)" "answers known_status (outspend sv pv)" "answers known_status (broadcast sv r)"
  unfolding tx_def txStatus_route_def txHex_def outspends_def outspend_def broadcast_def
  by (auto intro!: web_rules split: option.split)

lemma mempool_handlers_answer [web_rules]:
  "answers known_status feeEstimates" "answers known_status (mempool sv)" "answers known_status (mempoolTxids sv)"
  "answers known_status (mempoolRecent sv)" "answers known_status (health sv)" "answers known_status (recentActivity sv)"
  "answers known_status (blockActivity sv pv)"
  unfolding feeEstimates_def mempool_def mempoolTxids_def mempoolRecent_def health_def recentActivity_def blockActivity_def Let_def
  by (auto intro!: web_rules simp: known_status_def)

lemma address_handlers_answer [web_rules]:
  "answers known_status (addressInfo sv r pv)" "answers known_status (addressUTXOs sv r pv)" "answers known_status (addressTxs sv r pv)"
  "answers known_status (addressMempoolTxs sv r pv)" "answers known_status (addressDeposits sv pv)"
  "answers known_status (deposit_route sv pv)" "answers known_status (deposits sv pv)"
  unfolding addressInfo_def addressUTXOs_def addressTxs_def addressMempoolTxs_def addressDeposits_def deposit_route_def deposits_def Let_def
  by (auto intro!: web_rules)

lemma drivechain_handlers_answer [web_rules]:
  "answers known_status (drivechainWithdrawals sv)" "answers known_status (drivechainSidechains sv)"
  "answers known_status (drivechainSidechain sv pv)"
  unfolding drivechainWithdrawals_def drivechainSidechains_def drivechainSidechain_def
  by (auto intro!: web_rules split: option.split sum.split)

subsection \<open>Properties\<close>

lemma route_handlers: "(m, p, h) \<in> set routes \<Longrightarrow> answers known_status (h sv r pv)"
  by (auto simp: routes_def key_routes_def web_rules)

lemma route_methods: "(m, p, h) \<in> set routes \<Longrightarrow> m = ''GET'' \<or> m = ''POST''"
  by (auto simp: routes_def key_routes_def)

definition takes :: "request \<Rightarrow> string \<times> string \<times> handler \<Rightarrow> bool" where
  "takes r = (\<lambda>(m, p, h). takes_method m (rqMethod r) \<and> path_match p r \<noteq> None)"

lemma takes_overlap:
  assumes "takes r (m, p, h)" and "takes r (m', p', h')" and "(m, p, h) \<in> set routes" and "(m', p', h') \<in> set routes"
  shows "m = m' \<and> overlap (parse_pattern p) (parse_pattern p')"
  using assms route_methods [OF assms(3)] route_methods [OF assms(4)]
  by (auto simp: takes_def takes_method_def path_match_def intro: match_overlap)

lemma one_route:
  assumes "i < length routes" and "j < length routes" and "takes r (routes ! i)" and "takes r (routes ! j)"
  shows "i = j"
proof -
  have less: False if "i < j" "j < length routes" "takes r (routes ! i)" "takes r (routes ! j)" for i j
  proof -
    obtain m p h m' p' h' where ij: "routes ! i = (m, p, h)" "routes ! j = (m', p', h')" by (metis prod_cases3)
    then have "m = m' \<and> overlap (parse_pattern p) (parse_pattern p')"
      using that nth_mem [of i routes] nth_mem [of j routes] by (intro takes_overlap [of r m p h m' p' h']) simp_all
    moreover have "\<not> (m = m' \<and> overlap (parse_pattern p) (parse_pattern p'))"
      using patterns_apart [unfolded apart_iff patterns_def, THEN sorted_wrt_nth_less, of i j] that ij by simp
    ultimately show False by simp
  qed
  then show ?thesis using assms by (metis nat_neq_iff)
qed

lemma Handler_route:
  assumes "(m, p, h) \<in> set routes" and "takes r (m, p, h)"
  shows "Handler sv r s = run_web (h sv r (path_value (the (path_match p r)))) s"
proof -
  obtain x where x: "find (takes r) routes = Some x"
    using assms by (cases "find (takes r) routes") (auto simp: find_None_iff)
  then obtain i where i: "i < length routes" "takes r (routes ! i)" "x = routes ! i"
    by (auto simp: find_Some_iff)
  obtain j where j: "j < length routes" "routes ! j = (m, p, h)" using assms(1) by (auto simp: in_set_conv_nth)
  have "i = j" using one_route [of i j r] i j assms(2) by simp
  then have "find (takes r) routes = Some (m, p, h)" using x i j by simp
  then show ?thesis by (simp add: Handler_def takes_def)
qed


text \<open>
  C31. The route table is unambiguous: no request is taken by two of its patterns, so the order of
  registration does not matter and the handler that runs is the one of the pattern the request matches.
\<close>

theorem routes_unambiguous:
  assumes "i < length routes" and "routes ! i = (m, p, h)" and "takes r (m, p, h)"
  shows "(\<forall>j < length routes. takes r (routes ! j) \<longrightarrow> j = i)
    \<and> Handler sv r s = run_web (h sv r (path_value (the (path_match p r)))) s"
  using assms one_route [of _ i r] Handler_route [of m p h r] by (auto simp: in_set_conv_nth)

definition http_get :: "string list \<Rightarrow> request" where
  "http_get segs = \<lparr>rqMethod = ''GET'', rqSegments = segs, rqBody = ([], False)\<rparr>"

theorem routes_unambiguous_witness:
  "\<forall>sv s. Handler sv (http_get [''blocks'', ''7'']) s = run_web (blocks sv (path_value [(''start_height'', ''7'')])) s"
proof (intro allI)
  fix sv s
  have "routes ! 3 = (''GET'', ''/blocks/{start_height}'', \<lambda>sv r. blocks sv)" and "3 < length routes"
    by (simp_all add: routes_def)
  then show "Handler sv (http_get [''blocks'', ''7'']) s = run_web (blocks sv (path_value [(''start_height'', ''7'')])) s"
    using routes_unambiguous [of 3 "''GET''" "''/blocks/{start_height}''" "\<lambda>sv r. blocks sv" "http_get [''blocks'', ''7'']" sv s]
    by (simp add: takes_def takes_method_def path_match_def http_get_def parse_pattern_def parse_seg_def)
qed

text \<open>The patterns whose handlers do not read the index.\<close>

definition no_index :: "string list" where
  "no_index = [''/tx'', ''/fee-estimates'', ''/drivechain/withdrawals'', ''/drivechain/sidechains'',
     ''/drivechain/sidechain/{slot}'', ''/health'']"

text \<open>Handlers that get the store before anything else.\<close>

definition opens_store :: "server \<Rightarrow> 'a web \<Rightarrow> bool" where
  "opens_store sv m \<longleftrightarrow> (\<exists>f :: unit \<Rightarrow> 'a web. m = bindW (store sv) f)"

lemma opens_store [intro]: "opens_store sv (bindW (store sv) f)"
  by (auto simp: opens_store_def)

lemma opens_store_bindW [intro]: "opens_store sv m \<Longrightarrow> opens_store sv (bindW m f)"
  by (auto simp: opens_store_def bindW_assoc)

lemma opens_store_shared [intro]:
  "opens_store sv (blockByHash sv pv)" "opens_store sv (txid_of sv pv)" "opens_store sv (addressKey sv r pv)"
  unfolding blockByHash_def txid_of_def addressKey_def by (rule opens_store)+

lemma opens_store_handlers:
  "opens_store sv (tipHeight sv)" "opens_store sv (tipHash sv)" "opens_store sv (blocks sv pv)"
  "opens_store sv (blockHeight sv pv)" "opens_store sv (block_route sv pv)" "opens_store sv (blockHeader sv pv)"
  "opens_store sv (blockStatus sv pv)" "opens_store sv (blockTxids sv pv)" "opens_store sv (blockTxid sv pv)"
  "opens_store sv (blockTxs sv pv)" "opens_store sv (tx sv pv)" "opens_store sv (txStatus_route sv pv)" "opens_store sv (txHex sv pv)"
  "opens_store sv (outspends sv pv)" "opens_store sv (outspend sv pv)" "opens_store sv (mempool sv)" "opens_store sv (mempoolTxids sv)"
  "opens_store sv (mempoolRecent sv)" "opens_store sv (recentActivity sv)" "opens_store sv (blockActivity sv pv)"
  "opens_store sv (addressInfo sv r pv)" "opens_store sv (addressUTXOs sv r pv)" "opens_store sv (addressTxs sv r pv)"
  "opens_store sv (addressMempoolTxs sv r pv)" "opens_store sv (addressDeposits sv pv)" "opens_store sv (deposit_route sv pv)"
  "opens_store sv (deposits sv pv)"
  unfolding tipHeight_def tipHash_def blocks_def blockHeight_def block_route_def blockHeader_def blockStatus_def blockTxids_def
    blockTxid_def blockTxs_def tx_def txStatus_route_def txHex_def outspends_def outspend_def mempool_def mempoolTxids_def
    mempoolRecent_def recentActivity_def blockActivity_def addressInfo_def addressUTXOs_def addressTxs_def addressMempoolTxs_def
    addressDeposits_def deposit_route_def deposits_def
  by (blast intro: opens_store opens_store_bindW opens_store_shared)+

lemma routes_open_store: "list_all (\<lambda>(m, p, h). p \<in> set no_index \<or> opens_store sv (h sv r pv)) routes"
  by (simp add: routes_def key_routes_def no_index_def opens_store_handlers)

lemma route_opens_store: "(m, p, h) \<in> set routes \<Longrightarrow> p \<notin> set no_index \<Longrightarrow> opens_store sv (h sv r pv)"
  using routes_open_store [of sv r pv] by (auto simp: list_all_iff)

lemma store_down_handlers:
  assumes "store_down sv" and "(m, p, h) \<in> set routes" and "p \<notin> set no_index"
  shows "run_web (h sv r pv) s = writeError 503 (BText ''the index database is not reachable'')"
  using route_opens_store [OF assms(2,3), of sv r pv] store_down_answer [OF assms(1)] by (auto simp: opens_store_def)


definition ex_moment :: moment where
  "ex_moment = \<lparr>moNode = \<lparr>ndCount = Inr 0, ndHashAt = \<lambda>_. Inr None, ndBlock = \<lambda>_. Inr None, ndIndex = \<lambda>_. Inl ErrNode,
       ndMempool = Inr [], ndSubmit = \<lambda>_. Inl ErrNode, ndPending = Inr None, ndLastFailed = Inr None\<rparr>,
     moGetNode = Inr (), moGetStore = Inr (), moPg = ex_pg, moTime = \<lambda>_. Inl ErrTimeSource, moHeight = \<lambda>_. Inr None,
     moNow = 0, moCancelled = False, moOthers = []\<rparr>"

text \<open>A server over fixed tables, with base58 stood in for by hexadecimal text.\<close>

definition ex_server :: "db \<Rightarrow> server" where
  "ex_server d = \<lparr>svEnv = \<lambda>_. ex_moment, svTables = \<lambda>_. d, svUp = True, svBroadcaster = False, svWithdrawals = False,
     svMainchain = None, svParse = \<lambda>_. None, svEnc58 = hex_encode,
     svDec58 = \<lambda>s. (case hex_decode s of Inr b \<Rightarrow> Some b | Inl _ \<Rightarrow> None)\<rparr>"

definition ex_down :: server where
  "ex_down = (ex_server empty_db)\<lparr>svEnv := \<lambda>_. ex_moment\<lparr>moGetStore := Inl ErrUnavailable\<rparr>, svUp := False\<rparr>"


end
