(* ===== verification/Api_Properties.thy ===== *)
theory Api_Properties
  imports Router
begin

text \<open>
  What the API serves over tables that stand still while a request runs: the pages of a block, the two
  sides of an address, where a transaction sits, and the pages of a history.
\<close>

subsection \<open>Handlers over fixed tables\<close>

definition steady :: "server \<Rightarrow> moment \<Rightarrow> db \<Rightarrow> bool" where
  "steady sv m d \<longleftrightarrow> (\<forall>t. svEnv sv t = m \<and> svTables sv t = d) \<and> moGetStore m = Inr () \<and> no_fault (moPg m)"

lemma steady_query [simp]: "steady sv m d \<Longrightarrow> run_web (bindW (query sv q) f) s = run_web (f (q (moPg m) d)) (tick s)"
  by (simp add: steady_def run_web_def bindW_def query_def)

lemma steady_store [simp]: "steady sv m d \<Longrightarrow> run_web (bindW (store sv) f) s = run_web (f ()) (tick s)"
  by (simp add: steady_def run_web_def bindW_def store_def callW_def ask_def retW_def)

lemma steady_pg [simp]: "steady sv m d \<Longrightarrow> no_fault (moPg m)"
  by (simp add: steady_def)

lemma bindW_Inr: "m s = (Inr x, t) \<Longrightarrow> bindW m f s = f x t"
  by (simp add: bindW_def)

lemma steady_mapW:
  assumes "steady sv m d" and "mapE (\<lambda>x. q x (moPg m) d) xs = Inr ys"
  shows "\<exists>t. mapW (\<lambda>x. bindW (query sv (q x)) failed) xs s = (Inr ys, t)"
  using assms(2)
proof (induction xs arbitrary: ys s)
  case (Cons x xs)
  then obtain y zs where y: "q x (moPg m) d = Inr y" and zs: "mapE (\<lambda>x. q x (moPg m) d) xs = Inr zs" and ys: "ys = y # zs"
    by (auto simp: bindE_eq_Inr)
  from Cons.IH [OF zs, of "tick s"] obtain t where t: "mapW (\<lambda>x. bindW (query sv (q x)) failed) xs (tick s) = (Inr zs, t)" ..
  have "bindW (query sv (q x)) failed s = (Inr y, tick s)"
    using assms(1) y by (simp add: bindW_def query_def steady_def retW_def)
  then have "mapW (\<lambda>x. bindW (query sv (q x)) failed) (x # xs) s = retW (y # zs) t"
    by (simp add: bindW_Inr t)
  then show ?case by (simp add: retW_def ys)
qed (simp add: retW_def)

lemma steady_run_mapW:
  assumes "steady sv m d" and "mapE (\<lambda>x. q x (moPg m) d) xs = Inr ys"
  shows "\<exists>t. run_web (bindW (mapW (\<lambda>x. bindW (query sv (q x)) failed) xs) f) s = run_web (f ys) t"
proof -
  obtain t where "mapW (\<lambda>x. bindW (query sv (q x)) failed) xs s = (Inr ys, t)" using steady_mapW [of sv m d q, OF assms] ..
  then show ?thesis by (auto simp: run_web_def bindW_def)
qed

lemma run_web_if [simp]: "run_web (if c then m else n) s = (if c then run_web m s else run_web n s)"
  by simp

lemma mapE_take: "mapE f xs = Inr ys \<Longrightarrow> mapE f (take n xs) = Inr (take n ys)"
  by (induction xs arbitrary: ys n) (auto simp: bindE_eq_Inr take_Cons split: nat.split)

lemma mapE_drop: "mapE f xs = Inr ys \<Longrightarrow> mapE f (drop n xs) = Inr (drop n ys)"
  by (induction xs arbitrary: ys n) (auto simp: bindE_eq_Inr drop_Cons split: nat.split)

subsection \<open>Pages of a block\<close>

lemma parse_int_format:
  assumes "k < 2 ^ 63"
  shows "parse_int (format_uint k) = Inr (int k)"
proof (cases "format_uint k")
  case (Cons c cs)
  then have "digit_val c \<noteq> None" using format_uint_digits [of c k] by simp
  then have "c \<noteq> CHR ''-''" "c \<noteq> CHR ''+''" by (auto simp: digit_val_def)
  moreover have "parse_uint 64 (c # cs) = Inr k" using parse_uint_format [of k 64] assms Cons by simp
  ultimately show ?thesis using assms by (simp add: parse_int_def Cons)
qed simp

lemma whole_number_format: "k < 2 ^ 63 \<Longrightarrow> whole_number message (format_uint k) = retW k"
  by (simp add: whole_number_def parse_int_format)

lemma steady_blockByHash:
  assumes "steady sv m d" and "wf_hash h" and "pv ''hash'' = Hash_String h" and "BlockByHash (moPg m) h d = Inr info"
  shows "run_web (bindW (blockByHash sv pv) f) s = run_web (f info) (tick (tick s))"
  using assms by (simp add: blockByHash_def bindW_assoc)

lemma block_page:
  assumes "steady sv m d" and "wf_hash h" and "BlockByHash (moPg m) h d = Inr info"
    and "BlockTxids (moPg m) (bwHash info) d = Inr txids" and "mapE (\<lambda>x. Tx (moPg m) x d) txids = Inr rows"
    and "pv ''hash'' = Hash_String h" and "pv ''start_index'' = format_uint k" and "k < 2 ^ 63"
  shows "run_web (blockTxs sv pv) s = writeJSON (JArr (map (json_Tx \<circ> newTx (svEnc58 sv)) (take PageSize (drop k rows))))"
proof -
  let ?start = "min k (length txids)"
  let ?page = "take (min (?start + PageSize) (length txids) - ?start) (drop ?start txids)"
  have len: "length rows = length txids" using assms(5) by (rule mapE_length)
  have page: "?page = take PageSize (drop k txids)"
    by (cases "k \<le> length txids") (auto simp: min_def intro: take_all_iff [THEN iffD2, symmetric] )
  have "mapE (\<lambda>x. Tx (moPg m) x d) ?page = Inr (take PageSize (drop k rows))"
    unfolding page using assms(5) by (intro mapE_take mapE_drop)
  from steady_run_mapW [OF assms(1), of "\<lambda>x pg. Tx pg x", OF this]
  obtain t where t: "run_web (bindW (mapW (\<lambda>x. bindW (query sv (\<lambda>pg. Tx pg x)) failed) ?page) (\<lambda>txs.
      answer (writeJSON (JArr (map (json_Tx \<circ> newTx (svEnc58 sv)) txs))) :: unit web)) (tick (tick (tick s)))
    = run_web (answer (writeJSON (JArr (map (json_Tx \<circ> newTx (svEnc58 sv)) (take PageSize (drop k rows)))) ) :: unit web) t"
    by blast
  have "run_web (blockTxs sv pv) s = run_web (bindW (mapW (\<lambda>x. bindW (query sv (\<lambda>pg. Tx pg x)) failed) ?page) (\<lambda>txs.
      answer (writeJSON (JArr (map (json_Tx \<circ> newTx (svEnc58 sv)) txs))) :: unit web)) (tick (tick (tick s)))"
    using assms by (simp add: blockTxs_def steady_blockByHash [of sv m d h pv, OF assms(1,2,6,3)] whole_number_format block_txids_def bindW_assoc Let_def)
  then show ?thesis unfolding t by simp
qed

lemma pages_cover:
  fixes n :: nat
  shows "length xs \<le> n * k \<Longrightarrow> concat (map (\<lambda>i. take n (drop (n * i) xs)) [0..<k]) = xs"
proof (induction k arbitrary: xs)
  case (Suc k)
  have shift: "map (\<lambda>i. take n (drop (n * i) xs)) [0..<Suc k]
      = take n xs # map (\<lambda>i. take n (drop (n * i) (drop n xs))) [0..<k]"
    by (simp add: upt_conv_Cons map_Suc_upt [symmetric] add.commute del: upt_Suc)
  have "length (drop n xs) \<le> n * k" using Suc.prems by simp
  from Suc.IH [OF this] show ?case unfolding shift by simp
qed simp

text \<open>
  C35. The pages of a block hold the whole block: over tables that stand still, the request for the page
  that starts at index \<open>k\<close> answers with the transactions \<open>k\<close> to \<open>k + 24\<close> of the block in body order, as
  many as there are, and the pages at the multiples of 25 together list every transaction once and in
  order.
\<close>

theorem block_pages:
  assumes "steady sv m d" and "wf_hash h" and "BlockByHash (moPg m) h d = Inr info"
    and "BlockTxids (moPg m) (bwHash info) d = Inr txids" and "mapE (\<lambda>x. Tx (moPg m) x d) txids = Inr rows"
  shows "(k < 2 ^ 63 \<longrightarrow>
      Handler sv (http_get [''block'', Hash_String h, ''txs'', format_uint k]) s
        = writeJSON (JArr (map (json_Tx \<circ> newTx (svEnc58 sv)) (take PageSize (drop k rows)))))
    \<and> (length rows \<le> PageSize * n \<longrightarrow> concat (map (\<lambda>i. take PageSize (drop (PageSize * i) rows)) [0..<n]) = rows)"
proof (intro conjI impI)
  assume k: "k < 2 ^ 63"
  let ?r = "http_get [''block'', Hash_String h, ''txs'', format_uint k]"
  let ?b = "[(''hash'', Hash_String h), (''start_index'', format_uint k)]"
  have "Hash_String h \<noteq> []" using assms(2) by (cases h) (auto simp: Hash_String_def wf_hash_def)
  then have bind: "path_match ''/block/{hash}/txs/{start_index}'' ?r = Some ?b"
    by (simp add: path_match_def http_get_def parse_pattern_def parse_seg_def)
  have "(''GET'', ''/block/{hash}/txs/{start_index}'', \<lambda>sv r. blockTxs sv) \<in> set routes" by (simp add: routes_def)
  from Handler_route [OF this, of ?r sv s] bind
  have "Handler sv ?r s = run_web (blockTxs sv (path_value ?b)) s"
    by (simp add: takes_def takes_method_def http_get_def)
  also have "\<dots> = writeJSON (JArr (map (json_Tx \<circ> newTx (svEnc58 sv)) (take PageSize (drop k rows))))"
    by (rule block_page [OF assms _ _ k]) (simp_all add: path_value_def)
  finally show "Handler sv ?r s = \<dots>" .
qed (rule pages_cover)

lemma ex_steady: "steady (ex_server d) ex_moment d"
  by (simp add: steady_def ex_server_def ex_moment_def)

lemma ex_u32_1 [simp]: "u32_of_int32 1 = 1" "u32_of_int32 0 = 0"
  by (simp_all add: u32_of_int32_def)

lemma ex_block_at1: "\<exists>b. BlockAtHeight ex_pg 1 ex_db1 = Inr b \<and> bwHash b = ex_hash 11 \<and> bwHeight b = 1 \<and> bwBlockTime b = None"
  by (simp add: BlockAtHeight_def scan_one_def block_at_def ex_db1_blocks block_row_of_def ex_genesis_def ex_block1_def
      scanBlock_def ex_db1_outputs ex_db1_txs to_bigint_def sum_values_def)

lemma ex_tx41: "\<exists>row b. Tx ex_pg (ex_hash 41) ex_db1 = Inr row \<and> twTxid row = ex_hash 41 \<and> twHeight row = 1
    \<and> twBlock row = Some b \<and> bwHash b = ex_hash 11 \<and> \<not> twUnconfirmed row"
  using ex_block_at1 by (auto simp: Tx_def ex_db1_txs coins_def)

theorem block_pages_witness:
  "\<forall>s. \<exists>row. Tx ex_pg (ex_hash 41) ex_db1 = Inr row
     \<and> Handler (ex_server ex_db1) (http_get [''block'', Hash_String (ex_hash 11), ''txs'', ''0'']) s
       = writeJSON (JArr [json_Tx (newTx hex_encode row)])"
proof
  fix s
  have pg: "moPg ex_moment = ex_pg" by (simp add: ex_moment_def)
  obtain info where 1: "BlockByHash ex_pg (ex_hash 11) ex_db1 = Inr info" and info: "bwHash info = ex_hash 11"
    by (simp add: BlockByHash_def ex_db1_blocks block_row_of_def ex_genesis_def ex_block1_def scan_one_def scanBlock_def ex_db1_txs
        ex_db1_outputs to_bigint_def sum_values_def)
  have 2: "BlockTxids ex_pg (bwHash info) ex_db1 = Inr [ex_hash 41]"
    by (simp add: info BlockTxids_def ex_db1_blocks block_row_of_def ex_genesis_def ex_block1_def ex_db1_txs)
  obtain row where 3: "Tx ex_pg (ex_hash 41) ex_db1 = Inr row" using ex_tx41 by blast
  have "mapE (\<lambda>x. Tx (moPg ex_moment) x ex_db1) [ex_hash 41] = Inr [row]" by (simp add: pg 3)
  from block_pages [OF ex_steady _ _ _ this, of "ex_hash 11" info 0 s] 1 2 3
  show "\<exists>row. Tx ex_pg (ex_hash 41) ex_db1 = Inr row
     \<and> Handler (ex_server ex_db1) (http_get [''block'', Hash_String (ex_hash 11), ''txs'', ''0'']) s
       = writeJSON (JArr [json_Tx (newTx hex_encode row)])"
    by (simp add: pg wf_hash_def ex_server_def format_uint.simps hex_digit_def)
qed

subsection \<open>The two sides of an address\<close>

text \<open>A response of status 200 means that every read before it succeeded.\<close>

lemma error_not_json [simp]: "writeError n b \<noteq> writeJSON j"
  by (simp add: writeJSON_def writeError_def)

lemma ok_query:
  assumes "run_web (bindW (query sv q) (\<lambda>x. bindW (failed x) f)) s = writeJSON j"
  shows "\<exists>y. q (moPg (svEnv sv (syClock s))) (svTables sv (syClock s)) = Inr y \<and> run_web (f y) (tick s) = writeJSON j"
proof -
  let ?r = "q (moPg (svEnv sv (syClock s))) (svTables sv (syClock s))"
  have "run_web (bindW (failed ?r) f) (tick s) = writeJSON j"
    using assms by (simp add: run_web_def bindW_def query_def)
  then show ?thesis by (cases ?r) (auto split: if_splits)
qed

lemma ok_store:
  assumes "run_web (bindW (store sv) f) s = writeJSON j"
  shows "run_web (f ()) (tick s) = writeJSON j"
  using assms
  by (cases "moGetStore (svEnv sv (syClock s))")
     (auto simp: run_web_def bindW_def store_def callW_def ask_def retW_def answer_def)

text \<open>What the path of an address route means: the column and the bytes, if it means anything.\<close>

definition key_of :: "server \<Rightarrow> bool \<Rightarrow> string \<Rightarrow> (string \<times> bytes) option" where
  "key_of sv scripthash raw =
     (if scripthash then (case hex_decode raw of Inr key \<Rightarrow> if length key = 32 then Some (ColumnScriptHash, key) else None
                          | Inl _ \<Rightarrow> None)
      else (case ParseAddress (svDec58 sv) raw of Inr a \<Rightarrow> Some (ColumnAddress, a) | Inl _ \<Rightarrow> None))"

lemma ok_addressKey:
  assumes "run_web (bindW (addressKey sv r pv) f) s = writeJSON j"
  shows "\<exists>k. key_of sv (isScriptHashRoute r) (pv ''key'') = Some k \<and> run_web (f k) (tick s) = writeJSON j"
  using ok_store [OF assms [unfolded addressKey_def bindW_assoc]]
  by (auto simp: key_of_def bindW_assoc split: if_splits sum.splits)

lemma steady_addressKey:
  assumes "steady sv m d" and "key_of sv (isScriptHashRoute r) (pv ''key'') = Some k"
  shows "run_web (bindW (addressKey sv r pv) f) s = run_web (f k) (tick s)"
  using assms by (auto simp: addressKey_def bindW_assoc key_of_def split: if_splits sum.splits)

abbreviation key_prefixes :: "string set" where "key_prefixes \<equiv> {''address'', ''scripthash''}"

lemma isScriptHashRoute_key:
  "isScriptHashRoute (http_get (''scripthash'' # raw # rest))" "\<not> isScriptHashRoute (http_get (''address'' # raw # rest))"
  by (simp_all add: isScriptHashRoute_def rqPath_def http_get_def)

lemma Handler_key_routes:
  assumes "prefix \<in> key_prefixes" and "raw \<noteq> []"
  shows "Handler sv (http_get [prefix, raw]) s
      = run_web (addressInfo sv (http_get [prefix, raw]) (path_value [(''key'', raw)])) s"
    and "Handler sv (http_get [prefix, raw, ''utxo'']) s
      = run_web (addressUTXOs sv (http_get [prefix, raw, ''utxo'']) (path_value [(''key'', raw)])) s"
proof -
  have "(''GET'', ''/'' @ prefix @ ''/{key}'', addressInfo) \<in> set routes"
    "(''GET'', ''/'' @ prefix @ ''/{key}/utxo'', addressUTXOs) \<in> set routes"
    using assms(1) by (auto simp: routes_def key_routes_def)
  then show "Handler sv (http_get [prefix, raw]) s
      = run_web (addressInfo sv (http_get [prefix, raw]) (path_value [(''key'', raw)])) s"
    and "Handler sv (http_get [prefix, raw, ''utxo'']) s
      = run_web (addressUTXOs sv (http_get [prefix, raw, ''utxo'']) (path_value [(''key'', raw)])) s"
    using assms Handler_route [of "''GET''" "''/'' @ prefix @ ''/{key}''" addressInfo "http_get [prefix, raw]" sv s]
      Handler_route [of "''GET''" "''/'' @ prefix @ ''/{key}/utxo''" addressUTXOs "http_get [prefix, raw, ''utxo'']" sv s]
    by (auto simp: takes_def takes_method_def path_match_def http_get_def parse_pattern_def parse_seg_def)
qed

lemma addressInfo_ok:
  assumes "run_web (addressInfo sv r pv) s = writeJSON j" and "\<forall>t. svTables sv t = d"
  shows "\<exists>column key pg1 pg2 stats pending out. key_of sv (isScriptHashRoute r) (pv ''key'') = Some (column, key)
    \<and> Stats pg1 column key d = Inr stats \<and> MempoolStats pg2 column key d = Inr pending
    \<and> j = json_AddressInfo out \<and> aiChainStats out = newTxoStats stats \<and> aiMempoolStats out = newTxoStats pending"
proof -
  obtain column key where key: "key_of sv (isScriptHashRoute r) (pv ''key'') = Some (column, key)"
    and run: "run_web (bindW (query sv (\<lambda>pg. Stats pg column key)) (\<lambda>stats. bindW (failed stats) (\<lambda>stats.
      bindW (query sv (\<lambda>pg. MempoolStats pg column key)) (\<lambda>pending. bindW (failed pending) (\<lambda>pending.
        let out = \<lparr>aiAddress = [], aiScriptHash = [], aiChainStats = newTxoStats stats, aiMempoolStats = newTxoStats pending\<rparr> in
          answer (writeJSON (json_AddressInfo (if column = ColumnScriptHash then out\<lparr>aiScriptHash := pv ''key''\<rparr>
            else out\<lparr>aiAddress := pv ''key''\<rparr>))) :: unit web))))) (tick s) = writeJSON j"
    using ok_addressKey [OF assms(1) [unfolded addressInfo_def]] by auto
  from ok_query [OF run] obtain stats where stats: "Stats (moPg (svEnv sv (syClock (tick s)))) column key d = Inr stats"
    and run: "run_web (bindW (query sv (\<lambda>pg. MempoolStats pg column key)) (\<lambda>pending. bindW (failed pending) (\<lambda>pending.
        let out = \<lparr>aiAddress = [], aiScriptHash = [], aiChainStats = newTxoStats stats, aiMempoolStats = newTxoStats pending\<rparr> in
          answer (writeJSON (json_AddressInfo (if column = ColumnScriptHash then out\<lparr>aiScriptHash := pv ''key''\<rparr>
            else out\<lparr>aiAddress := pv ''key''\<rparr>))) :: unit web))) (tick (tick s)) = writeJSON j"
    using assms(2) by auto
  from ok_query [OF run] obtain pending where
    "MempoolStats (moPg (svEnv sv (syClock (tick (tick s))))) column key d = Inr pending"
    and "json_AddressInfo (if column = ColumnScriptHash
        then \<lparr>aiAddress = [], aiScriptHash = pv ''key'', aiChainStats = newTxoStats stats, aiMempoolStats = newTxoStats pending\<rparr>
        else \<lparr>aiAddress = pv ''key'', aiScriptHash = [], aiChainStats = newTxoStats stats, aiMempoolStats = newTxoStats pending\<rparr>) = j"
    using assms(2) by (auto simp: Let_def writeJSON_def)
  then show ?thesis using key stats
    by (intro exI [of _ column] exI [of _ key] exI [of _ "moPg (svEnv sv (syClock (tick s)))"]
        exI [of _ "moPg (svEnv sv (syClock (tick (tick s))))"] exI [of _ stats] exI [of _ pending]
        exI [of _ "if column = ColumnScriptHash
        then \<lparr>aiAddress = [], aiScriptHash = pv ''key'', aiChainStats = newTxoStats stats, aiMempoolStats = newTxoStats pending\<rparr>
        else \<lparr>aiAddress = pv ''key'', aiScriptHash = [], aiChainStats = newTxoStats stats, aiMempoolStats = newTxoStats pending\<rparr>"]) auto
qed

lemma addressUTXOs_ok:
  assumes "run_web (addressUTXOs sv r pv) s = writeJSON j" and "\<forall>t. svTables sv t = d"
  shows "\<exists>column key pg1 pg2 pg3 rows spent pending. key_of sv (isScriptHashRoute r) (pv ''key'') = Some (column, key)
    \<and> UTXOs pg1 column key d = Inr rows \<and> MempoolSpentOutpoints pg2 d = Inr spent \<and> MempoolUTXOs pg3 column key d = Inr pending
    \<and> j = JArr (map json_UTXO (map newUTXO (filter (\<lambda>row. \<not> spent (Key (utOutPoint row))) rows @ pending)))"
proof -
  let ?out = "\<lambda>rows spent pending. answer (writeJSON (JArr (map (json_UTXO \<circ> newUTXO)
      (filter (\<lambda>row. \<not> spent (Key (utOutPoint row))) rows @ pending)))) :: unit web"
  obtain column key where key: "key_of sv (isScriptHashRoute r) (pv ''key'') = Some (column, key)"
    and run: "run_web (bindW (query sv (\<lambda>pg. UTXOs pg column key)) (\<lambda>rows. bindW (failed rows) (\<lambda>rows.
      bindW (query sv MempoolSpentOutpoints) (\<lambda>spent. bindW (failed spent) (\<lambda>spent.
      bindW (query sv (\<lambda>pg. MempoolUTXOs pg column key)) (\<lambda>pending. bindW (failed pending) (\<lambda>pending.
        ?out rows spent pending))))))) (tick s) = writeJSON j"
    using ok_addressKey [OF assms(1) [unfolded addressUTXOs_def]] by auto
  note q1 = ok_query [OF run]
  then obtain rows where rows: "UTXOs (moPg (svEnv sv (syClock (tick s)))) column key d = Inr rows"
    and run: "run_web (bindW (query sv MempoolSpentOutpoints) (\<lambda>spent. bindW (failed spent) (\<lambda>spent.
      bindW (query sv (\<lambda>pg. MempoolUTXOs pg column key)) (\<lambda>pending. bindW (failed pending) (\<lambda>pending.
        ?out rows spent pending))))) (tick (tick s)) = writeJSON j"
    using assms(2) by auto
  from ok_query [OF run] obtain spent where spent: "MempoolSpentOutpoints (moPg (svEnv sv (syClock (tick (tick s))))) d = Inr spent"
    and run: "run_web (bindW (query sv (\<lambda>pg. MempoolUTXOs pg column key)) (\<lambda>pending. bindW (failed pending) (\<lambda>pending.
        ?out rows spent pending))) (tick (tick (tick s))) = writeJSON j"
    using assms(2) by auto
  from ok_query [OF run] obtain pending where
    "MempoolUTXOs (moPg (svEnv sv (syClock (tick (tick (tick s)))))) column key d = Inr pending"
    and "JArr (map json_UTXO (map newUTXO (filter (\<lambda>row. \<not> spent (Key (utOutPoint row))) rows @ pending))) = j"
    using assms(2) by (auto simp: writeJSON_def)
  then show ?thesis using key rows spent by blast
qed

text \<open>The fields of a JSON object that the theorems read.\<close>

lemma json_AddressInfo_sums:
  assumes "json_AddressInfo a = json_AddressInfo b"
  shows "xsFundedTxoSum (aiChainStats a) = xsFundedTxoSum (aiChainStats b) \<and> xsSpentTxoSum (aiChainStats a) = xsSpentTxoSum (aiChainStats b)
    \<and> xsFundedTxoSum (aiMempoolStats a) = xsFundedTxoSum (aiMempoolStats b) \<and> xsSpentTxoSum (aiMempoolStats a) = xsSpentTxoSum (aiMempoolStats b)"
proof -
  have "x = x' \<and> y = y'" if "p @ q @ [x, y] = p' @ q' @ [x', y']" for p q p' q' :: "(string \<times> json) list" and x y x' y'
    using that append_eq_append_conv [of "[x, y]" "[x', y']" "p @ q" "p' @ q'"] by simp
  from this [OF assms [unfolded json_AddressInfo_def json.inject]] show ?thesis by (auto simp: json_TxoStats_def)
qed

lemma json_UTXO_value: "json_UTXO u = json_UTXO v \<Longrightarrow> euValue u = euValue v"
  by (simp add: json_UTXO_def)

lemma json_UTXO_values: "map json_UTXO us = map json_UTXO vs \<Longrightarrow> map euValue us = map euValue vs"
proof (induction us arbitrary: vs)
  case (Cons u us)
  obtain v vs' where "vs = v # vs'" "json_UTXO u = json_UTXO v" "map json_UTXO us = map json_UTXO vs'"
    using Cons.prems [unfolded list.map(2) Cons_eq_map_conv] by blast
  then show ?case using Cons.IH [of vs'] json_UTXO_value [of u v] by simp
qed simp

text \<open>
  C33. The two answers about an address agree: over tables that stand still, when the address route and
  its list of unspent outputs both answer with 200, the values listed add up to the confirmed balance
  plus the unconfirmed one, for an address and for a scripthash alike. Faults may come and go between
  the reads; the unconfirmed set must not spend a coin that a block already spent.
\<close>

theorem address_balance_served:
  assumes "wf_db d" and "\<forall>t. svTables sv t = d" and "prefix \<in> key_prefixes" and "raw \<noteq> []"
    and "Handler sv (http_get [prefix, raw]) s = writeJSON (json_AddressInfo info)"
    and "Handler sv (http_get [prefix, raw, ''utxo'']) s' = writeJSON (JArr (map json_UTXO us))"
    and "\<forall>r \<in> set (dbOutputs d). orOutpoint r \<in> msOutpoint ` set (dbMempoolSpends d) \<longrightarrow> orSpentSource r = None"
  shows "sum_list (map euValue us) = xsFundedTxoSum (aiChainStats info) - xsSpentTxoSum (aiChainStats info)
    + xsFundedTxoSum (aiMempoolStats info) - xsSpentTxoSum (aiMempoolStats info)"
proof -
  have route: "isScriptHashRoute (http_get [prefix, raw, ''utxo'']) = isScriptHashRoute (http_get [prefix, raw])"
    using assms(3) by (auto simp: isScriptHashRoute_key)
  from addressInfo_ok [OF assms(5) [unfolded Handler_key_routes [OF assms(3,4)]] assms(2)]
  obtain column key pg1 pg2 stats pending out where info: "key_of sv (isScriptHashRoute (http_get [prefix, raw])) raw = Some (column, key)"
    "Stats pg1 column key d = Inr stats" "MempoolStats pg2 column key d = Inr pending"
    "json_AddressInfo info = json_AddressInfo out" "aiChainStats out = newTxoStats stats" "aiMempoolStats out = newTxoStats pending"
    by (auto simp: path_value_def)
  from addressUTXOs_ok [OF assms(6) [unfolded Handler_key_routes [OF assms(3,4)]] assms(2)] info(1)
  obtain pg3 pg4 pg5 rows spent more where list: "UTXOs pg3 column key d = Inr rows" "MempoolSpentOutpoints pg4 d = Inr spent"
    "MempoolUTXOs pg5 column key d = Inr more"
    "map json_UTXO us = map json_UTXO (map newUTXO (filter (\<lambda>row. \<not> spent (Key (utOutPoint row))) rows @ more))"
    by (auto simp: path_value_def route)
  have "map euValue us = map utValueSats (filter (\<lambda>row. \<not> spent (Key (utOutPoint row))) rows @ more)"
    using json_UTXO_values [OF list(4)] by (simp add: newUTXO_def)
  then show ?thesis
    using json_AddressInfo_sums [OF info(4)] info(5,6)
      unconfirmed_balance_sum [OF assms(1) info(2,3) list(1,3,2) assms(7)] by (simp add: newTxoStats_def)
qed

theorem address_balance_served_witness:
  "\<forall>s. \<exists>info us. Handler (ex_server ex_mempool_db) (http_get [''address'', hex_encode (replicate 20 7)]) s = writeJSON (json_AddressInfo info)
     \<and> Handler (ex_server ex_mempool_db) (http_get [''address'', hex_encode (replicate 20 7), ''utxo'']) s = writeJSON (JArr (map json_UTXO us))
     \<and> sum_list (map euValue us) = xsFundedTxoSum (aiChainStats info) - xsSpentTxoSum (aiChainStats info)
       + xsFundedTxoSum (aiMempoolStats info) - xsSpentTxoSum (aiMempoolStats info)"
proof
  fix s
  let ?raw = "hex_encode (replicate 20 7)" and ?sv = "ex_server ex_mempool_db" and ?k = "replicate 20 7"
  have "length ?raw = 40" by simp
  then have raw: "?raw \<noteq> []" by (metis list.size(3) zero_neq_numeral)
  have key: "key_of ?sv False ?raw = Some (ColumnAddress, ?k)"
    by (simp add: key_of_def ex_server_def ParseAddress_def)
  have pv: "path_value [(''key'', ?raw)] ''key'' = ?raw" by (simp add: path_value_def)
  have pg: "moPg ex_moment = ex_pg" by (simp add: ex_moment_def)
  obtain st m us pending spent where reads: "Stats ex_pg ColumnAddress ?k ex_mempool_db = Inr st"
    "MempoolStats ex_pg ColumnAddress ?k ex_mempool_db = Inr m" "UTXOs ex_pg ColumnAddress ?k ex_mempool_db = Inr us"
    "MempoolUTXOs ex_pg ColumnAddress ?k ex_mempool_db = Inr pending" "MempoolSpentOutpoints ex_pg ex_mempool_db = Inr spent"
    using ex_mempool_reads by blast
  have 1: "Handler ?sv (http_get [''address'', ?raw]) s = writeJSON (json_AddressInfo
      \<lparr>aiAddress = ?raw, aiScriptHash = [], aiChainStats = newTxoStats st, aiMempoolStats = newTxoStats m\<rparr>)"
    using reads ex_steady [of ex_mempool_db]
    by (simp add: Handler_key_routes(1) raw addressInfo_def steady_addressKey [OF ex_steady, of _ _ _ "(ColumnAddress, ?k)"]
        isScriptHashRoute_key key pv pg Let_def)
  have 2: "Handler ?sv (http_get [''address'', ?raw, ''utxo'']) s = writeJSON (JArr (map json_UTXO
      (map newUTXO (filter (\<lambda>u. \<not> spent (Key (utOutPoint u))) us @ pending))))"
    using reads ex_steady [of ex_mempool_db]
    by (simp add: Handler_key_routes(2) raw addressUTXOs_def steady_addressKey [OF ex_steady, of _ _ _ "(ColumnAddress, ?k)"]
        isScriptHashRoute_key key pv pg)
  have "\<forall>t. svTables ?sv t = ex_mempool_db" by (simp add: ex_server_def)
  from address_balance_served [OF ex_mempool_wf this _ raw 1 2 ex_mempool_spends] 1 2
  show "\<exists>info us. Handler ?sv (http_get [''address'', ?raw]) s = writeJSON (json_AddressInfo info)
     \<and> Handler ?sv (http_get [''address'', ?raw, ''utxo'']) s = writeJSON (JArr (map json_UTXO us))
     \<and> sum_list (map euValue us) = xsFundedTxoSum (aiChainStats info) - xsSpentTxoSum (aiChainStats info)
       + xsFundedTxoSum (aiMempoolStats info) - xsSpentTxoSum (aiMempoolStats info)"
    by blast
qed

subsection \<open>Where a transaction sits\<close>

lemma steady_txRow:
  assumes "steady sv m d"
  shows "run_web (bindW (txRow sv t) f) s
    = (if Tx (moPg m) t d = Inl ErrNotFound then run_web (f (MempoolTxRow (moPg m) t d)) (tick (tick s))
       else run_web (f (Tx (moPg m) t d)) (tick s))"
  using assms by (simp add: txRow_def bindW_assoc)

lemma Hash_String_not_Nil: "wf_hash h \<Longrightarrow> Hash_String h \<noteq> []"
  by (cases h) (auto simp: Hash_String_def wf_hash_def)

lemma run_notFound:
  "run_web (bindW (notFound r) (\<lambda>x. answer (g x) :: unit web)) s
    = (case r of Inr row \<Rightarrow> g row
       | Inl e \<Rightarrow> if e = ErrNotFound then writeError 404 (BText ''not found'')
                  else if e = ErrUnavailable then writeError 503 (BText ''the index database is not reachable'')
                  else writeError 500 (BText ''the request failed''))"
  by (cases r) (simp_all add: notFound_def)

lemma Handler_tx_status:
  assumes "steady sv m d" and "wf_hash t"
  shows "\<exists>s'. Handler sv (http_get [''tx'', Hash_String t, ''status'']) s
    = run_web (bindW (notFound (if Tx (moPg m) t d = Inl ErrNotFound then MempoolTxRow (moPg m) t d else Tx (moPg m) t d))
        (\<lambda>row. answer (writeJSON (json_Status (txStatus row))) :: unit web)) s'"
proof -
  let ?r = "http_get [''tx'', Hash_String t, ''status'']"
  have "(''GET'', ''/tx/{txid}/status'', \<lambda>sv r. txStatus_route sv) \<in> set routes" by (simp add: routes_def)
  from Handler_route [OF this, of ?r sv s]
  have "Handler sv ?r s = run_web (txStatus_route sv (path_value [(''txid'', Hash_String t)])) s"
    by (simp add: takes_def takes_method_def http_get_def path_match_def parse_pattern_def parse_seg_def Hash_String_not_Nil [OF assms(2)])
  also have "\<dots> = run_web (bindW (txRow sv t) (\<lambda>row. bindW (notFound row) (\<lambda>row. answer (writeJSON (json_Status (txStatus row))) :: unit web))) (tick s)"
    using assms by (simp add: txStatus_route_def txid_of_def bindW_assoc path_value_def)
  finally show ?thesis unfolding steady_txRow [OF assms(1)] by (auto simp only: split: if_split)
qed

lemma Tx_found:
  assumes "no_fault pg" and "find (\<lambda>x. xrTxid x = t) (dbTxs d) = Some x" and "BlockAtHeight pg (u32_of_int32 (xrHeight x)) d = Inr b"
  shows "\<exists>row. Tx pg t d = Inr row \<and> \<not> twUnconfirmed row \<and> twBlock row = Some b \<and> twHeight row = u32_of_int32 (xrHeight x)"
  using assms by (simp add: Tx_def coins_def)

lemma Tx_missing:
  assumes "no_fault pg" and "t \<notin> xrTxid ` set (dbTxs d)"
  shows "Tx pg t d = Inl ErrNotFound"
proof -
  have "find (\<lambda>x. xrTxid x = t) (dbTxs d) = None" using assms(2) by (auto simp: find_None_iff)
  then show ?thesis using assms(1) by (simp add: Tx_def)
qed

lemma block_of_tx:
  assumes "wf_db d" and "x \<in> set (dbTxs d)"
  shows "\<exists>b \<in> set (dbBlocks d). brHeight b = xrHeight x \<and> block_at d (xrHeight x) = Some b"
proof -
  obtain b where b: "b \<in> set (dbBlocks d)" "brHeight b = xrHeight x"
    using assms by (fastforce simp: wf_db_def wf_txs_def)
  moreover have "distinct (map brHeight (dbBlocks d))" using assms(1) by (simp add: wf_db_def wf_blocks_def)
  ultimately have "block_at d (xrHeight x) = Some b" unfolding block_at_def by (intro find_map_unique) auto
  then show ?thesis using b by blast
qed

lemma scanBlock_fields:
  "scanBlock d b = Inr info \<Longrightarrow> bwHash info = copy_into 32 (brHash b) \<and> bwBlockTime info = brBlockTime b"
  by (auto simp: scanBlock_def Let_def bindE_eq_Inr)

text \<open>
  C34. The status route tells the truth about a transaction: over tables that stand still, it answers
  \<open>confirmed\<close> with the height, hash and time of the block that carries the transaction when the index has
  it, whatever the mempool says; it answers unconfirmed when only the mempool has it; and it answers 404
  when neither has it. The heights must fit their column, and the sums over the block their numbers.
\<close>

theorem tx_status_served:
  assumes "steady sv m d" and "wf_db d" and "wf_hash t"
    and "\<forall>b \<in> set (dbBlocks d). int32_of_u32 (u32_of_int32 (brHeight b)) = brHeight b \<and> (\<exists>info. scanBlock d b = Inr info)"
  shows "(x \<in> set (dbTxs d) \<and> xrTxid x = t \<longrightarrow>
      (\<exists>b \<in> set (dbBlocks d). brHeight b = xrHeight x \<and> Handler sv (http_get [''tx'', Hash_String t, ''status'']) s
         = writeJSON (json_Status (newStatus (u32_of_int32 (xrHeight x)) (copy_into 32 (brHash b)) (brBlockTime b)))))
    \<and> (t \<notin> xrTxid ` set (dbTxs d) \<and> t \<in> mrTxid ` set (dbMempoolTxs d) \<longrightarrow>
      Handler sv (http_get [''tx'', Hash_String t, ''status'']) s = writeJSON (json_Status pendingStatus))
    \<and> (t \<notin> xrTxid ` set (dbTxs d) \<and> t \<notin> mrTxid ` set (dbMempoolTxs d) \<longrightarrow>
      rsStatus (Handler sv (http_get [''tx'', Hash_String t, ''status'']) s) = 404)"
proof (intro conjI impI)
  note route = Handler_tx_status [OF assms(1,3), of s, unfolded run_notFound]
  have pg: "no_fault (moPg m)" using assms(1) by simp
  assume x: "x \<in> set (dbTxs d) \<and> xrTxid x = t"
  obtain b where b: "b \<in> set (dbBlocks d)" "brHeight b = xrHeight x" "block_at d (xrHeight x) = Some b"
    using block_of_tx [OF assms(2)] x by blast
  obtain info where info: "scanBlock d b = Inr info" using assms(4) b(1) by blast
  have at: "BlockAtHeight (moPg m) (u32_of_int32 (xrHeight x)) d = Inr info"
    using b info assms(4) pg by (simp add: BlockAtHeight_def scan_one_def) (metis option.simps(5))
  have "distinct (map xrTxid (dbTxs d))" using assms(2) by (simp add: wf_db_def wf_txs_def)
  then have "find (\<lambda>y. xrTxid y = t) (dbTxs d) = Some x" using x by (intro find_map_unique) auto
  from Tx_found [OF pg this at] obtain row where row: "Tx (moPg m) t d = Inr row" "\<not> twUnconfirmed row" "twBlock row = Some info"
    "twHeight row = u32_of_int32 (xrHeight x)" by blast
  then show "\<exists>b \<in> set (dbBlocks d). brHeight b = xrHeight x \<and> Handler sv (http_get [''tx'', Hash_String t, ''status'']) s
      = writeJSON (json_Status (newStatus (u32_of_int32 (xrHeight x)) (copy_into 32 (brHash b)) (brBlockTime b)))"
    using b scanBlock_fields [OF info] route by (intro bexI [of _ b]) (simp_all add: txStatus_def)
next
  assume *: "t \<notin> xrTxid ` set (dbTxs d) \<and> t \<in> mrTxid ` set (dbMempoolTxs d)"
  have pg: "no_fault (moPg m)" using assms(1) by simp
  obtain y where "find (\<lambda>y. mrTxid y = t) (dbMempoolTxs d) = Some y"
    using * by (cases "find (\<lambda>y. mrTxid y = t) (dbMempoolTxs d)") (auto simp: find_None_iff)
  then obtain row where "MempoolTxRow (moPg m) t d = Inr row" "twUnconfirmed row"
    using pg by (simp add: MempoolTxRow_def)
  then show "Handler sv (http_get [''tx'', Hash_String t, ''status'']) s = writeJSON (json_Status pendingStatus)"
    using * Handler_tx_status [OF assms(1,3), of s, unfolded run_notFound] by (simp add: Tx_missing [OF pg] txStatus_def)
next
  assume *: "t \<notin> xrTxid ` set (dbTxs d) \<and> t \<notin> mrTxid ` set (dbMempoolTxs d)"
  have pg: "no_fault (moPg m)" using assms(1) by simp
  have "find (\<lambda>y. mrTxid y = t) (dbMempoolTxs d) = None" using * by (auto simp: find_None_iff)
  then have "MempoolTxRow (moPg m) t d = Inl ErrNotFound" using pg by (simp add: MempoolTxRow_def)
  then show "rsStatus (Handler sv (http_get [''tx'', Hash_String t, ''status'']) s) = 404"
    using * Handler_tx_status [OF assms(1,3), of s, unfolded run_notFound] by (simp add: Tx_missing [OF pg])
qed

theorem tx_status_served_witness:
  "\<forall>s. Handler (ex_server ex_db1) (http_get [''tx'', Hash_String (ex_hash 41), ''status'']) s
       = writeJSON (json_Status (newStatus 1 (ex_hash 11) None))
     \<and> rsStatus (Handler (ex_server ex_db1) (http_get [''tx'', Hash_String (ex_hash 42), ''status'']) s) = 404"
proof
  fix s
  have fits: "\<forall>b \<in> set (dbBlocks ex_db1). int32_of_u32 (u32_of_int32 (brHeight b)) = brHeight b \<and> (\<exists>info. scanBlock ex_db1 b = Inr info)"
    by (simp add: ex_db1_blocks block_row_of_def ex_genesis_def ex_block1_def scanBlock_def ex_db1_outputs ex_db1_txs to_bigint_def
        sum_values_def Let_def)
  let ?x = "\<lparr>xrTxid = ex_hash 41, xrHeight = 1, xrIndex = 0, xrSizeBytes = 99, xrFeeSats = 20, xrRaw = []\<rparr> :: tx_row"
  have wf: "wf_hash (ex_hash n)" for n by (simp add: wf_hash_def)
  have "Handler (ex_server ex_db1) (http_get [''tx'', Hash_String (ex_hash 41), ''status'']) s
       = writeJSON (json_Status (newStatus 1 (ex_hash 11) None))"
    using tx_status_served [OF ex_steady ex_db1_wf wf [of 41] fits, of ?x s]
    by (auto simp: ex_db1_txs ex_db1_blocks block_row_of_def ex_genesis_def ex_block1_def wf)
  moreover have "rsStatus (Handler (ex_server ex_db1) (http_get [''tx'', Hash_String (ex_hash 42), ''status'']) s) = 404"
    using tx_status_served [OF ex_steady ex_db1_wf wf [of 42] fits, of ?x s] by (simp add: ex_db1_txs ex_db1_mempool)
  ultimately show "Handler (ex_server ex_db1) (http_get [''tx'', Hash_String (ex_hash 41), ''status'']) s
       = writeJSON (json_Status (newStatus 1 (ex_hash 11) None))
     \<and> rsStatus (Handler (ex_server ex_db1) (http_get [''tx'', Hash_String (ex_hash 42), ''status'']) s) = 404" ..
qed

end
