(* ===== verification/Api_History.thy ===== *)
theory Api_History
  imports Api_Properties
begin

text \<open>
  The pages of an address history and the names of deposits, as a client that follows them sees them.
\<close>

subsection \<open>The next page of a history\<close>

lemma Handler_chain_route:
  assumes "prefix \<in> key_prefixes" and "raw \<noteq> []" and "seen \<noteq> []"
  shows "Handler sv (http_get [prefix, raw, ''txs'', ''chain'', seen]) s
    = run_web (addressTxs sv (http_get [prefix, raw, ''txs'', ''chain'', seen]) (path_value [(''key'', raw), (''last_seen'', seen)])) s"
proof -
  let ?r = "http_get [prefix, raw, ''txs'', ''chain'', seen]"
  have "(''GET'', ''/'' @ prefix @ ''/{key}/txs/chain/{last_seen}'', addressTxs) \<in> set routes"
    using assms(1) by (auto simp: routes_def key_routes_def)
  from Handler_route [OF this, of ?r sv s] assms show ?thesis
    by (auto simp: takes_def takes_method_def path_match_def http_get_def parse_pattern_def parse_seg_def)
qed

lemma steady_page_start:
  assumes "steady sv m d" and "pv ''start_height'' = []" and "pv ''last_seen'' = Hash_String t" and "wf_hash t"
    and "Tip (moPg m) d = Inr tip" and "Tx (moPg m) t d = Inr row" and "twHeight row \<noteq> 0"
  shows "run_web (bindW (page_start sv pv) f) s = run_web (f (twHeight row - 1)) (tick (tick s))"
  using assms Hash_String_not_Nil [OF assms(4)]
  by (auto simp: page_start_def startHeight_def bindW_assoc split: option.split)

lemma clampHeight_pred:
  assumes "0 < unat H" and "unat H < 2 ^ 31"
  shows "clampHeight (H - 1) = int (unat H) - 1"
proof -
  have "unat (H - 1) = unat H - 1" using assms(1) by (intro unat_minus_one) auto
  then show ?thesis
    using assms int32_of_u32_small [of "H - 1"] by (auto simp: clampHeight_def word_less_nat_alt)
qed

text \<open>
  C36. What a page of a history leaves out: over tables that stand still, the page a client asks for with
  the last transaction it has seen lists the newest rows strictly below the height of that transaction,
  in order and up to the page size. A row at that same height is on no such page, so when a page ends in
  the middle of a block the rest of the block's transactions is never served.
\<close>

theorem history_next_page:
  assumes "steady sv m d" and "prefix \<in> key_prefixes" and "raw \<noteq> []"
    and "key_of sv (prefix = ''scripthash'') raw = Some (column, key)"
    and "wf_hash t" and "Tip (moPg m) d = Inr tip" and "Tx (moPg m) t d = Inr row"
    and "0 < unat (twHeight row)" and "unat (twHeight row) < 2 ^ 31"
  shows "\<exists>page s'. page_of (\<lambda>(h, i). (- h, i)) (int PageSize)
        {(h, i) \<in> set (touched column key d). h < int (unat (twHeight row))} page
    \<and> Handler sv (http_get [prefix, raw, ''txs'', ''chain'', Hash_String t]) s
      = run_web (bindW (history_txs sv (map (\<lambda>(h, i). \<lparr>rfTxid = copy_into 32 i, rfHeight = u32_of_int32 h\<rparr>) page))
          (\<lambda>mined. answer (writeJSON (JArr (map json_Tx mined))) :: unit web)) s'
    \<and> (\<forall>i. (int (unat (twHeight row)), i) \<notin> set page)"
proof -
  let ?r = "http_get [prefix, raw, ''txs'', ''chain'', Hash_String t]"
  let ?pv = "path_value [(''key'', raw), (''last_seen'', Hash_String t)]"
  let ?before = "twHeight row - 1"
  have t: "Hash_String t \<noteq> []" using assms(5) by (rule Hash_String_not_Nil)
  have "isScriptHashRoute ?r = (prefix = ''scripthash'')" using assms(2) by (auto simp: isScriptHashRoute_key)
  then have key: "key_of sv (isScriptHashRoute ?r) (?pv ''key'') = Some (column, key)" using assms(4) by (simp add: path_value_def)
  have column: "column = ColumnAddress \<or> column = ColumnScriptHash"
    using assms(4) by (auto simp: key_of_def split: if_splits sum.splits)
  have pg: "no_fault (moPg m)" using assms(1) by simp
  obtain refs where refs: "History (moPg m) column key ?before (int PageSize) d = Inr refs"
    using column pg by (auto simp: History_def checkKeyColumn_def limit_rows_def)
  from History_page_of [OF this] obtain page where page: "refs = map (\<lambda>(h, i). \<lparr>rfTxid = copy_into 32 i, rfHeight = u32_of_int32 h\<rparr>) page"
    and of: "page_of (\<lambda>(h, i). (- h, i)) (int PageSize) {(h, i) \<in> set (touched column key d). h \<le> clampHeight ?before} page" by blast
  have "{(h, i) \<in> set (touched column key d). h \<le> clampHeight ?before} = {(h, i) \<in> set (touched column key d). h < int (unat (twHeight row))}"
    using clampHeight_pred [OF assms(8,9)] by auto
  note of = of [unfolded this]
  have nz: "twHeight row \<noteq> 0" using assms(8) by auto
  have "Handler sv ?r s = run_web (addressTxs sv ?r ?pv) s" by (rule Handler_chain_route [OF assms(2,3) t])
  also have "\<dots> = run_web (bindW (history_txs sv refs) (\<lambda>mined. answer (writeJSON (JArr (map json_Tx mined))) :: unit web))
      (tick (tick (tick (tick s))))"
    unfolding addressTxs_def steady_addressKey [of sv m d ?r ?pv, OF assms(1) key]
    using assms(1) refs t
    by (simp add: steady_page_start [of sv m d ?pv t tip row, OF assms(1) _ _ assms(5,6,7) nz] path_value_def)
  finally have "Handler sv ?r s = \<dots>" .
  moreover have "(int (unat (twHeight row)), i) \<notin> set page" for i using of by (auto simp: page_of_def)
  ultimately show ?thesis using of unfolding page by blast
qed

text \<open>The history of the example address, after its one transaction, which is at height 1.\<close>

theorem history_next_page_witness:
  "\<forall>s. Handler (ex_server ex_db1) (http_get [''address'', hex_encode (replicate 20 7), ''txs'', ''chain'', Hash_String (ex_hash 41)]) s
       = writeJSON (JArr [])"
proof
  fix s
  let ?raw = "hex_encode (replicate 20 7)" and ?sv = "ex_server ex_db1"
  have "length ?raw = 40" by simp
  then have raw: "?raw \<noteq> []" by (metis list.size(3) zero_neq_numeral)
  have key: "key_of ?sv (''address'' = ''scripthash'') ?raw = Some (ColumnAddress, replicate 20 7)"
    by (simp add: key_of_def ex_server_def ParseAddress_def)
  obtain row where row: "Tx ex_pg (ex_hash 41) ex_db1 = Inr row" "twHeight row = 1" using ex_tx41 by blast
  have tip: "\<exists>tip. Tip ex_pg ex_db1 = Inr tip"
    using level_apply_tx [OF apply_block1 ex_db0_level] by (auto simp: Tip_def ex_db0_blocks ex_block1_def wf_hash_def level_def split: if_splits option.splits)
  have pg: "moPg ex_moment = ex_pg" by (simp add: ex_moment_def)
  have empty: "{(h, i) \<in> set (touched ColumnAddress (replicate 20 7) ex_db1). h < int (unat (twHeight row))} = {}"
    by (auto simp: row(2) touched_def key_column_def ex_db1_outputs Let_def)
  obtain tip where "Tip (moPg ex_moment) ex_db1 = Inr tip" using tip by (auto simp: pg)
  moreover have "Tx (moPg ex_moment) (ex_hash 41) ex_db1 = Inr row" using row by (simp add: pg)
  moreover have "wf_hash (ex_hash 41)" "0 < unat (twHeight row)" "unat (twHeight row) < 2 ^ 31" by (simp_all add: wf_hash_def row(2))
  ultimately obtain page s' where page: "page_of (\<lambda>(h, i). (- h, i)) 25 {} page"
    and run: "Handler ?sv (http_get [''address'', ?raw, ''txs'', ''chain'', Hash_String (ex_hash 41)]) s
      = run_web (bindW (history_txs ?sv (map (\<lambda>(h, i). \<lparr>rfTxid = copy_into 32 i, rfHeight = u32_of_int32 h\<rparr>) page))
          (\<lambda>mined. answer (writeJSON (JArr (map json_Tx mined))) :: unit web)) s'"
    using history_next_page [OF ex_steady _ raw key, of "ex_hash 41" tip row s, unfolded empty] by auto
  then have "page = []" by (simp add: page_of_def)
  then show "Handler ?sv (http_get [''address'', ?raw, ''txs'', ''chain'', Hash_String (ex_hash 41)]) s = writeJSON (JArr [])"
    using run by simp
qed

subsection \<open>The name of a deposit\<close>

lemma newest_first_Nil: "newest_first xs = [] \<longleftrightarrow> xs = []"
proof -
  have "length (newest_first xs) = length xs" by (simp add: newest_first_def)
  then show ?thesis by (cases "newest_first xs"; cases xs) simp_all
qed

lemma join_blocks_Nil: "join_blocks d rs = [] \<longleftrightarrow> (\<forall>r \<in> set rs. block_at d (orHeight r) = None)"
  unfolding join_blocks_def by (induction rs) (auto simp: map_filter_simps split: option.splits)

lemma deposit_route_reads:
  assumes "steady sv m d" and "raw \<noteq> []" and "bindE (quoted_json raw) BitcoinHash_UnmarshalJSON = Inr src"
  shows "rsStatus (Handler sv (http_get [''deposit'', raw]) s)
    = (if (\<exists>r \<in> set (dbOutputs d). orKind r = KindDeposit \<and> (src = [] \<or> orSource r = src) \<and> orHeight r \<le> max_int32
          \<and> block_at d (orHeight r) \<noteq> None) then 200 else 404)"
proof -
  let ?r = "http_get [''deposit'', raw]"
  have "(''GET'', ''/deposit/{txid}'', \<lambda>sv r. deposit_route sv) \<in> set routes" by (simp add: routes_def)
  from Handler_route [OF this, of ?r sv s]
  have route: "Handler sv ?r s = run_web (deposit_route sv (path_value [(''txid'', raw)])) s"
    using assms(2) by (simp add: takes_def takes_method_def http_get_def path_match_def parse_pattern_def parse_seg_def)
  let ?rows = "filter (\<lambda>r. orKind r = KindDeposit \<and> (src = [] \<or> orSource r = src) \<and> orHeight r \<le> max_int32) (dbOutputs d)"
  have "clampHeight (- 1) = max_int32" by (simp add: clampHeight_def)
  then have reads: "Deposits (moPg m) src (- 1) depositListSize d = Inr (map scan_utxo (take 50 (newest_first (join_blocks d ?rows))))"
    using assms(1) by (simp add: Deposits_def limit_rows_def)
  have status: "rsStatus (Handler sv ?r s) = (if us = [] then 404 else 200)" if "Deposits (moPg m) src (- 1) depositListSize d = Inr us" for us
    unfolding route deposit_route_def by (simp add: steady_store [OF assms(1)] steady_query [OF assms(1)] path_value_def assms(3) that)
  have "rsStatus (Handler sv ?r s) = (if newest_first (join_blocks d ?rows) = [] then 404 else 200)"
    by (subst status [OF reads]) simp
  moreover have "newest_first (join_blocks d ?rows) = [] \<longleftrightarrow> join_blocks d ?rows = []"
    by (rule newest_first_Nil)
  moreover have "join_blocks d ?rows = [] \<longleftrightarrow> (\<forall>r \<in> set ?rows. block_at d (orHeight r) = None)"
    by (rule join_blocks_Nil)
  ultimately show ?thesis by auto
qed


text \<open>The example index with one deposit in its first block.\<close>

definition ex_deposit_row :: output_row where
  "ex_deposit_row = (dbOutputs ex_db1 ! 0)\<lparr>orKind := KindDeposit, orSource := 1 # replicate 31 0\<rparr>"

definition ex_deposit_db :: db where
  "ex_deposit_db = ex_db1\<lparr>dbOutputs := [ex_deposit_row]\<rparr>"


end
