(* ===== verification/Spec2Isabelle.thy ===== *)
theory Spec2Isabelle
  imports Prepare Store_Read Typed_Index Process Api_History
begin

text \<open>
  A verification development of drivechain-esplora, a Go service that follows one rust sidechain, keeps an
  index of it in Postgres and serves the Esplora REST API over that index.

  \<^bold>\<open>The program.\<close> \<open>cmd/drivechain-esplora\<close> reads the flags and starts everything. \<open>internal/rpc\<close> calls a
  node over JSON-RPC and \<open>internal/chain\<close> decodes what it answers: hashes, outpoints, blocks, and the
  contents of outputs with one decoder per chain. \<open>internal/index\<close> walks the chain: a pass finds where the index and the
  node agree, rolls back what the node dropped, and turns each further block into rows; a second loop replaces the
  unconfirmed set. \<open>internal/store\<close> writes and reads the rows. \<open>internal/api\<close> answers requests from them, with the
  escrow of the mainchain read through \<open>internal/mainchain\<close>. The node and the database sit behind the connection wrapper
  of \<open>internal/service\<close>, so either may be down at any time.

  \<^bold>\<open>How code becomes definitions.\<close> A struct is a \<open>record\<close>, an enum or a tagged value a \<open>datatype\<close>, a Go
  integer of fixed width a word, with the conversions between widths written out. An error is a
  value: \<open>'a res\<close> is \<open>error + 'a\<close>, and \<open>bindE\<close> is the early return. What the program does not contain
  is an argument: the answers of the node and of the enforcer, the faults of Postgres (\<open>pg\<close>: any statement fails, a commit
  aborts, or is done but its answer lost, be it of a transaction or of one statement), base58, blake3, the clock and the end of a context. An action (\<open>act\<close>) passes a
  state; each call to the outside reads the environment at the current tick and moves it on, so that what is outside
  may change between any two calls. The two loops share the database: a transaction of the mempool loop may be
  serialized between any two calls of a pass of the sync loop. A request handler (\<open>web\<close>) is such an action that may answer early.

  \<^bold>\<open>Theories.\<close>
  \<^item> \<open>Prelude\<close>, \<open>Encoding\<close>, \<open>Json\<close>, \<open>Json_Text\<close>, \<open>Http\<close>, \<open>Sha256\<close>, \<open>Action\<close>: errors and their monad, hex, decimal and
    little-endian codecs, the part of \<open>encoding/json\<close> the program uses on values and on texts, an HTTP
    exchange, the digest behind script hashes, state-passing actions with a Hoare calculus. The locales \<open>codec\<close>,
    \<open>fixed_codec\<close> and \<open>json_text\<close> say what an encoding promises, and are interpreted for every encoding.
  \<^item> \<open>Hashes\<close>, \<open>OutPoint\<close>, \<open>Block\<close>, \<open>Wire\<close>: \<open>chain/hash.go\<close>, \<open>bytes.go\<close>, \<open>outpoint.go\<close>, \<open>block.go\<close>, with the JSON form of
    every struct in both directions.
  \<^item> \<open>Decoders\<close>, \<open>Registry\<close>: the seven decoders, each an interpretation of the locale \<open>output_decoder\<close>; the
    networks, ports and registration of \<open>chain/registry.go\<close> and \<open>chain/register\<close>.
  \<^item> \<open>Store\<close>, \<open>Store_Inv\<close>, \<open>Store_Chain\<close>, \<open>Store_Properties\<close>, \<open>Store_Read\<close>, \<open>Mempool\<close>, \<open>Migrate\<close>: the tables of
    \<open>store/migrations\<close> as lists of rows, every write and every query of \<open>store/*.go\<close> over them with the
    constraints and conflicts of the schema, the invariant \<open>wf_db\<close>, the abstract ledger the tables refine, and the migrations.
  \<^item> \<open>Prepare\<close>, \<open>Sync\<close>, \<open>Sync_Inv\<close>, \<open>Sync_Stable\<close>, \<open>Sync_Properties\<close>, \<open>Run\<close>: \<open>index/*.go\<close>. The locale \<open>chain_index\<close> is the
    contract between the walk to the fork and the store, interpreted on the model of the store.
  \<^item> \<open>Service\<close>: the wrapper, once as one caller sees it and once as a step relation with a program counter for each
    goroutine; the locale \<open>connection\<close> is what its users rely on.
  \<^item> \<open>Enforcer\<close>, \<open>Node_Rpc\<close>: the two HTTP clients, and the node of the end-to-end tests.
  \<^item> \<open>Typing\<close>, \<open>Typed_Index\<close>: the values each Go type and each column can hold, as predicates, with a rule for every decoder
    and every write; so what a node can put into the index is bounded by types alone, whatever texts it sends.
  \<^item> \<open>Esplora\<close>, \<open>Web\<close>, \<open>Handlers\<close>, \<open>Routes\<close>, \<open>Router\<close>, \<open>Api_Properties\<close>, \<open>Api_History\<close>: the types, handlers and route table
    of \<open>api/*.go\<close>.
  \<^item> \<open>Command\<close>, \<open>Process\<close>: the start of \<open>main.go\<close>, and the running command up to its exit as a step relation. This theory puts
    the two ends together.

  \<^bold>\<open>What is shown.\<close> For every answer and every fault of what is outside and every interleaving with the mempool
  loop, a pass of the sync loop ends in well-formed tables that form an unbroken chain; it reaches the chain of a node that stands still, also through the texts of the
  protocol; it rolls back no further than it must. A block is written whole or not at all, a rollback undoes it
  exactly, and the unspent coins are those of an abstract ledger. No text of a node gets a value into a column that
  is not of its type. The queries return what the tables hold, and the
  routes return what the queries do: balances equal the sum of the listed coins, pages neither repeat nor skip within a
  block, every request gets an answer. Connections are neither lost nor released twice under any interleaving. Migrations run once and in order
  over any number of broken starts, and a database serves one chain for good. The command runs until a signal or a failed
  listener, and exits cleanly only with every request answered. The readers give back
  what the writers wrote. Where the code does something else than its
  comments say, a theorem states what it does.

  \<^bold>\<open>Bounds.\<close> Loops of the code that always end are structural recursion or have a measure. The reader of
  JSON texts has fuel, one more than the length of the text, and each call consumes a character. The polling loops
  end only with their context, so they are partial functions and \<open>None\<close> is a loop that does not return; it
  is proved when they return and when not. Statements on the chain of a node bound its length by
  \<open>2 ^ 31\<close>, the range of the height column.

  \<^bold>\<open>Not modelled.\<close> Log lines and the texts of errors; time-outs, except as a call that fails; the sockets of the HTTP
  listener and the redirect of unclean paths before the router; the planning and locking of Postgres (a transaction is atomic, and what a commit did is an argument);
  the text of the SQL of a migration, which is an argument of \<open>Migrate\<close> while the schema it builds is the record \<open>db\<close>. In JSON
  texts, surrogate pairs, bytes that are not UTF-8 and the limit on depth.
\<close>

section \<open>From a node to the tables\<close>

text \<open>What the loops meet when nothing is down: both connections stand, the context lives, no statement fails.\<close>

definition all_up :: "env \<Rightarrow> bool" where
  "all_up env \<longleftrightarrow> (\<forall>t. moGetNode (env t) = Inr () \<and> moGetStore (env t) = Inr () \<and> \<not> moCancelled (env t)
     \<and> no_fault (moPg (env t)) \<and> (\<forall>x. \<exists>v. moTime (env t) x = Inr v))"

text \<open>At every moment the loop reaches the node through a client of the JSON-RPC protocol.\<close>

definition over_rpc :: "(string \<Rightarrow> bytes option) \<Rightarrow> (nat \<Rightarrow> client) \<Rightarrow> env \<Rightarrow> bool" where
  "over_rpc dec client env \<longleftrightarrow> (\<forall>t. moNode (env t) = rpc_node dec write_json read_json (client t))"

lemma writable_same_pg: "(\<And>t. moPg (env t) = moPg (env' t)) \<Longrightarrow> writable cf env c blk idx = writable cf env' c blk idx"
  by (simp add: writable_def)

lemma rpc_healthy:
  assumes "over_rpc dec client env" and "all_up env" and "\<And>t. linked write_json read_json say enc (client t) n"
    and "wire_node n" and "b58_pair enc dec" and "fnChain n \<noteq> []" and "length (fnChain n) \<le> 2 ^ 31"
    and held: "\<And>x. x \<in> set (fnChain n) \<Longrightarrow> fnBlocks n x = Some (blk x) \<and> fnIndex n x = Some (idx x)"
  shows "healthy env (fnChain n) blk idx"
proof -
  have node: "moNode (env t) = rpc_node dec write_json read_json (client t)" for t using assms(1) by (simp add: over_rpc_def)
  have count: "ndCount (moNode (env t)) = Inr (of_nat (length (fnChain n)))" for t
    unfolding node rpc_node_def using go_json.count_read [OF assms(3)] assms(4) by (simp add: wire_node_def)
  have at: "ndHashAt (moNode (env t)) h = Inr (lookup_hash (fnChain n) h)" for t h
    unfolding node rpc_node_def using go_json.hash_at_read [OF assms(3)] assms(4) by (simp add: wire_node_def)
  have wf: "wf_hash x" if "x \<in> set (fnChain n)" for x using that assms(4) by (simp add: wire_node_def)
  have block: "ndBlock (moNode (env t)) x = Inr (Some (blk x))" if "x \<in> set (fnChain n)" for t x
    unfolding node rpc_node_def using go_json.block_read [OF assms(3,5)] assms(4) held [OF that] wf [OF that] by (simp add: wire_node_def)
  have index: "ndIndex (moNode (env t)) x = Inr (idx x)" if "x \<in> set (fnChain n)" for t x
    unfolding node rpc_node_def using go_json.index_read [OF assms(3,5)] assms(4) held [OF that] wf [OF that] by (simp add: wire_node_def)
  have "serves env (fnChain n)" unfolding serves_def using assms(6,7) wf by (simp add: count at)
  then show ?thesis unfolding healthy_def using assms(2) by (simp add: all_up_def count at block index)
qed


text \<open>The index of the example against the node with its other branch.\<close>

definition ex_rpc_env :: env where
  "ex_rpc_env t = (ex_env [ex_hash 10, ex_hash 12] t)\<lparr>moNode := rpc_node ex_dec write_json read_json (ex_client t)\<rparr>"

lemma ex_pg_up: "no_fault ex_pg"
  using ex_healthy_at [OF ex_branch] by (simp add: healthy_def ex_env_def)


end
